(* ===== verification/Prelude.thy ===== *)
theory Prelude
  imports Main "HOL-Library.AList" "HOL-Library.Word" "HOL-Library.Multiset"
begin

text \<open>
  Shared material of the development: the representation of \<^verbatim>\<open>std::io::Result\<close>, of
  \<^verbatim>\<open>std::collections::HashMap\<close> and of the fixed-width integers, the interface locales several
  components use, and the lemma collections the component proofs rely on.
\<close>

section \<open>Lemma collections\<close>

named_theorems agent_defs \<open>definitions of the small accessors that proofs unfold freely\<close>
named_theorems agent_frame \<open>frame facts: what an operation leaves unchanged\<close>

section \<open>Errors as values\<close>

text \<open>
  An \<^verbatim>\<open>std::io::Error\<close> is represented by its \<^verbatim>\<open>ErrorKind\<close>. The message text of an error is
  diagnostic output only and is not modelled. \<open>OsError\<close> stands for every kind the code never
  tests for by name.
\<close>

datatype error_kind =
    InvalidData
  | InvalidInput
  | Other
  | ConnectionRefused
  | Unsupported
  | Interrupted
  | NotFound
  | OsError nat

type_synonym 'a io_result = "error_kind + 'a"

definition io_bind :: "'a io_result \<Rightarrow> ('a \<Rightarrow> 'b io_result) \<Rightarrow> 'b io_result" where
  "io_bind m f = (case m of Inl e \<Rightarrow> Inl e | Inr x \<Rightarrow> f x)"

definition is_ok :: "'a io_result \<Rightarrow> bool" where
  "is_ok r = (case r of Inl _ \<Rightarrow> False | Inr _ \<Rightarrow> True)"

lemma io_bind_simps [simp]:
  "io_bind (Inl e) f = Inl e"
  "io_bind (Inr x) f = f x"
  by (simp_all add: io_bind_def)

lemma io_bind_eq_Inr [simp]: "io_bind m f = Inr y \<longleftrightarrow> (\<exists>x. m = Inr x \<and> f x = Inr y)"
  by (cases m) simp_all

lemma is_ok_simps [simp]:
  "\<not> is_ok (Inl e)"
  "is_ok (Inr x)"
  by (simp_all add: is_ok_def)

lemma is_ok_iff: "is_ok r \<longleftrightarrow> (\<exists>x. r = Inr x)"
  by (cases r) simp_all

section \<open>Machine integers\<close>

type_synonym u8 = "8 word"
type_synonym u16 = "16 word"
type_synonym u32 = "32 word"
type_synonym i32 = "32 word"
type_synonym u64 = "64 word"
type_synonym u128 = "128 word"

text \<open>\<^verbatim>\<open>u16::to_be\<close> and \<^verbatim>\<open>u16::from_be\<close> on a little-endian target: both swap the two bytes.\<close>

definition swap16 :: "u16 \<Rightarrow> u16" where
  "swap16 w = word_of_nat ((unat w mod 256) * 256 + unat w div 256)"

lemma unat_u16_less: "unat (w :: u16) < 65536"
  using unsigned_less [of w] by simp

lemma unat_u16_div: "unat (w :: u16) div 256 < 256"
  using unat_u16_less [of w] by (simp add: div_less_iff_less_mult)

lemma unat_swap16: "unat (swap16 w) = (unat w mod 256) * 256 + unat w div 256"
proof -
  have "unat w mod 256 < 256"
    by simp
  with unat_u16_div [of w] have "(unat w mod 256) * 256 + unat w div 256 < 65536"
    by linarith
  then show ?thesis
    unfolding swap16_def by (subst unat_of_nat) simp
qed

lemma swap16_swap16 [simp]: "swap16 (swap16 w) = w"
proof -
  have "unat (swap16 (swap16 w)) = (unat w div 256) * 256 + unat w mod 256"
    using unat_u16_div [of w] by (simp add: unat_swap16)
  also have "\<dots> = unat w"
    by simp
  finally show ?thesis by (rule unsigned_word_eqI)
qed

lemma swap16_eq_iff [simp]: "swap16 a = swap16 b \<longleftrightarrow> a = b"
  by (metis swap16_swap16)

section \<open>Hash maps\<close>

text \<open>
  A \<^verbatim>\<open>HashMap<K, V>\<close> is an association list with distinct keys. Its order stands for the order in
  which the map is iterated, which Rust leaves unspecified: a lemma about an operation that
  iterates is stated for every list with distinct keys, that is for every iteration order.
  The locale states what the clients rely on; the interpretation below discharges it for
  \<open>AList.update\<close>, the insertion every component uses.
\<close>

type_synonym ('k, 'v) hmap = "('k \<times> 'v) list"

abbreviation hm_insert :: "'k \<Rightarrow> 'v \<Rightarrow> ('k, 'v) hmap \<Rightarrow> ('k, 'v) hmap" where
  "hm_insert \<equiv> AList.update"

abbreviation hm_get :: "('k, 'v) hmap \<Rightarrow> 'k \<Rightarrow> 'v option" where
  "hm_get \<equiv> map_of"

definition hm_inv :: "('k, 'v) hmap \<Rightarrow> bool" where
  "hm_inv m \<longleftrightarrow> distinct (map fst m)"

locale hash_map =
  fixes empty :: "'m"
    and insert :: "'k \<Rightarrow> 'v \<Rightarrow> 'm \<Rightarrow> 'm"
    and get :: "'m \<Rightarrow> 'k \<Rightarrow> 'v option"
    and entries :: "'m \<Rightarrow> ('k \<times> 'v) list"
    and invar :: "'m \<Rightarrow> bool"
  assumes get_empty: "get empty k = None"
    and get_insert: "get (insert k v m) k' = (if k' = k then Some v else get m k')"
    and inv_empty: "invar empty"
    and inv_insert: "invar m \<Longrightarrow> invar (insert k v m)"
    and entries_distinct: "invar m \<Longrightarrow> distinct (map fst (entries m))"
    and entries_get: "map_of (entries m) = get m"
begin

text \<open>Inserting a list of pairs one after the other: the last pair of a key wins.\<close>

definition insert_all :: "('k \<times> 'v) list \<Rightarrow> 'm \<Rightarrow> 'm" where
  "insert_all ps m = foldl (\<lambda>acc p. insert (fst p) (snd p) acc) m ps"

lemma insert_all_inv: "invar m \<Longrightarrow> invar (insert_all ps m)"
  unfolding insert_all_def
  by (induction ps arbitrary: m) (simp_all add: inv_insert)

lemma get_insert_all:
  "get (insert_all ps m) k = (case map_of (rev ps) k of None \<Rightarrow> get m k | Some v \<Rightarrow> Some v)"
  unfolding insert_all_def
  by (induction ps arbitrary: m) (auto simp: get_insert map_add_def split: option.splits)

lemma entries_mem: "invar m \<Longrightarrow> (k, v) \<in> set (entries m) \<longleftrightarrow> get m k = Some v"
  using entries_distinct [of m] by (simp add: map_of_eq_Some_iff flip: entries_get)

lemma dom_get: "dom (get m) = fst ` set (entries m)"
  by (simp add: dom_map_of_conv_image_fst flip: entries_get)

lemma card_dom_get: "invar m \<Longrightarrow> card (dom (get m)) = length (entries m)"
  using entries_distinct [of m] by (simp add: dom_get distinct_card flip: set_map)

lemma insert_frame: "k' \<noteq> k \<Longrightarrow> get (insert k v m) k' = get m k'"
  by (simp add: get_insert)

end

interpretation hm: hash_map "[]" AList.update map_of "\<lambda>m. m" hm_inv
  by unfold_locales (auto simp: hm_inv_def update_conv' intro: distinct_update)

lemma hm_inv_simps [simp]:
  "hm_inv []"
  "hm_inv ((k, v) # m) \<longleftrightarrow> k \<notin> fst ` set m \<and> hm_inv m"
  by (simp_all add: hm_inv_def)

lemmas hm_get_insert [simp] = hm.get_insert
lemmas hm_inv_insert [simp, intro] = hm.inv_insert

text \<open>The number of entries grows by one exactly when the key is new.\<close>

lemma length_hm_insert:
  "length (hm_insert k v m) = (if k \<in> fst ` set m then length m else Suc (length m))"
  by (induction m) auto

section \<open>Step systems\<close>

text \<open>
  The threads of the agent (the key-latch poll, the provision state, the extension monitor) are
  step functions over the events their environment feeds them. The locale states what an inductive
  invariant is; its lemmas lift a per-step fact to every run.
\<close>

locale step_system =
  fixes step :: "'e \<Rightarrow> 's \<Rightarrow> 's"
    and invar :: "'s \<Rightarrow> bool"
  assumes step_inv: "invar s \<Longrightarrow> invar (step e s)"
begin

lemma run_inv: "invar s \<Longrightarrow> invar (fold step es s)"
  by (induction es arbitrary: s) (simp_all add: step_inv)

lemma run_append_inv: "invar s \<Longrightarrow> invar (fold step (es @ es') s)"
  by (rule run_inv)

text \<open>A quantity that no step decreases, under the invariant, is monotone along a run.\<close>

lemma run_mono:
  fixes f :: "'s \<Rightarrow> 'o::preorder"
  assumes "\<And>e s. invar s \<Longrightarrow> f s \<le> f (step e s)" and "invar s"
  shows "f s \<le> f (fold step es s)"
  using assms(2)
proof (induction es arbitrary: s)
  case Nil
  show ?case by simp
next
  case (Cons e es)
  from Cons.prems have "f s \<le> f (step e s)"
    by (rule assms(1))
  also have "\<dots> \<le> f (fold step es (step e s))"
    using Cons.prems by (intro Cons.IH step_inv)
  finally show ?case by simp
qed

text \<open>A predicate that every step keeps, once the invariant holds, holds for ever after.\<close>

lemma run_stable:
  assumes "\<And>e s. invar s \<Longrightarrow> P s \<Longrightarrow> P (step e s)" and "invar s" and "P s"
  shows "P (fold step es s)"
  using assms(2,3)
  by (induction es arbitrary: s) (simp_all add: assms(1) step_inv)

end

section \<open>Fixed-width codecs\<close>

text \<open>
  The structures shared with the eBPF programs are converted to and from arrays of \<^verbatim>\<open>u32\<close>.
\<close>

locale u32_codec =
  fixes encode :: "'a \<Rightarrow> u32 list"
    and decode :: "u32 list \<Rightarrow> 'a"
    and width :: nat
  assumes decode_encode: "decode (encode x) = x"
    and encode_width: "length (encode x) = width"
begin

lemma encode_inj: "encode x = encode y \<longleftrightarrow> x = y"
  by (metis decode_encode)

text \<open>Hence a map keyed by encoded values behaves like one keyed by the values.\<close>

lemma encoded_lookup:
  "map_of (AList.update (encode k) v m) (encode k') = (if k' = k then Some v else map_of m (encode k'))"
  by (simp add: update_conv' encode_inj)

end

end
