(* ===== verification/Rust_Str.thy ===== *)
theory Rust_Str
  imports Prelude "HOL-Library.Sublist" "HOL-Library.List_Lexorder" "HOL-Library.Char_ord"
begin

text \<open>
  The part of Rust's \<^verbatim>\<open>String\<close> and \<^verbatim>\<open>str\<close> that the sources use. A \<^verbatim>\<open>String\<close> is the list of its UTF-8
  bytes (a \<^typ>\<open>char\<close> of HOL is a byte), so that \<^verbatim>\<open>len\<close> and \<^verbatim>\<open>find\<close> count bytes while
  \<^verbatim>\<open>chars().take(n)\<close> and \<^verbatim>\<open>chars().skip(n)\<close> count characters, as they do in Rust. The order on
  strings is the lexicographic order of the bytes. Case mapping (\<^verbatim>\<open>to_lowercase\<close>,
  \<^verbatim>\<open>to_uppercase\<close>) is modelled for the ASCII letters; every other character is left as it is, so
  the Unicode case tables beyond ASCII are not part of the model.
\<close>

section \<open>Bytes, characters and UTF-8\<close>

abbreviation byte :: "char \<Rightarrow> nat" where
  "byte c \<equiv> of_char c"

definition is_ascii :: "string \<Rightarrow> bool" where
  "is_ascii s \<longleftrightarrow> list_all (\<lambda>c. byte c < 128) s"

definition char_width :: "char \<Rightarrow> nat" where
  "char_width c =
     (if byte c < 192 then 1 else if byte c < 224 then 2 else if byte c < 240 then 3 else 4)"

text \<open>\<^verbatim>\<open>str::chars\<close>: the characters of a string, each as its UTF-8 bytes.\<close>

fun chars :: "string \<Rightarrow> string list" where
  "chars [] = []"
| "chars (c # cs) = (c # take (char_width c - 1) cs) # chars (drop (char_width c - 1) cs)"

definition chars_take :: "nat \<Rightarrow> string \<Rightarrow> string" where
  "chars_take n s = concat (take n (chars s))"

definition chars_skip :: "nat \<Rightarrow> string \<Rightarrow> string" where
  "chars_skip n s = concat (drop n (chars s))"

definition is_cont :: "char \<Rightarrow> bool" where
  "is_cont c \<longleftrightarrow> 128 \<le> byte c \<and> byte c < 192"

text \<open>
  \<^verbatim>\<open>String::from_utf8\<close> accepts exactly the well-formed UTF-8 byte sequences: no overlong forms, no
  surrogates, nothing above U+10FFFF.
\<close>

fun utf8_valid :: "string \<Rightarrow> bool" where
  "utf8_valid [] = True"
| "utf8_valid (a # cs) =
     (if byte a < 128 then utf8_valid cs
      else if 194 \<le> byte a \<and> byte a < 224 then
        (case cs of b # r \<Rightarrow> is_cont b \<and> utf8_valid r | _ \<Rightarrow> False)
      else if 224 \<le> byte a \<and> byte a < 240 then
        (case cs of b # c # r \<Rightarrow> is_cont b \<and> is_cont c
             \<and> (byte a = 224 \<longrightarrow> 160 \<le> byte b) \<and> (byte a = 237 \<longrightarrow> byte b < 160) \<and> utf8_valid r
         | _ \<Rightarrow> False)
      else if 240 \<le> byte a \<and> byte a < 245 then
        (case cs of b # c # d # r \<Rightarrow> is_cont b \<and> is_cont c \<and> is_cont d
             \<and> (byte a = 240 \<longrightarrow> 144 \<le> byte b) \<and> (byte a = 244 \<longrightarrow> byte b < 144) \<and> utf8_valid r
         | _ \<Rightarrow> False)
      else False)"

definition from_utf8 :: "string \<Rightarrow> string io_result" where
  "from_utf8 bs = (if utf8_valid bs then Inr bs else Inl InvalidData)"

text \<open>\<^verbatim>\<open>str::is_char_boundary\<close>; slicing a string at another index panics.\<close>

definition is_char_boundary :: "nat \<Rightarrow> string \<Rightarrow> bool" where
  "is_char_boundary n s \<longleftrightarrow> n = 0 \<or> n = length s \<or> (n < length s \<and> \<not> is_cont (s ! n))"

section \<open>Searching, trimming, splitting\<close>

text \<open>\<^verbatim>\<open>str::find\<close> with a string pattern: the byte index of the first occurrence.\<close>

fun find_str :: "string \<Rightarrow> string \<Rightarrow> nat option" where
  "find_str pat [] = (if pat = [] then Some 0 else None)"
| "find_str pat (c # cs) =
     (if prefix pat (c # cs) then Some 0 else map_option Suc (find_str pat cs))"

abbreviation starts_with :: "string \<Rightarrow> string \<Rightarrow> bool" where
  "starts_with s p \<equiv> prefix p s"

definition contains_str :: "string \<Rightarrow> string \<Rightarrow> bool" where
  "contains_str s p \<longleftrightarrow> find_str p s \<noteq> None"

text \<open>\<^verbatim>\<open>str::replace\<close> of the occurrences of a non-empty pattern, from the left.\<close>

function replace_str :: "string \<Rightarrow> string \<Rightarrow> string \<Rightarrow> string" where
  "replace_str pat r [] = []"
| "replace_str pat r (c # s) =
     (if pat \<noteq> [] \<and> starts_with (c # s) pat then r @ replace_str pat r (drop (length pat) (c # s))
      else c # replace_str pat r s)"
  by pat_completeness auto
termination
  by (relation "measure (\<lambda>(pat, r, s). length s)") auto

declare replace_str.simps(2) [simp del]

text \<open>\<^verbatim>\<open>char::is_whitespace\<close>: the characters with the Unicode property White\_Space.\<close>

definition is_whitespace :: "string \<Rightarrow> bool" where
  "is_whitespace ch \<longleftrightarrow>
     (case map byte ch of
        [a] \<Rightarrow> a = 32 \<or> (9 \<le> a \<and> a \<le> 13)
      | [a, b] \<Rightarrow> a = 194 \<and> (b = 133 \<or> b = 160)
      | [a, b, c] \<Rightarrow>
          (a = 225 \<and> b = 154 \<and> c = 128)
          \<or> (a = 226 \<and> b = 128 \<and> (c \<le> 138 \<or> c = 168 \<or> c = 169 \<or> c = 175))
          \<or> (a = 226 \<and> b = 129 \<and> c = 159)
          \<or> (a = 227 \<and> b = 128 \<and> c = 128)
      | _ \<Rightarrow> False)"

definition trim :: "string \<Rightarrow> string" where
  "trim s = concat (rev (dropWhile is_whitespace (rev (dropWhile is_whitespace (chars s)))))"

text \<open>\<^verbatim>\<open>str::split_whitespace\<close>: the maximal non-empty runs of other characters.\<close>

fun split_ws_acc :: "string \<Rightarrow> string list \<Rightarrow> string list" where
  "split_ws_acc cur [] = (if cur = [] then [] else [cur])"
| "split_ws_acc cur (ch # chs) =
     (if is_whitespace ch then (if cur = [] then [] else [cur]) @ split_ws_acc [] chs
      else split_ws_acc (cur @ ch) chs)"

definition split_whitespace :: "string \<Rightarrow> string list" where
  "split_whitespace s = split_ws_acc [] (chars s)"

text \<open>\<^verbatim>\<open>str::split\<close> with a one-byte character as the separator.\<close>

fun split_on :: "char \<Rightarrow> string \<Rightarrow> string list" where
  "split_on sep [] = [[]]"
| "split_on sep (c # cs) =
     (if c = sep then [] # split_on sep cs
      else (case split_on sep cs of [] \<Rightarrow> [[c]] | p # ps \<Rightarrow> (c # p) # ps))"

definition LF :: string where "LF = [CHR 0x0A]"
definition CRLF :: string where "CRLF = [CHR 0x0D, CHR 0x0A]"
definition DOUBLE_CRLF :: string where "DOUBLE_CRLF = CRLF @ CRLF"

text \<open>\<^verbatim>\<open>str::lines\<close>: a line ends at LF or CR LF, the last line ending is optional.\<close>

definition strip_cr :: "string \<Rightarrow> string" where
  "strip_cr l = (if l \<noteq> [] \<and> last l = CHR 0x0D then butlast l else l)"

fun lines_acc :: "string \<Rightarrow> string \<Rightarrow> string list" where
  "lines_acc cur [] = (if cur = [] then [] else [cur])"
| "lines_acc cur (c # cs) =
     (if c = CHR 0x0A then strip_cr cur # lines_acc [] cs else lines_acc (cur @ [c]) cs)"

definition lines :: "string \<Rightarrow> string list" where
  "lines s = lines_acc [] s"

section \<open>Case mapping\<close>

definition ascii_lower :: "char \<Rightarrow> char" where
  "ascii_lower c = (if 65 \<le> byte c \<and> byte c \<le> 90 then char_of (byte c + 32) else c)"

definition ascii_upper :: "char \<Rightarrow> char" where
  "ascii_upper c = (if 97 \<le> byte c \<and> byte c \<le> 122 then char_of (byte c - 32) else c)"

definition to_lowercase :: "string \<Rightarrow> string" where
  "to_lowercase s = map ascii_lower s"

definition to_uppercase :: "string \<Rightarrow> string" where
  "to_uppercase s = map ascii_upper s"

definition eq_ignore_ascii_case :: "string \<Rightarrow> string \<Rightarrow> bool" where
  "eq_ignore_ascii_case a b \<longleftrightarrow> map ascii_lower a = map ascii_lower b"

section \<open>Decimal numbers\<close>

definition digit_char :: "nat \<Rightarrow> char" where
  "digit_char d = char_of (48 + d)"

definition digit_val :: "char \<Rightarrow> nat option" where
  "digit_val c = (if 48 \<le> byte c \<and> byte c \<le> 57 then Some (byte c - 48) else None)"

text \<open>\<^verbatim>\<open>to_string\<close> of an unsigned integer.\<close>

fun show_nat :: "nat \<Rightarrow> string" where
  "show_nat n = (if n < 10 then [digit_char n] else show_nat (n div 10) @ [digit_char (n mod 10)])"

declare show_nat.simps [simp del]

fun digits_acc :: "nat \<Rightarrow> string \<Rightarrow> nat option" where
  "digits_acc acc [] = Some acc"
| "digits_acc acc (c # cs) =
     (case digit_val c of None \<Rightarrow> None | Some d \<Rightarrow> digits_acc (10 * acc + d) cs)"

text \<open>
  \<^verbatim>\<open>str::parse\<close> at an unsigned type of the given number of bits: an optional plus sign, at least
  one digit, nothing else, and no overflow.
\<close>

definition parse_uint :: "nat \<Rightarrow> string \<Rightarrow> nat option" where
  "parse_uint bits s =
     (let t = (case s of c # cs \<Rightarrow> if c = CHR ''+'' then cs else s | [] \<Rightarrow> s)
      in if t = [] then None
         else (case digits_acc 0 t of None \<Rightarrow> None | Some n \<Rightarrow> if n < 2 ^ bits then Some n else None))"

text \<open>\<^verbatim>\<open>to_string\<close> of a signed integer, and a string in single quotes as the messages have it.\<close>

definition show_int :: "int \<Rightarrow> string" where
  "show_int i = (if i < 0 then ''-'' @ show_nat (nat (- i)) else show_nat (nat i))"

definition quoted :: "string \<Rightarrow> string" where
  "quoted s = [CHR 0x27] @ s @ [CHR 0x27]"

section \<open>Lemmas\<close>

subsection \<open>Characters\<close>

lemma char_width_pos [simp]: "0 < char_width c"
  by (simp add: char_width_def)

lemma concat_chars [simp]: "concat (chars s) = s"
  by (induction s rule: chars.induct) simp_all

lemma chars_take_skip: "chars_take n s @ chars_skip n s = s"
  by (simp add: chars_take_def chars_skip_def flip: concat_append)

lemma is_ascii_simps [simp]:
  "is_ascii []"
  "is_ascii (c # s) \<longleftrightarrow> byte c < 128 \<and> is_ascii s"
  "is_ascii (s @ t) \<longleftrightarrow> is_ascii s \<and> is_ascii t"
  by (simp_all add: is_ascii_def)

lemma char_width_ascii: "byte c < 128 \<Longrightarrow> char_width c = 1"
  by (simp add: char_width_def)

lemma chars_ascii: "is_ascii s \<Longrightarrow> chars s = map (\<lambda>c. [c]) s"
  by (induction s) (simp_all add: char_width_ascii)

lemma chars_take_ascii: "is_ascii s \<Longrightarrow> chars_take n s = take n s"
  by (simp add: chars_take_def chars_ascii take_map)

lemma chars_skip_ascii: "is_ascii s \<Longrightarrow> chars_skip n s = drop n s"
  by (simp add: chars_skip_def chars_ascii drop_map)

lemma utf8_valid_ascii: "is_ascii s \<Longrightarrow> utf8_valid s"
  by (induction s) simp_all

text \<open>
  An ASCII prefix splits off character by character whatever follows it, so \<^verbatim>\<open>chars().take(n)\<close> at
  a byte index inside or at the end of the prefix is the byte-wise split.
\<close>

lemma chars_append_ascii: "is_ascii s \<Longrightarrow> chars (s @ t) = map (\<lambda>c. [c]) s @ chars t"
  by (induction s) (simp_all add: char_width_ascii)

lemma chars_take_append_ascii: "is_ascii s \<Longrightarrow> chars_take (length s) (s @ t) = s"
  by (simp add: chars_take_def chars_append_ascii)

lemma chars_skip_append_ascii:
  "is_ascii s \<Longrightarrow> is_ascii p \<Longrightarrow> n = length s + length p \<Longrightarrow> chars_skip n (s @ p @ t) = t"
  using chars_append_ascii [of "s @ p" t] by (simp add: chars_skip_def)

subsection \<open>Searching\<close>

lemma find_str_Some_split:
  "find_str pat s = Some n \<Longrightarrow> \<exists>r. s = take n s @ pat @ r \<and> n \<le> length s"
proof (induction s arbitrary: n)
  case Nil
  then show ?case by (simp split: if_splits)
next
  case (Cons c cs)
  show ?case
  proof (cases "prefix pat (c # cs)")
    case True
    with Cons.prems show ?thesis by (auto simp: prefix_def)
  next
    case False
    with Cons.prems obtain m where "find_str pat cs = Some m" and n: "n = Suc m"
      by auto
    with Cons.IH show ?thesis by fastforce
  qed
qed

lemma find_str_None_iff: "find_str pat s = None \<longleftrightarrow> \<not> sublist pat s"
  by (induction s) (auto simp: sublist_Cons_right prefix_def)

text \<open>The first occurrence is found: no character of \<open>s\<close> starts the pattern before it.\<close>

lemma find_str_append:
  "pat \<noteq> [] \<Longrightarrow> hd pat \<notin> set s \<Longrightarrow> find_str pat (s @ pat @ t) = Some (length s)"
proof (induction s)
  case Nil
  then show ?case by (cases pat) simp_all
next
  case (Cons c s)
  then have "\<not> prefix pat (c # s @ pat @ t)"
    by (cases pat) auto
  with Cons show ?case by simp
qed

lemma find_str_notin: "pat \<noteq> [] \<Longrightarrow> hd pat \<notin> set s \<Longrightarrow> find_str pat s = None"
  by (induction s) (auto simp: prefix_def neq_Nil_conv)

subsection \<open>Trimming and lines\<close>

definition no_outer_ws :: "string \<Rightarrow> bool" where
  "no_outer_ws s \<longleftrightarrow> (s \<noteq> [] \<longrightarrow> \<not> is_whitespace (hd (chars s)) \<and> \<not> is_whitespace (last (chars s)))"

lemma chars_eq_Nil [simp]: "chars s = [] \<longleftrightarrow> s = []"
  by (cases s) simp_all

lemma trim_id: "no_outer_ws s \<Longrightarrow> trim s = s"
proof (cases "s = []")
  case False
  assume "no_outer_ws s"
  with False have "\<not> is_whitespace (hd (chars s))" and "\<not> is_whitespace (last (chars s))"
    by (simp_all add: no_outer_ws_def)
  then have "dropWhile is_whitespace (chars s) = chars s"
    and "dropWhile is_whitespace (rev (chars s)) = rev (chars s)"
    by (simp_all add: dropWhile_eq_self_iff hd_rev)
  then show ?thesis
    by (simp add: trim_def)
qed (simp add: trim_def)

lemma trim_Nil [simp]: "trim [] = []"
  by (simp add: trim_def)

lemma is_whitespace_space: "is_whitespace '' ''"
  by (simp add: is_whitespace_def)

lemma trim_space_Cons: "trim (CHR '' '' # s) = trim s"
  by (simp add: trim_def char_width_def is_whitespace_space)

lemma lines_acc_append: "CHR 0x0A \<notin> set l \<Longrightarrow> lines_acc cur (l @ r) = lines_acc (cur @ l) r"
  by (induction l arbitrary: cur) auto

lemma lines_append_CRLF: "CHR 0x0A \<notin> set l \<Longrightarrow> lines (l @ CRLF @ r) = l # lines r"
  by (simp add: lines_def lines_acc_append CRLF_def strip_cr_def)

lemma lines_Nil [simp]: "lines [] = []"
  by (simp add: lines_def)

subsection \<open>Case mapping\<close>

lemma ascii_lower_idem [simp]: "ascii_lower (ascii_lower c) = ascii_lower c"
  by (simp add: ascii_lower_def)

lemma to_lowercase_idem [simp]: "to_lowercase (to_lowercase s) = to_lowercase s"
  by (simp add: to_lowercase_def)

lemma length_to_lowercase [simp]: "length (to_lowercase s) = length s"
  by (simp add: to_lowercase_def)

lemma to_lowercase_eq_Nil [simp]: "to_lowercase s = [] \<longleftrightarrow> s = []"
  by (simp add: to_lowercase_def)

lemma to_lowercase_append [simp]: "to_lowercase (s @ t) = to_lowercase s @ to_lowercase t"
  by (simp add: to_lowercase_def)

lemma eq_ignore_ascii_case_iff: "eq_ignore_ascii_case a b \<longleftrightarrow> to_lowercase a = to_lowercase b"
  by (simp add: eq_ignore_ascii_case_def to_lowercase_def)

lemma prefix_to_lowercase: "prefix p s \<Longrightarrow> prefix (to_lowercase p) (to_lowercase s)"
  by (auto simp: prefix_def)

text \<open>A string with an upper-case ASCII letter is not the lower-casing of any string.\<close>

definition is_lower :: "string \<Rightarrow> bool" where
  "is_lower s \<longleftrightarrow> to_lowercase s = s"

lemma is_lower_to_lowercase [simp]: "is_lower (to_lowercase s)"
  by (simp add: is_lower_def)

lemma is_lower_prefix: "prefix p s \<Longrightarrow> is_lower s \<Longrightarrow> is_lower p"
  by (auto simp: prefix_def is_lower_def)

subsection \<open>Decimal numbers\<close>

lemma digit_val_digit_char [simp]: "d < 10 \<Longrightarrow> digit_val (digit_char d) = Some d"
  by (simp add: digit_val_def digit_char_def)

lemma digits_acc_append:
  "digits_acc a (s @ t) = (case digits_acc a s of None \<Rightarrow> None | Some b \<Rightarrow> digits_acc b t)"
  by (induction s arbitrary: a) (auto split: option.splits)

lemma digits_acc_show_nat: "digits_acc 0 (show_nat n) = Some n"
proof (induction n rule: show_nat.induct)
  case (1 n)
  show ?case
  proof (cases "n < 10")
    case True
    then show ?thesis by (simp add: show_nat.simps [of n])
  next
    case False
    with 1 have "digits_acc 0 (show_nat (n div 10)) = Some (n div 10)"
      by simp
    with False show ?thesis
      by (simp add: show_nat.simps [of n] digits_acc_append)
  qed
qed

lemma show_nat_nonempty [simp]: "show_nat n \<noteq> []"
  by (simp add: show_nat.simps [of n])

lemma show_nat_digits: "c \<in> set (show_nat n) \<Longrightarrow> 48 \<le> byte c \<and> byte c \<le> 57"
proof (induction n rule: show_nat.induct)
  case (1 n)
  then show ?case
    by (cases "n < 10") (auto simp: show_nat.simps [of n] digit_char_def)
qed

lemma show_nat_no_dot: "CHR ''.'' \<notin> set (show_nat n)"
  using show_nat_digits [of "CHR ''.''" n] by auto

lemma is_ascii_show_nat [simp]: "is_ascii (show_nat n)"
  using show_nat_digits by (fastforce simp: is_ascii_def list_all_iff)

text \<open>Printing and parsing a number of the width of the type gives it back.\<close>

lemma parse_uint_show_nat:
  assumes "n < 2 ^ bits"
  shows "parse_uint bits (show_nat n) = Some n"
proof -
  obtain c cs where s: "show_nat n = c # cs"
    by (cases "show_nat n") simp_all
  have "byte c \<noteq> byte CHR ''+''"
    using show_nat_digits [of c n] s by auto
  then have "c \<noteq> CHR ''+''"
    by blast
  with s assms digits_acc_show_nat [of n] show ?thesis
    by (simp add: parse_uint_def)
qed

lemma parse_uint_bound: "parse_uint bits s = Some n \<Longrightarrow> n < 2 ^ bits"
  by (auto simp: parse_uint_def Let_def split: if_splits option.splits)

lemma show_nat_inj [simp]: "show_nat m = show_nat n \<longleftrightarrow> m = n"
  by (metis digits_acc_show_nat option.inject)

end
