(* ===== verification/Constants.thy ===== *)
theory Constants
  imports Rust_Str
begin

text \<open>
  The constants of \<^verbatim>\<open>proxy_agent/src/common/constants.rs\<close> that the modelled code uses.
  The agent is modelled in its Linux configuration (\<^verbatim>\<open>cfg(not(windows))\<close>).
\<close>

definition WIRE_SERVER_IP :: string where [agent_defs]: "WIRE_SERVER_IP = ''168.63.129.16''"
definition WIRE_SERVER_PORT :: u16 where [agent_defs]: "WIRE_SERVER_PORT = 80"
definition GA_PLUGIN_IP :: string where [agent_defs]: "GA_PLUGIN_IP = ''168.63.129.16''"
definition GA_PLUGIN_PORT :: u16 where [agent_defs]: "GA_PLUGIN_PORT = 32526"
definition IMDS_IP :: string where [agent_defs]: "IMDS_IP = ''169.254.169.254''"
definition IMDS_PORT :: u16 where [agent_defs]: "IMDS_PORT = 80"
definition PROXY_AGENT_IP :: string where [agent_defs]: "PROXY_AGENT_IP = ''127.0.0.1''"
definition PROXY_AGENT_PORT :: u16 where [agent_defs]: "PROXY_AGENT_PORT = 3080"

definition WIRE_SERVER_IP_NETWORK_BYTE_ORDER :: u32 where
  [agent_defs]: "WIRE_SERVER_IP_NETWORK_BYTE_ORDER = 0x10813FA8"
definition GA_PLUGIN_IP_NETWORK_BYTE_ORDER :: u32 where
  [agent_defs]: "GA_PLUGIN_IP_NETWORK_BYTE_ORDER = 0x10813FA8"
definition IMDS_IP_NETWORK_BYTE_ORDER :: u32 where
  [agent_defs]: "IMDS_IP_NETWORK_BYTE_ORDER = 0xFEA9FEA9"
definition PROXY_AGENT_IP_NETWORK_BYTE_ORDER :: u32 where
  [agent_defs]: "PROXY_AGENT_IP_NETWORK_BYTE_ORDER = 0x100007F"

definition EMPTY_GUID :: string where
  [agent_defs]: "EMPTY_GUID = ''00000000-0000-0000-0000-000000000000''"

definition AUTHORIZATION_SCHEME :: string where
  [agent_defs]: "AUTHORIZATION_SCHEME = ''Azure-HMAC-SHA256''"
definition KEY_DELIVERY_METHOD_HTTP :: string where
  [agent_defs]: "KEY_DELIVERY_METHOD_HTTP = ''http''"
definition KEY_DELIVERY_METHOD_VTPM :: string where
  [agent_defs]: "KEY_DELIVERY_METHOD_VTPM = ''vtpm''"
definition CLAIMS_IS_ROOT :: string where [agent_defs]: "CLAIMS_IS_ROOT = ''isRoot''"

definition CLAIMS_HEADER :: string where [agent_defs]: "CLAIMS_HEADER = ''x-ms-azure-host-claims''"
definition AUTHORIZATION_HEADER :: string where
  [agent_defs]: "AUTHORIZATION_HEADER = ''x-ms-azure-host-authorization''"
definition DATE_HEADER :: string where [agent_defs]: "DATE_HEADER = ''x-ms-azure-host-date''"
definition METADATA_HEADER :: string where [agent_defs]: "METADATA_HEADER = ''Metadata''"
definition CONNECTION_HEADER :: string where [agent_defs]: "CONNECTION_HEADER = ''connection''"

definition EGID :: u32 where [agent_defs]: "EGID = 3080"

text \<open>The names of the agent's own headers are lower case and differ from each other.\<close>

lemma agent_headers_lower [simp]:
  "to_lowercase CLAIMS_HEADER = CLAIMS_HEADER"
  "to_lowercase AUTHORIZATION_HEADER = AUTHORIZATION_HEADER"
  "to_lowercase DATE_HEADER = DATE_HEADER"
  by (simp_all add: agent_defs to_lowercase_def ascii_lower_def)

lemma agent_headers_distinct [simp]:
  "CLAIMS_HEADER \<noteq> AUTHORIZATION_HEADER" "AUTHORIZATION_HEADER \<noteq> CLAIMS_HEADER"
  "CLAIMS_HEADER \<noteq> DATE_HEADER" "DATE_HEADER \<noteq> CLAIMS_HEADER"
  "DATE_HEADER \<noteq> AUTHORIZATION_HEADER" "AUTHORIZATION_HEADER \<noteq> DATE_HEADER"
  by (simp_all add: agent_defs)

end
