(* ===== verification/Http_Headers.thy ===== *)
theory Http_Headers
  imports Constants
begin

text \<open>
  \<^verbatim>\<open>proxy_agent/src/common/http/headers.rs\<close>: the header table of a request or response, a hash map
  from the lower-cased header name to the name as received and the value. The invariant
  \<open>headers_wf\<close> is established by \<open>headers_new\<close> and kept by every operation.
\<close>

section \<open>Definitions\<close>

definition CONTENT_LENGTH_HEADER_NAME :: string where
  "CONTENT_LENGTH_HEADER_NAME = ''Content-Length''"
definition EXPECT_HEADER_NAME :: string where "EXPECT_HEADER_NAME = ''Expect''"
definition EXPECT_HEADER_VALUE :: string where "EXPECT_HEADER_VALUE = ''100-continue''"

type_synonym headers = "(string, string \<times> string) hmap"

definition headers_new :: headers where
  "headers_new = []"

definition add_header :: "string \<Rightarrow> string \<Rightarrow> headers \<Rightarrow> headers" where
  "add_header key value h = (let key_lower_case = to_lowercase key
     in hm_insert key_lower_case (key, value) h)"

text \<open>\<^verbatim>\<open>Headers::copy\<close>: add every name and value of the map to a fresh one.\<close>

definition headers_copy :: "headers \<Rightarrow> headers" where
  "headers_copy h = foldl (\<lambda>acc e. add_header (fst (snd e)) (snd (snd e)) acc) headers_new h"

text \<open>
  \<^verbatim>\<open>add_header_line\<close>: the colon is located by byte index, the two parts are cut by character count.
\<close>

definition add_header_line :: "string \<Rightarrow> headers \<Rightarrow> headers" where
  "add_header_line line h =
     (case find_str '':'' line of
        Some split \<Rightarrow>
          (let key = chars_take split line; value = chars_skip (split + 1) line
           in add_header (trim key) (trim value) h)
      | None \<Rightarrow> h)"

definition headers_from_raw_data :: "string \<Rightarrow> headers" where
  "headers_from_raw_data raw =
     foldl (\<lambda>h line. if line = [] then h else add_header_line line h) headers_new (lines raw)"

definition canonical_header :: "headers \<Rightarrow> string \<Rightarrow> string" where
  "canonical_header h key =
     (if eq_ignore_ascii_case key AUTHORIZATION_HEADER then []
      else (case hm_get h key of
              None \<Rightarrow> []
            | Some nv \<Rightarrow> key @ '':'' @ trim (snd nv) @ LF))"

definition to_canonicalized_string :: "headers \<Rightarrow> string" where
  "to_canonicalized_string h = concat (map (canonical_header h) (sort (map fst h)))"

definition headers_to_raw_string :: "headers \<Rightarrow> string" where
  "headers_to_raw_string h =
     concat (map (\<lambda>e. trim (fst (snd e)) @ '': '' @ trim (snd (snd e)) @ CRLF) h)"

definition headers_len :: "headers \<Rightarrow> nat" where
  "headers_len h = length h"

definition has_expect_continue :: "headers \<Rightarrow> bool" where
  "has_expect_continue h =
     (case hm_get h (to_lowercase EXPECT_HEADER_NAME) of
        Some nv \<Rightarrow> snd nv = EXPECT_HEADER_VALUE
      | None \<Rightarrow> False)"

definition get_content_length_as_string :: "headers \<Rightarrow> string" where
  "get_content_length_as_string h =
     (case hm_get h (to_lowercase CONTENT_LENGTH_HEADER_NAME) of
        Some nv \<Rightarrow> snd nv
      | None \<Rightarrow> [])"

definition get_content_length :: "headers \<Rightarrow> nat io_result" where
  "get_content_length h =
     (case hm_get h (to_lowercase CONTENT_LENGTH_HEADER_NAME) of
        Some nv \<Rightarrow> (case parse_uint 64 (snd nv) of Some len \<Rightarrow> Inr len | None \<Rightarrow> Inl InvalidData)
      | None \<Rightarrow> Inr 0)"

section \<open>The invariant\<close>

definition headers_wf :: "headers \<Rightarrow> bool" where
  "headers_wf h \<longleftrightarrow> hm_inv h \<and> (\<forall>e \<in> set h. fst e = to_lowercase (fst (snd e)))"

lemma headers_wf_new [simp, intro]: "headers_wf headers_new"
  by (simp add: headers_wf_def headers_new_def)

lemma headers_wf_inv: "headers_wf h \<Longrightarrow> hm_inv h"
  by (simp add: headers_wf_def)

lemma set_hm_insert: "hm_inv m \<Longrightarrow> e \<in> set (hm_insert k v m) \<Longrightarrow> e = (k, v) \<or> (e \<in> set m \<and> fst e \<noteq> k)"
  by (induction m) (auto simp: image_iff split: if_splits)

lemma headers_wf_add [simp, intro]: "headers_wf h \<Longrightarrow> headers_wf (add_header n v h)"
  by (auto simp: headers_wf_def add_header_def dest!: set_hm_insert)

lemma headers_wf_add_line [simp, intro]: "headers_wf h \<Longrightarrow> headers_wf (add_header_line l h)"
  by (auto simp: add_header_line_def Let_def split: option.splits)

lemma headers_wf_foldl:
  "(\<And>h x. headers_wf h \<Longrightarrow> headers_wf (f h x)) \<Longrightarrow> headers_wf h \<Longrightarrow> headers_wf (foldl f h xs)"
  by (induction xs arbitrary: h) simp_all

lemma headers_wf_from_raw [simp, intro]: "headers_wf (headers_from_raw_data raw)"
  unfolding headers_from_raw_data_def by (rule headers_wf_foldl) auto

lemma headers_wf_copy [simp, intro]: "headers_wf (headers_copy h)"
  unfolding headers_copy_def by (rule headers_wf_foldl) auto

section \<open>Lookup laws\<close>

lemma hm_get_add_header:
  "hm_get (add_header n v h) k = (if k = to_lowercase n then Some (n, v) else hm_get h k)"
  by (simp add: add_header_def)

lemma headers_copy_insert_all:
  "headers_copy h = hm.insert_all (map (\<lambda>e. (to_lowercase (fst (snd e)), snd e)) h) []"
  unfolding headers_copy_def hm.insert_all_def headers_new_def
  by (simp add: foldl_map add_header_def)

lemma headers_wf_keys: "headers_wf h \<Longrightarrow> map (\<lambda>e. (to_lowercase (fst (snd e)), snd e)) h = h"
  by (rule map_idI) (auto simp: headers_wf_def)

lemma map_of_rev: "hm_inv m \<Longrightarrow> map_of (rev m) = map_of m"
  by (rule map_of_inject_set [THEN iffD2]) (simp_all add: hm_inv_def rev_map [symmetric])

lemma hm_get_copy: "headers_wf h \<Longrightarrow> hm_get (headers_copy h) = hm_get h"
  by (rule ext)
     (simp add: headers_copy_insert_all headers_wf_keys hm.get_insert_all map_of_rev headers_wf_inv
        split: option.split)

section \<open>The canonical form\<close>

text \<open>
  The canonical string depends on the map only, not on the order in which it is iterated: the keys
  are sorted.
\<close>

lemma map_of_mset_eq: "hm_inv m \<Longrightarrow> mset m = mset m' \<Longrightarrow> map_of m = map_of m'"
  by (metis hm_inv_def map_of_inject_set mset_eq_imp_distinct_iff mset_map set_mset_mset)

lemma sort_map_fst_mset: "mset m = mset m' \<Longrightarrow> sort (map fst m) = sort (map fst m')"
  by (metis mset_map properties_for_sort sorted_sort mset_sort)

lemma canonical_mset:
  "headers_wf h \<Longrightarrow> mset h = mset h' \<Longrightarrow> to_canonicalized_string h = to_canonicalized_string h'"
proof -
  assume "headers_wf h" and m: "mset h = mset h'"
  then have "hm_get h = hm_get h'"
    by (intro map_of_mset_eq headers_wf_inv)
  then have "canonical_header h = canonical_header h'"
    by (simp add: canonical_header_def fun_eq_iff)
  with sort_map_fst_mset [OF m] show "to_canonicalized_string h = to_canonicalized_string h'"
    by (simp add: to_canonicalized_string_def)
qed

text \<open>
  The authorization header is left out: the keys that contribute are those of the others, in
  ascending order.
\<close>

definition signed_keys :: "headers \<Rightarrow> string list" where
  "signed_keys h = filter (\<lambda>k. \<not> eq_ignore_ascii_case k AUTHORIZATION_HEADER) (map fst h)"

lemma concat_map_filter: "(\<And>x. \<not> P x \<Longrightarrow> f x = []) \<Longrightarrow> concat (map f xs) = concat (map f (filter P xs))"
  by (induction xs) auto

lemma canonical_signed_keys:
  "to_canonicalized_string h = concat (map (canonical_header h) (sort (signed_keys h)))"
  unfolding to_canonicalized_string_def signed_keys_def
  by (subst concat_map_filter [where P = "\<lambda>k. \<not> eq_ignore_ascii_case k AUTHORIZATION_HEADER"])
     (simp_all add: canonical_header_def filter_sort)

lemma map_fst_hm_insert:
  "map fst (hm_insert k v m) = (if k \<in> set (map fst m) then map fst m else map fst m @ [k])"
  by (induction m) auto

lemma signed_keys_add_authorization:
  "to_lowercase n = AUTHORIZATION_HEADER \<Longrightarrow> signed_keys (add_header n v h) = signed_keys h"
  by (simp add: signed_keys_def add_header_def map_fst_hm_insert eq_ignore_ascii_case_iff)

lemma canonical_add_authorization:
  assumes "to_lowercase n = AUTHORIZATION_HEADER"
  shows "to_canonicalized_string (add_header n v h) = to_canonicalized_string h"
proof -
  have "canonical_header (add_header n v h) k = canonical_header h k" for k
    using assms by (auto simp: canonical_header_def hm_get_add_header eq_ignore_ascii_case_iff)
  then have "canonical_header (add_header n v h) = canonical_header h"
    by (rule ext)
  then show ?thesis
    using assms by (simp add: canonical_signed_keys signed_keys_add_authorization)
qed

section \<open>Printing and parsing\<close>

text \<open>
  A header survives the wire when its name is ASCII without a colon, neither part holds a line feed
  and neither part has surrounding white space.
\<close>

definition header_safe :: "string \<Rightarrow> string \<Rightarrow> bool" where
  "header_safe n v \<longleftrightarrow> is_ascii n \<and> CHR '':'' \<notin> set n \<and> CHR 0x0A \<notin> set n \<and> CHR 0x0A \<notin> set v
     \<and> no_outer_ws n \<and> no_outer_ws v"

lemma add_header_line_safe:
  assumes "header_safe n v"
  shows "add_header_line (n @ '': '' @ v) h = add_header n v h"
proof -
  have a: "is_ascii n" and "CHR '':'' \<notin> set n" and v: "trim v = v" and n: "trim n = n"
    using assms by (simp_all add: header_safe_def trim_id)
  then have "find_str '':'' (n @ '':'' @ '' '' @ v) = Some (length n)"
    by (intro find_str_append) simp_all
  moreover have "chars_take (length n) (n @ '':'' @ '' '' @ v) = n"
    by (rule chars_take_append_ascii [OF a])
  moreover have "chars_skip (length n + 1) (n @ '':'' @ '' '' @ v) = '' '' @ v"
    by (rule chars_skip_append_ascii [OF a]) simp_all
  moreover have "trim ('' '' @ v) = v"
    using v by (simp add: trim_space_Cons)
  ultimately show ?thesis
    using n by (simp add: add_header_line_def Let_def)
qed

lemma header_line_lines:
  "header_safe n v \<Longrightarrow> lines ((trim n @ '': '' @ trim v @ CRLF) @ r) = (n @ '': '' @ v) # lines r"
  using lines_append_CRLF [of "n @ '': '' @ v" r] by (simp add: header_safe_def trim_id)

lemma lines_headers_to_raw_string:
  assumes "\<forall>e \<in> set h. header_safe (fst (snd e)) (snd (snd e))" and "lines r = []"
  shows "lines (headers_to_raw_string h @ r) = map (\<lambda>e. fst (snd e) @ '': '' @ snd (snd e)) h"
  using assms
proof (induction h)
  case Nil
  then show ?case by (simp add: headers_to_raw_string_def)
next
  case (Cons e h)
  then show ?case
    using header_line_lines [of "fst (snd e)" "snd (snd e)" "headers_to_raw_string h @ r"]
    by (simp add: headers_to_raw_string_def)
qed

lemma foldl_add_header_lines:
  assumes "\<forall>e \<in> set h. header_safe (fst (snd e)) (snd (snd e))"
  shows "foldl (\<lambda>acc line. if line = [] then acc else add_header_line line acc) acc
           (map (\<lambda>e. fst (snd e) @ '': '' @ snd (snd e)) h)
       = foldl (\<lambda>acc e. add_header (fst (snd e)) (snd (snd e)) acc) acc h"
  using assms
proof (induction h arbitrary: acc)
  case (Cons e h)
  then have "add_header_line (fst (snd e) @ '': '' @ snd (snd e)) acc
      = add_header (fst (snd e)) (snd (snd e)) acc"
    by (simp only: add_header_line_safe list.set_intros ball_simps)
  with Cons show ?case by simp
qed simp

lemma headers_reparse:
  assumes "\<forall>e \<in> set h. header_safe (fst (snd e)) (snd (snd e))"
  shows "headers_from_raw_data (headers_to_raw_string h) = headers_copy h"
  using foldl_add_header_lines [OF assms, of headers_new] lines_headers_to_raw_string [OF assms, of "[]"]
  by (simp add: headers_from_raw_data_def headers_copy_def)

section \<open>Properties\<close>

text \<open>The header table is case insensitive and keeps its invariant: parsing any bytes gives a
  well-formed table, adding a header keeps it, and a lookup of any spelling of the name finds the
  name and value added last while every other name is untouched.\<close>

theorem headers_lookup_after_add:
  "headers_wf (add_header n v (headers_from_raw_data raw))
   \<and> (to_lowercase n' = to_lowercase n \<longrightarrow>
        hm_get (add_header n v (headers_from_raw_data raw)) (to_lowercase n') = Some (n, v))
   \<and> (to_lowercase n' \<noteq> to_lowercase n \<longrightarrow>
        hm_get (add_header n v (headers_from_raw_data raw)) (to_lowercase n')
          = hm_get (headers_from_raw_data raw) (to_lowercase n'))"
  by (auto simp: hm_get_add_header)

theorem headers_lookup_after_add_witness:
  "hm_get (add_header ''Host'' ''b'' (headers_from_raw_data (''HOST: a'' @ CRLF @ ''Age: 1'' @ CRLF))) (to_lowercase ''hOST'')
     = Some (''Host'', ''b'')
   \<and> hm_get (add_header ''Host'' ''b'' (headers_from_raw_data (''HOST: a'' @ CRLF @ ''Age: 1'' @ CRLF))) (to_lowercase ''AGE'')
     = Some (''Age'', ''1'')"
proof -
  have same: "to_lowercase ''hOST'' = to_lowercase ''Host''"
    by code_simp
  have other: "to_lowercase ''AGE'' \<noteq> to_lowercase ''Host''"
    by code_simp
  have "hm_get (headers_from_raw_data (''HOST: a'' @ CRLF @ ''Age: 1'' @ CRLF)) (to_lowercase ''AGE'')
      = Some (''Age'', ''1'')"
    by code_simp
  with same other
    headers_lookup_after_add [of "''Host''" "''b''" "''HOST: a'' @ CRLF @ ''Age: 1'' @ CRLF" "''hOST''"]
    headers_lookup_after_add [of "''Host''" "''b''" "''HOST: a'' @ CRLF @ ''Age: 1'' @ CRLF" "''AGE''"]
  show ?thesis by metis
qed

text \<open>The canonical header string that is signed does not depend on the iteration order of the
  hash map and does not see the authorization header, whatever its spelling and value.\<close>

theorem canonical_headers_stable:
  assumes "headers_wf h" and "mset h = mset h'" and "to_lowercase n = AUTHORIZATION_HEADER"
  shows "to_canonicalized_string (add_header n v h) = to_canonicalized_string h'"
  using canonical_add_authorization [OF assms(3)] canonical_mset [OF assms(1,2)] by (rule trans)

theorem canonical_headers_stable_witness:
  "to_canonicalized_string (add_header ''X-MS-Azure-Host-Authorization'' ''forged''
      [(''b'', (''B'', '' 2 '')), (''a'', (''A'', ''1''))]) = ''a:1'' @ LF @ ''b:2'' @ LF"
proof -
  have "headers_wf [(''b'', (''B'', '' 2 '')), (''a'', (''A'', ''1''))]"
    by code_simp
  moreover have "to_lowercase ''X-MS-Azure-Host-Authorization'' = AUTHORIZATION_HEADER"
    by code_simp
  moreover have "mset [(''b'', (''B'', '' 2 '')), (''a'', (''A'', ''1''))]
      = mset [(''a'', (''A'', ''1'')), (''b'', (''B'', '' 2 ''))]"
    by simp
  moreover have "to_canonicalized_string [(''a'', (''A'', ''1'')), (''b'', (''B'', '' 2 ''))]
      = ''a:1'' @ LF @ ''b:2'' @ LF"
    by (simp add: to_canonicalized_string_def) code_simp
  ultimately show ?thesis
    using canonical_headers_stable [of "[(''b'', (''B'', '' 2 '')), (''a'', (''A'', ''1''))]"
        "[(''a'', (''A'', ''1'')), (''b'', (''B'', '' 2 ''))]" "''X-MS-Azure-Host-Authorization''" "''forged''"]
    by simp
qed

text \<open>Printing a header table in any iteration order and parsing the text gives the same table,
  when the names and values are safe on the wire.\<close>

theorem headers_raw_roundtrip:
  assumes "headers_wf h" and "\<forall>e \<in> set h. header_safe (fst (snd e)) (snd (snd e))"
  shows "hm_get (headers_from_raw_data (headers_to_raw_string h)) = hm_get h"
  using assms by (simp add: headers_reparse hm_get_copy)

theorem headers_raw_roundtrip_witness:
  "hm_get (headers_from_raw_data (headers_to_raw_string [(''b'', (''B'', ''2 3'')), (''a'', (''A'', ''''))])) ''b''
     = Some (''B'', ''2 3'')"
proof -
  have "headers_wf [(''b'', (''B'', ''2 3'')), (''a'', (''A'', ''''))]"
    by code_simp
  moreover have "\<forall>e \<in> set [(''b'', (''B'', ''2 3'')), (''a'', (''A'', ''''))].
      header_safe (fst (snd e)) (snd (snd e))"
    by code_simp
  ultimately show ?thesis
    using headers_raw_roundtrip [of "[(''b'', (''B'', ''2 3'')), (''a'', (''A'', ''''))]"] by simp
qed

text \<open>The Content-Length of a request is zero when the header is absent, and otherwise the value
  of the header, which fits 64 bits, or an InvalidData error; printing a 64-bit length and reading it
  back gives the length.\<close>

theorem content_length_spec:
  "(hm_get h (to_lowercase CONTENT_LENGTH_HEADER_NAME) = None \<longrightarrow> get_content_length h = Inr 0)
   \<and> (get_content_length h = Inr n \<longrightarrow> n < 2 ^ 64)
   \<and> (get_content_length h = Inl e \<longrightarrow> e = InvalidData)
   \<and> (m < 2 ^ 64 \<longrightarrow> get_content_length (add_header CONTENT_LENGTH_HEADER_NAME (show_nat m) h) = Inr m)"
proof (intro conjI impI)
  show "get_content_length h = Inr n \<Longrightarrow> n < 2 ^ 64"
    using parse_uint_bound [of 64]
    by (fastforce simp del: power_numeral simp: get_content_length_def split: option.splits)
  show "m < 2 ^ 64 \<Longrightarrow> get_content_length (add_header CONTENT_LENGTH_HEADER_NAME (show_nat m) h) = Inr m"
    by (simp only: get_content_length_def hm_get_add_header parse_uint_show_nat simp_thms if_True
        option.case snd_conv)
qed (simp_all add: get_content_length_def split: option.splits)

theorem content_length_spec_witness:
  "get_content_length (add_header CONTENT_LENGTH_HEADER_NAME (show_nat 4096) headers_new) = Inr 4096
   \<and> get_content_length headers_new = Inr 0"
proof -
  have "(4096 :: nat) < 2 ^ 64" and "hm_get headers_new (to_lowercase CONTENT_LENGTH_HEADER_NAME) = None"
    by (simp_all add: headers_new_def)
  then show ?thesis
    using content_length_spec [of headers_new 0 InvalidData 4096] by blast
qed

end
