(* ===== verification/Http_Message.thy ===== *)
theory Http_Message
  imports Http_Headers
begin

text \<open>
  The HTTP messages of \<^verbatim>\<open>proxy_agent/src/common/http/\<close>: \<^verbatim>\<open>request.rs\<close>, \<^verbatim>\<open>response.rs\<close> and
  \<^verbatim>\<open>http_request.rs\<close>, with the signature of \<^verbatim>\<open>common/helpers.rs\<close>. The crates \<^verbatim>\<open>url\<close>, \<^verbatim>\<open>hex\<close> and
  \<^verbatim>\<open>hmac_sha256\<close> are the parameters \<open>url_lib\<close> and \<open>crypto_lib\<close>.
\<close>

section \<open>Third-party interfaces\<close>

text \<open>
  \<^verbatim>\<open>url::Url\<close>: \<open>url_parse\<close> and \<open>url_join\<close> are the fallible constructors, the others the accessors
  the agent reads.
\<close>

record 'u url_lib =
  url_parse :: "string \<Rightarrow> 'u option"
  url_join :: "'u \<Rightarrow> string \<Rightarrow> 'u option"
  url_path :: "'u \<Rightarrow> string"
  url_query_pairs :: "'u \<Rightarrow> (string \<times> string) list"
  url_host_str :: "'u \<Rightarrow> string option"
  url_port_or_known_default :: "'u \<Rightarrow> u16 option"

record crypto_lib =
  hex_decode :: "string \<Rightarrow> string option"
  hex_encode :: "string \<Rightarrow> string"
  hmac_sha256 :: "string \<Rightarrow> string \<Rightarrow> string"

section \<open>Requests\<close>

record request =
  req_method :: string
  req_url :: string
  req_version :: string
  req_headers :: headers
  req_body :: string

definition request_create :: "string \<Rightarrow> string \<Rightarrow> string \<Rightarrow> request" where
  "request_create uri m v = \<lparr>req_method = m, req_url = uri, req_version = v, req_headers = headers_new, req_body = []\<rparr>"

definition request_new :: "string \<Rightarrow> string \<Rightarrow> request" where
  "request_new uri m = request_create uri m ''HTTP/1.1''"

definition clone_without_body :: "request \<Rightarrow> request" where
  "clone_without_body r = \<lparr>req_method = req_method r, req_url = req_url r, req_version = req_version r,
     req_headers = headers_copy (req_headers r), req_body = []\<rparr>"

definition from_first_line :: "string \<Rightarrow> request io_result" where
  "from_first_line first_line =
     (case split_whitespace first_line of
        [] \<Rightarrow> Inl InvalidData
      | [_] \<Rightarrow> Inl InvalidData
      | [_, _] \<Rightarrow> Inl InvalidData
      | m # uri # v # _ \<Rightarrow> Inr (request_create uri m v))"

text \<open>
  The cutting of a raw message that \<^verbatim>\<open>from_raw_request\<close> and \<^verbatim>\<open>from_raw_data\<close> start with: first line, raw
  headers and body. Indices are byte indices, the cuts are made by character count.
\<close>

definition split_raw :: "string \<Rightarrow> string \<times> string \<times> string" where
  "split_raw raw =
     (let (first_part, bd) =
            (case find_str DOUBLE_CRLF raw of
               Some index \<Rightarrow> (chars_take index raw, chars_skip (index + 4) raw)
             | None \<Rightarrow> (raw, []));
          (first_line, raw_headers) =
            (case find_str CRLF first_part of
               Some index \<Rightarrow> (chars_take index first_part, chars_skip (index + 2) first_part)
             | None \<Rightarrow> (first_part, []))
      in (first_line, raw_headers, bd))"

definition from_raw_request :: "string \<Rightarrow> request io_result" where
  "from_raw_request raw =
     (case split_raw raw of
        (first_line, raw_headers, bd) \<Rightarrow>
          io_bind (from_first_line first_line)
            (\<lambda>r. Inr (r\<lparr>req_headers := headers_from_raw_data raw_headers, req_body := bd\<rparr>)))"

definition request_head :: "request \<Rightarrow> string" where
  "request_head r = req_method r @ '' '' @ req_url r @ '' '' @ req_version r @ CRLF
     @ headers_to_raw_string (req_headers r) @ CRLF"

definition expect_continue_request :: "request \<Rightarrow> bool" where
  "expect_continue_request r = has_expect_continue (req_headers r)"

definition request_to_raw_string :: "request \<Rightarrow> string" where
  "request_to_raw_string r =
     request_head r
     @ (if expect_continue_request r then []
        else (case from_utf8 (req_body r) of Inr data \<Rightarrow> data | Inl _ \<Rightarrow> []))"

definition request_to_raw_bytes :: "request \<Rightarrow> string" where
  "request_to_raw_bytes r = request_head r @ req_body r"

definition get_url :: "'u url_lib \<Rightarrow> request \<Rightarrow> 'u option" where
  "get_url U r = url_parse U (req_url r)"

text \<open>\<^verbatim>\<open>pairs\<close> of \<^verbatim>\<open>get_url_path_and_canonicalized_parameters\<close>: the last value of a name wins.\<close>

definition query_table :: "(string \<times> string) list \<Rightarrow> (string, string) hmap" where
  "query_table ps = foldl (\<lambda>m p. hm_insert (to_lowercase (fst p)) (snd p) m) [] ps"

fun join_amp :: "string list \<Rightarrow> string" where
  "join_amp [] = []"
| "join_amp [p] = p"
| "join_amp (p # q # ps) = p @ ''&'' @ join_amp (q # ps)"

definition canonicalized_parameters :: "(string \<times> string) list \<Rightarrow> string" where
  "canonicalized_parameters ps =
     (let pairs = query_table ps
      in join_amp (map (\<lambda>k. k @ ''='' @ (case hm_get pairs k of Some v \<Rightarrow> v | None \<Rightarrow> []))
           (sort (map fst pairs))))"

text \<open>
  \<^verbatim>\<open>Url::parse("http://127.0.0.1").unwrap()\<close> is a constant the \<^verbatim>\<open>url\<close> crate accepts.
\<close>

definition get_url_path_and_canonicalized_parameters :: "'u url_lib \<Rightarrow> request \<Rightarrow> string \<times> string" where
  "get_url_path_and_canonicalized_parameters U r =
     (case (case url_parse U (req_url r) of
              Some u \<Rightarrow> Some u
            | None \<Rightarrow> url_join U (the (url_parse U ''http://127.0.0.1'')) (req_url r)) of
        None \<Rightarrow> (req_url r, [])
      | Some u \<Rightarrow> (url_path U u, canonicalized_parameters (url_query_pairs U u)))"

definition as_sig_input :: "'u url_lib \<Rightarrow> request \<Rightarrow> string" where
  "as_sig_input U r =
     (let path_para = get_url_path_and_canonicalized_parameters U r
      in req_method r @ LF @ req_body r @ LF @ to_canonicalized_string (req_headers r)
         @ fst path_para @ LF @ snd path_para)"

definition need_skip_sig :: "request \<Rightarrow> bool" where
  "need_skip_sig r =
     (let m = to_uppercase (req_method r); u = to_lowercase (req_url r)
      in (m = ''PUT'' \<or> m = ''POST'')
         \<and> (u = ''/machine/?comp=telemetrydata'' \<or> u = ''/vmagentlog''))"

section \<open>Responses\<close>

record response =
  resp_version :: string
  resp_status :: string
  resp_headers :: headers
  resp_body :: string

definition MISDIRECTED :: string where "MISDIRECTED = ''421 Misdirected Request''"
definition FORBIDDEN :: string where "FORBIDDEN = ''403 Forbidden Request''"
definition BAD_GATEWAY :: string where "BAD_GATEWAY = ''502 Bad Gateway''"
definition CONTINUE :: string where "CONTINUE = ''100 Continue''"
definition BAD_REQUEST :: string where "BAD_REQUEST = ''400 Bad Request''"
definition OK :: string where "OK = ''200 OK''"

definition response_new :: "string \<Rightarrow> string \<Rightarrow> response" where
  "response_new st bd = \<lparr>resp_version = ''HTTP/1.1'', resp_status = st, resp_headers = headers_new, resp_body = bd\<rparr>"

definition response_from_first_line :: "string \<Rightarrow> response" where
  "response_from_first_line first_line =
     (let (v, st) = (case find_str '' '' first_line of
                       Some index \<Rightarrow> (chars_take index first_line, chars_skip (index + 1) first_line)
                     | None \<Rightarrow> (first_line, []))
      in \<lparr>resp_version = v, resp_status = trim st, resp_headers = headers_new, resp_body = []\<rparr>)"

definition from_raw_data :: "string \<Rightarrow> response" where
  "from_raw_data raw =
     (case split_raw raw of
        (first_line, raw_headers, bd) \<Rightarrow>
          (response_from_first_line first_line)
            \<lparr>resp_headers := headers_from_raw_data raw_headers, resp_body := bd\<rparr>)"

definition response_head :: "response \<Rightarrow> string" where
  "response_head r = resp_version r @ '' '' @ resp_status r @ CRLF
     @ headers_to_raw_string (resp_headers r) @ CRLF"

definition response_to_raw_string :: "response \<Rightarrow> string" where
  "response_to_raw_string r =
     response_head r @ (case from_utf8 (resp_body r) of Inr data \<Rightarrow> data | Inl _ \<Rightarrow> [])"

definition response_to_raw_bytes :: "response \<Rightarrow> string" where
  "response_to_raw_bytes r = response_head r @ resp_body r"

definition from_status :: "string \<Rightarrow> response" where
  "from_status st = response_new st []"

definition is_continue_response :: "response \<Rightarrow> bool" where
  "is_continue_response r \<longleftrightarrow> resp_status r = CONTINUE"

section \<open>Signed requests of the agent\<close>

definition compute_signature :: "crypto_lib \<Rightarrow> string \<Rightarrow> string \<Rightarrow> string io_result" where
  "compute_signature C hex_encoded_key input_to_sign =
     (case hex_decode C hex_encoded_key of
        Some key \<Rightarrow> Inr (hex_encode C (hmac_sha256 C key input_to_sign))
      | None \<Rightarrow> Inl InvalidInput)"

record 'u http_request =
  hr_uri :: 'u
  hr_request :: request

definition get_host :: "'u url_lib \<Rightarrow> 'u http_request \<Rightarrow> string" where
  "get_host U hr = (case url_host_str U (hr_uri hr) of Some host \<Rightarrow> host | None \<Rightarrow> [])"

definition get_port :: "'u url_lib \<Rightarrow> 'u http_request \<Rightarrow> u16" where
  "get_port U hr = (case url_port_or_known_default U (hr_uri hr) of Some port \<Rightarrow> port | None \<Rightarrow> 0)"

definition http_request_new :: "'u \<Rightarrow> request \<Rightarrow> 'u http_request" where
  "http_request_new u r = \<lparr>hr_uri = u, hr_request = r\<rparr>"

definition http_clone_without_body :: "'u \<Rightarrow> request \<Rightarrow> 'u http_request" where
  "http_clone_without_body u r = \<lparr>hr_uri = u, hr_request = clone_without_body r\<rparr>"

definition add_request_header :: "string \<Rightarrow> string \<Rightarrow> request \<Rightarrow> request" where
  "add_request_header k v r = r\<lparr>req_headers := add_header k v (req_headers r)\<rparr>"

text \<open>\<^verbatim>\<open>format!("\{\} \{\} \{\}", AUTHORIZATION_SCHEME, key_guid, signature)\<close>.\<close>

definition authorization_value :: "string \<Rightarrow> string \<Rightarrow> string" where
  "authorization_value key_guid sig = AUTHORIZATION_SCHEME @ '' '' @ key_guid @ '' '' @ sig"

definition agent_claims :: string where
  "agent_claims = [CHR ''{'', CHR '' '', CHR 0x22] @ CLAIMS_IS_ROOT
     @ [CHR 0x22, CHR '':'', CHR '' '', CHR 0x22] @ ''true'' @ [CHR 0x22, CHR ''}'']"

definition new_proxy_agent_request ::
    "'u url_lib \<Rightarrow> crypto_lib \<Rightarrow> string \<Rightarrow> 'u \<Rightarrow> request \<Rightarrow> string \<Rightarrow> string \<Rightarrow> 'u http_request io_result" where
  "new_proxy_agent_request U C now u r key_guid key =
     (let r1 = add_request_header CLAIMS_HEADER agent_claims
                 (add_request_header DATE_HEADER now
                   (add_request_header METADATA_HEADER ''True''
                     (add_request_header CONNECTION_HEADER ''Close'' r)));
          hr = http_request_new u r1;
          r2 = add_request_header ''Host'' (get_host U hr) r1
      in if key \<noteq> []
         then io_bind (compute_signature C key (as_sig_input U r2))
                (\<lambda>sig. Inr (hr\<lparr>hr_request :=
                   add_request_header AUTHORIZATION_HEADER (authorization_value key_guid sig) r2\<rparr>))
         else Inr (hr\<lparr>hr_request := r2\<rparr>))"

section \<open>Cutting a raw message\<close>

text \<open>
  A message head is a sequence of lines. Joined with CR LF and followed by the empty line, it is
  cut back into the first line, the other lines and the body.
\<close>

fun crlf_join :: "string list \<Rightarrow> string" where
  "crlf_join [] = []"
| "crlf_join [l] = l"
| "crlf_join (l # l' # ls) = l @ CRLF @ crlf_join (l' # ls)"

lemma crlf_join_lines: "crlf_join (l # ls) @ CRLF = concat (map (\<lambda>x. x @ CRLF) (l # ls))"
  by (induction ls arbitrary: l) simp_all

lemma crlf_join_Cons: "ls \<noteq> [] \<Longrightarrow> crlf_join (l # ls) = l @ CRLF @ crlf_join ls"
  by (cases ls) simp_all

lemma is_ascii_CRLF [simp]: "is_ascii CRLF" "is_ascii DOUBLE_CRLF"
  by (simp_all add: CRLF_def DOUBLE_CRLF_def)

lemma is_ascii_crlf_join: "\<forall>l \<in> set ls. is_ascii l \<Longrightarrow> is_ascii (crlf_join ls)"
  by (induction ls rule: crlf_join.induct) simp_all

lemma prefix_double_crlf:
  "CHR 0x0A \<noteq> c \<Longrightarrow> CHR 0x0A \<notin> set l \<Longrightarrow> \<not> prefix DOUBLE_CRLF (c # l @ CRLF @ r)"
  by (cases l) (auto simp: DOUBLE_CRLF_def CRLF_def)

lemma find_double_crlf_hit:
  "CHR 0x0A \<notin> set l \<Longrightarrow> find_str DOUBLE_CRLF (l @ CRLF @ CRLF @ t) = Some (length l)"
proof (induction l)
  case Nil
  show ?case by (simp add: DOUBLE_CRLF_def CRLF_def)
next
  case (Cons c l)
  then show ?case using prefix_double_crlf [of c l "CRLF @ t"] by simp
qed

lemma find_double_crlf_skip:
  "CHR 0x0A \<notin> set l \<Longrightarrow> \<not> prefix CRLF r \<Longrightarrow>
   find_str DOUBLE_CRLF (l @ CRLF @ r) = map_option (\<lambda>n. n + length l + 2) (find_str DOUBLE_CRLF r)"
proof (induction l)
  case Nil
  then show ?case
    by (simp add: DOUBLE_CRLF_def CRLF_def option.map_comp comp_def)
next
  case (Cons c l)
  then show ?case
    using prefix_double_crlf [of c l r] by (simp add: option.map_comp comp_def)
qed

text \<open>The lines of a head: no line feed in any, and none empty after the first.\<close>

definition head_lines_ok :: "string list \<Rightarrow> bool" where
  "head_lines_ok ls \<longleftrightarrow> ls \<noteq> [] \<and> (\<forall>l \<in> set ls. CHR 0x0A \<notin> set l) \<and> (\<forall>l \<in> set (tl ls). l \<noteq> [])"

lemma not_prefix_CRLF:
  "l \<noteq> [] \<Longrightarrow> CHR 0x0A \<notin> set l \<Longrightarrow> r = [] \<or> hd r \<noteq> CHR 0x0A \<Longrightarrow> \<not> prefix CRLF (l @ r)"
  by (cases l; cases "tl l"; cases r) (auto simp: CRLF_def)

lemma crlf_join_shape: "\<exists>r. crlf_join (l # ls) @ DOUBLE_CRLF @ t = l @ CRLF @ r"
  by (cases ls) (auto simp: DOUBLE_CRLF_def)

lemma find_double_crlf_join:
  "head_lines_ok ls \<Longrightarrow> find_str DOUBLE_CRLF (crlf_join ls @ DOUBLE_CRLF @ t) = Some (length (crlf_join ls))"
proof (induction ls rule: crlf_join.induct)
  case 1
  then show ?case by (simp add: head_lines_ok_def)
next
  case (2 l)
  then show ?case
    using find_double_crlf_hit [of l t] by (simp add: head_lines_ok_def DOUBLE_CRLF_def)
next
  case (3 l l' ls)
  from 3 have IH: "find_str DOUBLE_CRLF (crlf_join (l' # ls) @ DOUBLE_CRLF @ t)
      = Some (length (crlf_join (l' # ls)))"
    by (simp add: head_lines_ok_def)
  obtain r where r: "crlf_join (l' # ls) @ DOUBLE_CRLF @ t = l' @ CRLF @ r"
    using crlf_join_shape by blast
  from 3 have "CHR 0x0A \<notin> set l" and "l' \<noteq> []" and "CHR 0x0A \<notin> set l'"
    by (simp_all add: head_lines_ok_def)
  then have "\<not> prefix CRLF (l' @ CRLF @ r)"
    by (intro not_prefix_CRLF) (simp_all add: CRLF_def)
  with IH r \<open>CHR 0x0A \<notin> set l\<close> show ?case
    using find_double_crlf_skip [of l "l' @ CRLF @ r"] by (simp add: CRLF_def)
qed

lemma split_raw_join:
  assumes ok: "head_lines_ok (l # ls)" and a: "\<forall>x \<in> set (l # ls). is_ascii x"
    and cr: "CHR 0x0D \<notin> set l"
  shows "split_raw (crlf_join (l # ls) @ DOUBLE_CRLF @ bd) = (l, crlf_join ls, bd)"
proof -
  have ja: "is_ascii (crlf_join (l # ls))"
    by (rule is_ascii_crlf_join [OF a])
  have "chars_take (length (crlf_join (l # ls))) (crlf_join (l # ls) @ DOUBLE_CRLF @ bd)
      = crlf_join (l # ls)"
    by (rule chars_take_append_ascii [OF ja])
  moreover have "chars_skip (length (crlf_join (l # ls)) + 4) (crlf_join (l # ls) @ DOUBLE_CRLF @ bd) = bd"
    by (rule chars_skip_append_ascii [OF ja]) (simp_all add: DOUBLE_CRLF_def CRLF_def)
  moreover have "(case find_str CRLF (crlf_join (l # ls)) of
       Some index \<Rightarrow> (chars_take index (crlf_join (l # ls)), chars_skip (index + 2) (crlf_join (l # ls)))
     | None \<Rightarrow> (crlf_join (l # ls), [])) = (l, crlf_join ls)"
  proof (cases "ls = []")
    case True
    with cr show ?thesis
      using find_str_notin [of CRLF l] by (simp add: CRLF_def)
  next
    case False
    then have j: "crlf_join (l # ls) = l @ CRLF @ crlf_join ls"
      by (rule crlf_join_Cons)
    from cr have "find_str CRLF (l @ CRLF @ crlf_join ls) = Some (length l)"
      by (intro find_str_append) (simp_all add: CRLF_def)
    moreover have "chars_take (length l) (l @ CRLF @ crlf_join ls) = l"
      using a by (intro chars_take_append_ascii) simp
    moreover have "chars_skip (length l + 2) (l @ CRLF @ crlf_join ls) = crlf_join ls"
      using a by (intro chars_skip_append_ascii) (simp_all add: CRLF_def)
    ultimately show ?thesis
      by (simp add: j)
  qed
  ultimately show ?thesis
    using find_double_crlf_join [OF ok, of bd] by (simp add: split_raw_def)
qed

section \<open>Messages that survive the wire\<close>

definition is_token :: "string \<Rightarrow> bool" where
  "is_token s \<longleftrightarrow> s \<noteq> [] \<and> is_ascii s \<and> (\<forall>c \<in> set s. \<not> is_whitespace [c])"

lemma is_token_no_line_end: "is_token s \<Longrightarrow> CHR 0x0A \<notin> set s \<and> CHR 0x0D \<notin> set s \<and> CHR '' '' \<notin> set s"
  by (auto simp: is_token_def is_whitespace_def)

lemma split_ws_acc_token:
  "\<forall>c \<in> set s. \<not> is_whitespace [c] \<Longrightarrow> split_ws_acc cur (map (\<lambda>c. [c]) s @ r) = split_ws_acc (cur @ s) r"
  by (induction s arbitrary: cur) simp_all

lemma split_whitespace_first_line:
  assumes "is_token a" and "is_token b" and "is_token c"
  shows "split_whitespace (a @ '' '' @ b @ '' '' @ c) = [a, b, c]"
  using assms split_ws_acc_token [of c "[]" "[]"]
  by (simp add: split_whitespace_def is_token_def chars_ascii split_ws_acc_token is_whitespace_space)

definition header_lines :: "headers \<Rightarrow> string list" where
  "header_lines h = map (\<lambda>e. fst (snd e) @ '': '' @ snd (snd e)) h"

definition headers_safe :: "headers \<Rightarrow> bool" where
  "headers_safe h \<longleftrightarrow> headers_wf h
     \<and> (\<forall>e \<in> set h. header_safe (fst (snd e)) (snd (snd e)) \<and> is_ascii (snd (snd e)))"

lemma headers_to_raw_lines:
  "headers_safe h \<Longrightarrow> headers_to_raw_string h = concat (map (\<lambda>x. x @ CRLF) (header_lines h))"
  by (auto simp: headers_safe_def headers_to_raw_string_def header_lines_def comp_def header_safe_def
      trim_id intro!: arg_cong [where f = concat])

lemma header_lines_props:
  assumes "headers_safe h"
  shows "\<forall>l \<in> set (header_lines h). is_ascii l \<and> CHR 0x0A \<notin> set l \<and> l \<noteq> []"
  using assms by (auto simp: headers_safe_def header_lines_def header_safe_def)

lemma lines_crlf_join:
  "\<forall>l \<in> set ls. CHR 0x0A \<notin> set l \<and> l \<noteq> [] \<Longrightarrow> lines (crlf_join ls) = ls"
proof (induction ls rule: crlf_join.induct)
  case (2 l)
  then show ?case
    using lines_acc_append [of l "[]" "[]"] by (simp add: lines_def)
next
  case (3 l l' ls)
  then show ?case
    using lines_append_CRLF [of l "crlf_join (l' # ls)"] by simp
qed simp

lemma headers_from_lines:
  assumes "headers_safe h"
  shows "hm_get (headers_from_raw_data (crlf_join (header_lines h))) = hm_get h"
proof -
  have "lines (crlf_join (header_lines h)) = header_lines h"
    using header_lines_props [OF assms] by (intro lines_crlf_join) simp
  moreover have "\<forall>e \<in> set h. header_safe (fst (snd e)) (snd (snd e))" and wf: "headers_wf h"
    using assms by (simp_all add: headers_safe_def)
  ultimately have "headers_from_raw_data (crlf_join (header_lines h)) = headers_copy h"
    using foldl_add_header_lines [of h headers_new]
    by (simp add: headers_from_raw_data_def headers_copy_def header_lines_def)
  with wf show ?thesis by (simp add: hm_get_copy)
qed

lemma split_raw_head:
  assumes "headers_safe h" and "is_ascii l" and "CHR 0x0A \<notin> set l" and "CHR 0x0D \<notin> set l"
  shows "split_raw (l @ CRLF @ headers_to_raw_string h @ CRLF @ bd) = (l, crlf_join (header_lines h), bd)"
proof -
  have "l @ CRLF @ headers_to_raw_string h @ CRLF @ bd
      = (crlf_join (l # header_lines h) @ CRLF) @ CRLF @ bd"
    unfolding crlf_join_lines by (simp add: headers_to_raw_lines [OF assms(1)])
  also have "\<dots> = crlf_join (l # header_lines h) @ DOUBLE_CRLF @ bd"
    by (simp add: DOUBLE_CRLF_def)
  finally have raw: "l @ CRLF @ headers_to_raw_string h @ CRLF @ bd
      = crlf_join (l # header_lines h) @ DOUBLE_CRLF @ bd" .
  show ?thesis
    unfolding raw using assms header_lines_props [OF assms(1)]
    by (intro split_raw_join) (auto simp: head_lines_ok_def)
qed

lemma request_from_first_line:
  "is_token m \<Longrightarrow> is_token u \<Longrightarrow> is_token v \<Longrightarrow>
   from_first_line (m @ '' '' @ u @ '' '' @ v) = Inr (request_create u m v)"
  using split_whitespace_first_line [of m u v] by (simp add: from_first_line_def)

lemma response_first_line:
  assumes v: "is_token v" and st: "no_outer_ws st"
  shows "response_from_first_line (v @ '' '' @ st)
    = \<lparr>resp_version = v, resp_status = st, resp_headers = headers_new, resp_body = []\<rparr>"
proof -
  have a: "is_ascii v"
    using v by (simp add: is_token_def)
  have "find_str '' '' (v @ '' '' @ st) = Some (length v)"
    using is_token_no_line_end [OF v] by (intro find_str_append) simp_all
  moreover have "chars_take (length v) (v @ '' '' @ st) = v"
    by (rule chars_take_append_ascii [OF a])
  moreover have "chars_skip (length v + 1) (v @ '' '' @ st) = st"
    by (rule chars_skip_append_ascii [OF a]) simp_all
  ultimately show ?thesis
    using st by (simp add: response_from_first_line_def trim_id)
qed

section \<open>The signed input\<close>

lemma add_request_header_simps [simp]:
  "req_method (add_request_header k v r) = req_method r"
  "req_url (add_request_header k v r) = req_url r"
  "req_version (add_request_header k v r) = req_version r"
  "req_body (add_request_header k v r) = req_body r"
  "req_headers (add_request_header k v r) = add_header k v (req_headers r)"
  by (simp_all add: add_request_header_def)

lemma as_sig_input_add_authorization:
  "to_lowercase n = AUTHORIZATION_HEADER \<Longrightarrow> as_sig_input U (add_request_header n v r) = as_sig_input U r"
  by (simp add: as_sig_input_def get_url_path_and_canonicalized_parameters_def
      canonical_add_authorization cong: option.case_cong)

lemma query_table_insert_all:
  "query_table ps = hm.insert_all (map (\<lambda>p. (to_lowercase (fst p), snd p)) ps) []"
  by (simp add: query_table_def hm.insert_all_def foldl_map)

lemma query_table_inv [simp]: "hm_inv (query_table ps)"
  by (simp add: query_table_insert_all hm.insert_all_inv)

lemma hm_get_query_table:
  "hm_get (query_table ps) k = hm_get (rev (map (\<lambda>p. (to_lowercase (fst p), snd p)) ps)) k"
  by (simp add: query_table_insert_all hm.get_insert_all split: option.split)

text \<open>The canonical parameters are a function of the table alone.\<close>

lemma canonicalized_parameters_table:
  assumes "hm_get (query_table ps) = hm_get (query_table qs)"
  shows "canonicalized_parameters ps = canonicalized_parameters qs"
proof -
  have "set (map fst (query_table ps)) = set (map fst (query_table qs))"
    using assms by (metis dom_map_of_conv_image_fst set_map)
  then have "mset (map fst (query_table ps)) = mset (map fst (query_table qs))"
    using query_table_inv [of ps] query_table_inv [of qs]
    by (simp only: hm_inv_def set_eq_iff_mset_eq_distinct)
  then have "sort (map fst (query_table ps)) = sort (map fst (query_table qs))"
    by (metis mset_sort properties_for_sort sorted_sort)
  with assms show ?thesis
    by (simp add: canonicalized_parameters_def Let_def)
qed

lemma canonicalized_parameters_mset:
  assumes "mset ps = mset qs" and "distinct (map (to_lowercase \<circ> fst) ps)"
  shows "canonicalized_parameters ps = canonicalized_parameters qs"
proof (rule canonicalized_parameters_table)
  let ?f = "\<lambda>p. (to_lowercase (fst p), snd p)"
  have "hm_inv (rev (map ?f ps))"
    using assms(2) by (simp add: hm_inv_def rev_map [symmetric] comp_def)
  moreover have "mset (rev (map ?f ps)) = mset (rev (map ?f qs))"
    using assms(1) by simp
  ultimately have "map_of (rev (map ?f ps)) = map_of (rev (map ?f qs))"
    by (rule map_of_mset_eq)
  then show "hm_get (query_table ps) = hm_get (query_table qs)"
    by (simp add: hm_get_query_table fun_eq_iff)
qed

section \<open>Properties\<close>

text \<open>A request whose method, URL and version are tokens and whose headers are safe on the wire is
  read back from the text the agent sends: same first line, same header table, and the same body,
  which is withheld exactly when the request expects a 100-continue answer.\<close>

theorem request_raw_roundtrip:
  assumes "is_token (req_method r)" and "is_token (req_url r)" and "is_token (req_version r)"
    and "headers_safe (req_headers r)" and "utf8_valid (req_body r)"
  shows "\<exists>h. from_raw_request (request_to_raw_string r)
      = Inr (r\<lparr>req_headers := h, req_body := if expect_continue_request r then [] else req_body r\<rparr>)
    \<and> hm_get h = hm_get (req_headers r)"
proof -
  let ?l = "req_method r @ '' '' @ req_url r @ '' '' @ req_version r"
  let ?b = "if expect_continue_request r then [] else req_body r"
  have "split_raw (?l @ CRLF @ headers_to_raw_string (req_headers r) @ CRLF @ ?b)
      = (?l, crlf_join (header_lines (req_headers r)), ?b)"
    using assms(1-3) is_token_no_line_end [OF assms(1)] is_token_no_line_end [OF assms(2)]
      is_token_no_line_end [OF assms(3)]
    by (intro split_raw_head [OF assms(4)]) (auto simp: is_token_def)
  moreover have "request_to_raw_string r = ?l @ CRLF @ headers_to_raw_string (req_headers r) @ CRLF @ ?b"
    using assms(5) by (simp add: request_to_raw_string_def request_head_def from_utf8_def)
  ultimately have "from_raw_request (request_to_raw_string r)
      = Inr (r\<lparr>req_headers := headers_from_raw_data (crlf_join (header_lines (req_headers r))), req_body := ?b\<rparr>)"
    using request_from_first_line [OF assms(1-3)]
    by (simp add: from_raw_request_def request_create_def)
  with headers_from_lines [OF assms(4)] show ?thesis by blast
qed

theorem request_raw_roundtrip_witness:
  "\<exists>h. from_raw_request (request_to_raw_string
        \<lparr>req_method = ''PUT'', req_url = ''/a?b=c'', req_version = ''HTTP/1.1'',
         req_headers = [(''host'', (''Host'', ''x y''))], req_body = ''z''\<rparr>)
      = Inr \<lparr>req_method = ''PUT'', req_url = ''/a?b=c'', req_version = ''HTTP/1.1'', req_headers = h, req_body = ''z''\<rparr>
    \<and> hm_get h ''host'' = Some (''Host'', ''x y'')"
proof -
  let ?r = "\<lparr>req_method = ''PUT'', req_url = ''/a?b=c'', req_version = ''HTTP/1.1'',
         req_headers = [(''host'', (''Host'', ''x y''))], req_body = ''z''\<rparr>"
  have "is_token ''PUT''" "is_token ''/a?b=c''" "is_token ''HTTP/1.1''" "utf8_valid ''z''"
    "headers_safe [(''host'', (''Host'', ''x y''))]" "\<not> expect_continue_request ?r"
    by code_simp+
  then show ?thesis
    using request_raw_roundtrip [of ?r] by fastforce
qed

lemma response_read_back:
  assumes "is_token (resp_version r)" and "no_outer_ws (resp_status r)" and "is_ascii (resp_status r)"
    and "CHR 0x0A \<notin> set (resp_status r)" and "CHR 0x0D \<notin> set (resp_status r)"
    and "headers_safe (resp_headers r)" and "utf8_valid (resp_body r)"
  shows "\<exists>h. from_raw_data (response_to_raw_string r) = r\<lparr>resp_headers := h\<rparr>
    \<and> hm_get h = hm_get (resp_headers r)"
proof -
  let ?l = "resp_version r @ '' '' @ resp_status r"
  have "split_raw (?l @ CRLF @ headers_to_raw_string (resp_headers r) @ CRLF @ resp_body r)
      = (?l, crlf_join (header_lines (resp_headers r)), resp_body r)"
    using assms(1-5) is_token_no_line_end [OF assms(1)]
    by (intro split_raw_head [OF assms(6)]) (auto simp: is_token_def)
  moreover have "response_to_raw_string r
      = ?l @ CRLF @ headers_to_raw_string (resp_headers r) @ CRLF @ resp_body r"
    using assms(7) by (simp add: response_to_raw_string_def response_head_def from_utf8_def)
  ultimately have "from_raw_data (response_to_raw_string r)
      = r\<lparr>resp_headers := headers_from_raw_data (crlf_join (header_lines (resp_headers r)))\<rparr>"
    using response_first_line [OF assms(1,2)] by (simp add: from_raw_data_def)
  with headers_from_lines [OF assms(6)] show ?thesis by blast
qed

text \<open>C17: A response whose version is a token, whose status line holds no line end and no outer white
  space and whose headers are safe is read back from the text the agent sends.\<close>

theorem response_raw_roundtrip:
  assumes "is_token (resp_version r)" and "no_outer_ws (resp_status r)" and "is_ascii (resp_status r)"
    and "CHR 0x0A \<notin> set (resp_status r)" and "CHR 0x0D \<notin> set (resp_status r)"
    and "headers_safe (resp_headers r)" and "utf8_valid (resp_body r)"
  shows "\<exists>h. from_raw_data (response_to_raw_string r) = r\<lparr>resp_headers := h\<rparr>
    \<and> hm_get h = hm_get (resp_headers r)"
  using assms by (rule response_read_back)

theorem response_raw_roundtrip_witness:
  "\<exists>h. from_raw_data (response_to_raw_string
        \<lparr>resp_version = ''HTTP/1.1'', resp_status = ''200 OK'',
         resp_headers = [(''age'', (''Age'', ''1''))], resp_body = ''z''\<rparr>)
      = \<lparr>resp_version = ''HTTP/1.1'', resp_status = ''200 OK'', resp_headers = h, resp_body = ''z''\<rparr>
    \<and> hm_get h ''age'' = Some (''Age'', ''1'')"
proof -
  let ?r = "\<lparr>resp_version = ''HTTP/1.1'', resp_status = ''200 OK'',
         resp_headers = [(''age'', (''Age'', ''1''))], resp_body = ''z''\<rparr>"
  have "is_token ''HTTP/1.1''" "no_outer_ws ''200 OK''" "is_ascii ''200 OK''" "utf8_valid ''z''"
    "headers_safe [(''age'', (''Age'', ''1''))]"
    by code_simp+
  then show ?thesis
    using response_raw_roundtrip [of ?r] by fastforce
qed

text \<open>The first line of a request is accepted exactly when it has at least three words; the first
  three are the method, the URL and the version, and every other line is an InvalidData error.\<close>

theorem first_line_spec:
  "(from_first_line l = Inr r \<longleftrightarrow>
     (\<exists>m u v ws. split_whitespace l = m # u # v # ws \<and> r = request_create u m v))
   \<and> (from_first_line l = Inl e \<longleftrightarrow> e = InvalidData \<and> length (split_whitespace l) < 3)"
  by (auto simp: from_first_line_def split: list.splits)


text \<open>A small instance of the \<^verbatim>\<open>url\<close> interface for concrete examples: a URL is its path and pairs.\<close>

definition example_urls :: "(string \<times> (string \<times> string) list) url_lib" where
  "example_urls =
     \<lparr>url_parse = (\<lambda>s. if s = ''http://127.0.0.1'' then Some (''/'', [])
        else if s = ''http://h/p?b=2&a=1'' then Some (''/p'', [(''b'', ''2''), (''a'', ''1'')])
        else if s = ''http://h/p?a=1&b=2'' then Some (''/p'', [(''a'', ''1''), (''b'', ''2'')])
        else None),
      url_join = (\<lambda>u s. if starts_with s ''/'' then Some (s, []) else None),
      url_path = fst, url_query_pairs = snd,
      url_host_str = (\<lambda>u. Some ''h''), url_port_or_known_default = (\<lambda>u. Some 80)\<rparr>"

definition example_crypto :: crypto_lib where
  "example_crypto =
     \<lparr>hex_decode = (\<lambda>s. if even (length s) then Some s else None), hex_encode = (\<lambda>s. s),
      hmac_sha256 = (\<lambda>k m. k @ m)\<rparr>"


text \<open>C14: A request the agent issues itself carries the agent's claims, and when it has a key the
  authorization header holds the signature, under that key, of exactly the request that is sent; it
  fails only for a key that is not hexadecimal, and without a key nothing is signed.\<close>

theorem agent_request_signed:
  assumes "key \<noteq> []"
  shows "(hex_decode C key = None \<longrightarrow> new_proxy_agent_request U C now u r guid key = Inl InvalidInput)
   \<and> (hex_decode C key = Some k \<longrightarrow>
        (\<exists>hr. new_proxy_agent_request U C now u r guid key = Inr hr
           \<and> hm_get (req_headers (hr_request hr)) AUTHORIZATION_HEADER = Some (AUTHORIZATION_HEADER,
               authorization_value guid (hex_encode C (hmac_sha256 C k (as_sig_input U (hr_request hr)))))
           \<and> hm_get (req_headers (hr_request hr)) CLAIMS_HEADER = Some (CLAIMS_HEADER, agent_claims)
           \<and> hm_get (req_headers (hr_request hr)) DATE_HEADER = Some (DATE_HEADER, now)
           \<and> req_method (hr_request hr) = req_method r \<and> req_url (hr_request hr) = req_url r \<and> req_body (hr_request hr) = req_body r))"
proof -
  have host: "to_lowercase ''Host'' \<noteq> CLAIMS_HEADER" "to_lowercase ''Host'' \<noteq> DATE_HEADER"
    by code_simp+
  show ?thesis
    using assms host
    by (auto simp: new_proxy_agent_request_def Let_def compute_signature_def http_request_new_def
        hm_get_add_header as_sig_input_add_authorization)
qed

theorem agent_request_signed_witness:
  "\<exists>hr. new_proxy_agent_request example_urls example_crypto ''now'' (''/'', [])
        (request_new ''/p'' ''GET'') ''guid'' ''ab'' = Inr hr
     \<and> hm_get (req_headers (hr_request hr)) AUTHORIZATION_HEADER = Some (AUTHORIZATION_HEADER,
         authorization_value ''guid'' (''ab'' @ as_sig_input example_urls (hr_request hr)))"
proof -
  have "hex_decode example_crypto ''ab'' = Some ''ab''" "''ab'' \<noteq> []"
    by (simp_all add: example_crypto_def)
  then obtain hr where "new_proxy_agent_request example_urls example_crypto ''now'' (''/'', [])
        (request_new ''/p'' ''GET'') ''guid'' ''ab'' = Inr hr"
    and "hm_get (req_headers (hr_request hr)) AUTHORIZATION_HEADER = Some (AUTHORIZATION_HEADER,
         authorization_value ''guid'' (hex_encode example_crypto
            (hmac_sha256 example_crypto ''ab'' (as_sig_input example_urls (hr_request hr)))))"
    using agent_request_signed [of "''ab''" example_crypto example_urls "''now''" "(''/'', [])"
        "request_new ''/p'' ''GET''" "''guid''" "''ab''"] by blast
  then show ?thesis
    by (simp add: example_crypto_def)
qed

text \<open>The signed string does not determine the request: the body is copied as it is, without
  encoding and without its length, so the end of a body can be read as a header line. These two
  different requests have the same signed string under every URL parser.\<close>

theorem sig_input_ambiguous:
  "as_sig_input U ((request_new w ''POST'')\<lparr>req_body := ''x'' @ LF @ ''a:1''\<rparr>)
   = as_sig_input U ((request_new w ''POST'')\<lparr>req_body := ''x'', req_headers := add_header ''a'' ''1'' headers_new\<rparr>)"
proof -
  have "to_canonicalized_string (add_header ''a'' ''1'' headers_new) = ''a:1'' @ LF"
    by (simp add: to_canonicalized_string_def add_header_def headers_new_def) code_simp
  moreover have "to_canonicalized_string headers_new = []"
    by (simp add: to_canonicalized_string_def headers_new_def)
  ultimately show ?thesis
    by (simp add: as_sig_input_def request_new_def request_create_def
        get_url_path_and_canonicalized_parameters_def LF_def cong: option.case_cong)
qed

end
