(* ===== verification/Rust_Path.thy ===== *)
theory Rust_Path
  imports Rust_Str
begin

text \<open>
  The part of \<^verbatim>\<open>std::path\<close> that the sources use, on Unix: a path is its string, a component ends at a
  slash, empty and \<^verbatim>\<open>.\<close> components at the end of a path are ignored.
\<close>

section \<open>Definitions\<close>

fun join_slash :: "string list \<Rightarrow> string" where
  "join_slash [] = []"
| "join_slash [p] = p"
| "join_slash (p # q # ps) = p @ ''/'' @ join_slash (q # ps)"

text \<open>\<^verbatim>\<open>Path::join\<close> and \<^verbatim>\<open>PathBuf::push\<close>: an absolute second path replaces the first.\<close>

definition path_join :: "string \<Rightarrow> string \<Rightarrow> string" where
  "path_join d f =
     (if starts_with f ''/'' then f
      else if d = [] \<or> last d = CHR ''/'' then d @ f
      else d @ ''/'' @ f)"

text \<open>The components up to the last one that names something.\<close>

definition path_parts :: "string \<Rightarrow> string list" where
  "path_parts p = rev (dropWhile (\<lambda>c. c = [] \<or> c = ''.'') (rev (split_on CHR ''/'' p)))"

definition path_file_name :: "string \<Rightarrow> string option" where
  "path_file_name p =
     (case rev (path_parts p) of
        [] \<Rightarrow> None
      | c # _ \<Rightarrow> if c = ''..'' then None else Some c)"

text \<open>The last dot splits a file name into stem and extension, unless the name starts with it.\<close>

definition last_dot :: "string \<Rightarrow> nat option" where
  "last_dot f = map_option (\<lambda>n. length f - Suc n) (find_str ''.'' (rev f))"

definition file_stem :: "string \<Rightarrow> string" where
  "file_stem f = (case last_dot f of Some (Suc n) \<Rightarrow> take (Suc n) f | _ \<Rightarrow> f)"

definition file_extension :: "string \<Rightarrow> string option" where
  "file_extension f = (case last_dot f of Some (Suc n) \<Rightarrow> Some (drop (n + 2) f) | _ \<Rightarrow> None)"

definition set_extension :: "string \<Rightarrow> string \<Rightarrow> string" where
  "set_extension ext p =
     (case path_file_name p of
        None \<Rightarrow> p
      | Some f \<Rightarrow> join_slash (butlast (path_parts p) @ [file_stem f]) @ ''.'' @ ext)"

text \<open>\<^verbatim>\<open>Path::parent\<close>, the empty path where there is none.\<close>

definition path_parent :: "string \<Rightarrow> string" where
  "path_parent p = (case butlast (path_parts p) of [] \<Rightarrow> [] | [[]] \<Rightarrow> ''/'' | ps \<Rightarrow> join_slash ps)"

section \<open>Lemmas\<close>

lemma split_on_not_Nil [simp]: "split_on sep s \<noteq> []"
  by (induction s) (auto split: list.splits)

lemma split_on_no_sep: "sep \<notin> set s \<Longrightarrow> split_on sep s = [s]"
  by (induction s) auto

lemma split_on_append: "sep \<notin> set f \<Longrightarrow> split_on sep (d @ sep # f) = split_on sep d @ [f]"
  by (induction d) (auto simp: split_on_no_sep split: list.splits)

lemma join_slash_split: "join_slash (split_on CHR ''/'' s) = s"
proof (induction s)
  case (Cons c s)
  then show ?case
    by (cases "split_on CHR ''/'' s"; cases "tl (split_on CHR ''/'' s)") auto
qed simp

lemma join_slash_snoc: "ps \<noteq> [] \<Longrightarrow> join_slash (ps @ [p]) = join_slash ps @ ''/'' @ p"
  by (induction ps rule: join_slash.induct) simp_all

text \<open>A plain file name below a directory is the file name of the joined path.\<close>

definition plain_name :: "string \<Rightarrow> bool" where
  "plain_name f \<longleftrightarrow> CHR ''/'' \<notin> set f \<and> f \<noteq> [] \<and> f \<noteq> ''.'' \<and> f \<noteq> ''..''"

lemma plain_name_no_slash: "plain_name f \<Longrightarrow> \<not> starts_with f ''/''"
  by (cases f) (auto simp: plain_name_def)

lemma path_parts_join:
  assumes "plain_name f" and "d \<noteq> []" and "last d \<noteq> CHR ''/''"
  shows "path_parts (path_join d f) = split_on CHR ''/'' d @ [f]"
proof -
  have "path_join d f = d @ CHR ''/'' # f"
    using assms plain_name_no_slash [of f] by (simp add: path_join_def)
  moreover have "split_on CHR ''/'' (d @ CHR ''/'' # f) = split_on CHR ''/'' d @ [f]"
    using assms by (intro split_on_append) (simp add: plain_name_def)
  ultimately show ?thesis
    using assms by (simp add: path_parts_def plain_name_def)
qed

lemma path_file_name_join:
  "plain_name f \<Longrightarrow> d \<noteq> [] \<Longrightarrow> last d \<noteq> CHR ''/'' \<Longrightarrow> path_file_name (path_join d f) = Some f"
  by (simp add: path_file_name_def path_parts_join plain_name_def)

lemma file_stem_no_dot: "CHR ''.'' \<notin> set f \<Longrightarrow> file_stem f = f"
  by (simp add: file_stem_def last_dot_def find_str_notin)

text \<open>Setting the extension of a plain name without a dot appends it.\<close>

lemma set_extension_join:
  assumes "plain_name f" and "CHR ''.'' \<notin> set f" and "d \<noteq> []" and "last d \<noteq> CHR ''/''"
  shows "set_extension ext (path_join d f) = d @ ''/'' @ f @ ''.'' @ ext"
  using assms
  by (simp add: set_extension_def path_file_name_join path_parts_join file_stem_no_dot
      join_slash_snoc join_slash_split)

end
