(* ===== verification/Config.thy ===== *)
theory Config
  imports Constants Rust_Path
begin

text \<open>
  \<^verbatim>\<open>proxy_agent/src/common/config.rs\<close>: the configuration record, its accessors with their defaults and
  the search for the configuration file. Reading the JSON file is \<^verbatim>\<open>serde_json\<close>'s.
\<close>

section \<open>Definitions\<close>

definition DEFAULT_START_REDIRECTOR :: bool where [agent_defs]: "DEFAULT_START_REDIRECTOR = True"
definition DEFAULT_MAX_EVENT_FILE_COUNT :: nat where [agent_defs]: "DEFAULT_MAX_EVENT_FILE_COUNT = 30"
definition DEFAULT_FALLBACK_WITH_IPTABLE_REDIRECT :: bool where
  [agent_defs]: "DEFAULT_FALLBACK_WITH_IPTABLE_REDIRECT = False"
definition CGROUP_ROOT :: string where [agent_defs]: "CGROUP_ROOT = ''/sys/fs/cgroup''"
definition CONFIG_FILE_NAME :: string where [agent_defs]: "CONFIG_FILE_NAME = ''proxy-agent.json''"

record config =
  logFolder :: string
  eventFolder :: string
  latchKeyFolder :: string
  startRedirector :: "bool option"
  monitorIntervalInSeconds :: u64
  pollKeyStatusIntervalInSeconds :: u64
  wireServerSupport :: u8
  hostGAPluginSupport :: u8
  imdsSupport :: u8
  maxEventFileCount :: "nat option"
  ebpfProgramName :: string
  cgroupRoot :: "string option"
  fallBackWithIpTableRedirect :: "bool option"

definition unwrap_or :: "'a option \<Rightarrow> 'a \<Rightarrow> 'a" where
  "unwrap_or m d = (case m of Some x \<Rightarrow> x | None \<Rightarrow> d)"

definition get_start_redirector :: "config \<Rightarrow> bool" where
  "get_start_redirector c = unwrap_or (startRedirector c) DEFAULT_START_REDIRECTOR"

definition get_max_event_file_count :: "config \<Rightarrow> nat" where
  "get_max_event_file_count c = unwrap_or (maxEventFileCount c) DEFAULT_MAX_EVENT_FILE_COUNT"

definition get_cgroup_root :: "config \<Rightarrow> string" where
  "get_cgroup_root c = (case cgroupRoot c of Some cgroup \<Rightarrow> cgroup | None \<Rightarrow> CGROUP_ROOT)"

definition get_fallback_with_iptable_redirect :: "config \<Rightarrow> bool" where
  "get_fallback_with_iptable_redirect c =
     unwrap_or (fallBackWithIpTableRedirect c) DEFAULT_FALLBACK_WITH_IPTABLE_REDIRECT"

text \<open>
  \<^verbatim>\<open>Config::default\<close>: the path of the environment variable when that file exists, else the system
  path, else the directory of the executable. \<^verbatim>\<open>PathBuf::new()\<close> is the empty path.
\<close>

definition config_default_path :: "string option \<Rightarrow> (string \<Rightarrow> bool) \<Rightarrow> string \<Rightarrow> string" where
  "config_default_path env_var exists exe_dir =
     (let p0 = (case env_var of Some file_path \<Rightarrow> file_path | None \<Rightarrow> []);
          p1 = (if \<not> exists p0 then ''/etc/azure/'' @ CONFIG_FILE_NAME else p0)
      in if \<not> exists p1 then path_join exe_dir CONFIG_FILE_NAME else p1)"

end
