(* ===== verification/Claims.thy ===== *)
theory Claims
  imports Config
begin

text \<open>
  \<^verbatim>\<open>proxy_agent/src/proxy.rs\<close>: the claims of a connection, built from the audit entry the redirector
  recorded, and the cache of user accounts. The process table (\<^verbatim>\<open>sysinfo\<close>) and the user database
  (\<^verbatim>\<open>users\<close>) are parameters.
\<close>

section \<open>Definitions\<close>

record claims =
  userId :: u64
  userName :: string
  userGroups :: "string list"
  processId :: u32
  processName :: string
  processFullPath :: string
  processCmdLine :: string
  runAsElevated :: bool
  clientIp :: string

record process =
  command_line :: string
  proc_name :: string
  exe_full_name :: string
  pid :: u32

record user =
  logon_id :: u64
  user_name :: string
  user_groups :: "string list"

text \<open>
  The process table: the executable path, when it is valid text, and the argument vector of a running
  process. The user database: the account of a uid and the groups of an account, by name.
\<close>

record os_lib =
  os_process :: "u32 \<Rightarrow> (string option \<times> string list) option"
  os_user_by_uid :: "u32 \<Rightarrow> string option"
  os_user_groups :: "string \<Rightarrow> string list option"

definition UNDEFINED :: string where "UNDEFINED = ''undefined''"
definition EMPTY :: string where "EMPTY = ''empty''"

fun join_space :: "string list \<Rightarrow> string" where
  "join_space [] = []"
| "join_space [p] = p"
| "join_space (p # q # ps) = p @ '' '' @ join_space (q # ps)"

definition get_process_info :: "os_lib \<Rightarrow> u32 \<Rightarrow> string \<times> string" where
  "get_process_info os process_id =
     (case os_process os process_id of
        Some (exe, cmd) \<Rightarrow> ((case exe of Some name \<Rightarrow> name | None \<Rightarrow> UNDEFINED), join_space cmd)
      | None \<Rightarrow> (UNDEFINED, UNDEFINED))"

definition process_from_pid :: "os_lib \<Rightarrow> u32 \<Rightarrow> process" where
  "process_from_pid os p =
     (let (process_full_path, cmd) = get_process_info os p
      in \<lparr>command_line = cmd, proc_name = unwrap_or (path_file_name process_full_path) [],
          exe_full_name = process_full_path, pid = p\<rparr>)"

text \<open>\<^verbatim>\<open>logon_id as u32\<close> keeps the low 32 bits.\<close>

definition user_from_logon_id :: "os_lib \<Rightarrow> u64 \<Rightarrow> user" where
  "user_from_logon_id os l =
     (case os_user_by_uid os (ucast l) of
        Some name \<Rightarrow> \<lparr>logon_id = l, user_name = name,
          user_groups = (case os_user_groups os name of Some groups \<Rightarrow> groups | None \<Rightarrow> [])\<rparr>
      | None \<Rightarrow> \<lparr>logon_id = l, user_name = UNDEFINED, user_groups = []\<rparr>)"

text \<open>\<^verbatim>\<open>get_user\<close> with the static cache \<^verbatim>\<open>USERS\<close> as explicit state.\<close>

type_synonym users_cache = "(u64, user) hmap"

definition get_user :: "os_lib \<Rightarrow> u64 \<Rightarrow> users_cache \<Rightarrow> user \<times> users_cache" where
  "get_user os l USERS =
     (case hm_get USERS l of
        Some u \<Rightarrow> (u, USERS)
      | None \<Rightarrow> (let u = user_from_logon_id os l in (u, hm_insert l u USERS)))"

definition claims_empty :: claims where
  "claims_empty = \<lparr>userId = 0, userName = EMPTY, userGroups = [], processId = 0, processName = EMPTY,
     processFullPath = EMPTY, processCmdLine = EMPTY, runAsElevated = False, clientIp = EMPTY\<rparr>"

text \<open>
  \<^verbatim>\<open>redirector::AuditEntry\<close>: what the eBPF program recorded for a redirected connection; port and
  address are in network byte order.
\<close>

record audit_entry =
  ae_logon_id :: u64
  ae_process_id :: u32
  ae_is_admin :: i32
  ae_destination_ipv4 :: u32
  ae_destination_port :: u16

definition audit_entry_empty :: audit_entry where
  "audit_entry_empty = \<lparr>ae_logon_id = 0, ae_process_id = 0, ae_is_admin = 0,
     ae_destination_ipv4 = 0, ae_destination_port = 0\<rparr>"

definition from_audit_entry :: "os_lib \<Rightarrow> audit_entry \<Rightarrow> string \<Rightarrow> users_cache \<Rightarrow> claims \<times> users_cache" where
  "from_audit_entry os entry client_ip USERS =
     (let p = process_from_pid os (ae_process_id entry);
          (u, USERS') = get_user os (ae_logon_id entry) USERS
      in (\<lparr>userId = ae_logon_id entry, userName = user_name u, userGroups = user_groups u,
           processId = pid p, processName = proc_name p, processFullPath = exe_full_name p,
           processCmdLine = command_line p, runAsElevated = (ae_is_admin entry = 1),
           clientIp = client_ip\<rparr>, USERS'))"

section \<open>The user cache\<close>

text \<open>Every cached entry is the entry the database gave for its key.\<close>

definition users_inv :: "os_lib \<Rightarrow> users_cache \<Rightarrow> bool" where
  "users_inv os c \<longleftrightarrow> hm_inv c \<and> (\<forall>l u. hm_get c l = Some u \<longrightarrow> u = user_from_logon_id os l)"

lemma get_user_spec:
  assumes "users_inv os c"
  shows "fst (get_user os l c) = user_from_logon_id os l \<and> users_inv os (snd (get_user os l c))"
  using assms by (auto simp: get_user_def users_inv_def Let_def split: option.splits if_splits)

interpretation users: step_system "\<lambda>l c. snd (get_user os l c)" "users_inv os" for os
  by unfold_locales (simp add: get_user_spec)

text \<open>The claims of a connection name the process and account of the recorded audit entry whatever
  connections were served before: with the cache filled by any earlier lookups, the user name and
  groups are those of the database, the process data are those of the process table, and the
  connection counts as elevated exactly when the recorded flag is 1.\<close>

theorem claims_from_audit_entry:
  "\<exists>c. fst (from_audit_entry os entry ip (fold (\<lambda>l c. snd (get_user os l c)) ls [])) = c
     \<and> userId c = ae_logon_id entry
     \<and> userName c = user_name (user_from_logon_id os (ae_logon_id entry))
     \<and> userGroups c = user_groups (user_from_logon_id os (ae_logon_id entry))
     \<and> processId c = ae_process_id entry
     \<and> (processFullPath c, processCmdLine c) = get_process_info os (ae_process_id entry)
     \<and> processName c = unwrap_or (path_file_name (processFullPath c)) []
     \<and> (runAsElevated c \<longleftrightarrow> ae_is_admin entry = 1) \<and> clientIp c = ip"
proof -
  have "users_inv os (fold (\<lambda>l c. snd (get_user os l c)) ls [])"
    by (rule users.run_inv) (simp add: users_inv_def)
  from get_user_spec [OF this, of "ae_logon_id entry"] show ?thesis
    by (auto simp: from_audit_entry_def process_from_pid_def Let_def split: prod.splits)
qed

end
