(* ===== verification/Key_Status.thy ===== *)
theory Key_Status
  imports Http_Message Claims
begin

text \<open>
  \<^verbatim>\<open>proxy_agent/src/key_keeper/key.rs\<close>: the key status the host reports, the access rules it carries, the
  matching of privileges and identities, and the key.
\<close>

section \<open>Definitions\<close>

definition AUDIT_MODE :: string where [agent_defs]: "AUDIT_MODE = ''audit''"
definition ENFORCE_MODE :: string where [agent_defs]: "ENFORCE_MODE = ''enforce''"
definition DISABLE_STATE :: string where [agent_defs]: "DISABLE_STATE = ''disabled''"
definition MUST_SIG_WIRESERVER :: string where [agent_defs]: "MUST_SIG_WIRESERVER = ''wireserver''"
definition MUST_SIG_WIRESERVER_IMDS :: string where
  [agent_defs]: "MUST_SIG_WIRESERVER_IMDS = ''wireserverandimds''"

record privilege =
  priv_name :: string
  priv_path :: string
  priv_queryParameters :: "(string, string) hmap option"

record role =
  role_name :: string
  role_privileges :: "string list"

record identity =
  id_name :: string
  id_userName :: "string option"
  id_groupName :: "string option"
  id_exePath :: "string option"
  id_processName :: "string option"

record role_assignment =
  ra_role :: string
  ra_identities :: "string list"

record access_control_rules =
  acr_privileges :: "privilege list option"
  acr_roles :: "role list option"
  acr_identities :: "identity list option"
  acr_roleAssignments :: "role_assignment list option"

record authorization_item =
  item_defaultAccess :: string
  item_mode :: string
  item_id :: string
  item_rules :: "access_control_rules option"

record key_authorization_rules =
  kar_imds :: "authorization_item option"
  kar_wireserver :: "authorization_item option"

record key_status =
  ks_authorizationScheme :: string
  ks_keyDeliveryMethod :: string
  ks_keyIncarnationId :: "u32 option"
  ks_keyGuid :: "string option"
  ks_requiredClaimsHeaderPairs :: "string list option"
  ks_secureChannelState :: "string option"
  ks_secureChannelEnabled :: "bool option"
  ks_version :: string
  ks_authorizationRules :: "key_authorization_rules option"

record key =
  key_authorizationScheme :: string
  key_incarnationId :: "u32 option"
  key_guid :: string
  key_issued :: string
  key_key :: string

subsection \<open>Matching\<close>

fun query_parameters_match :: "'u url_lib \<Rightarrow> 'u \<Rightarrow> (string \<times> string) list \<Rightarrow> bool" where
  "query_parameters_match U request_url [] = True"
| "query_parameters_match U request_url ((key, value) # rest) =
     (case find (\<lambda>p. fst p = key) (url_query_pairs U request_url) of
        Some (_, v) \<Rightarrow>
          if to_lowercase v = to_lowercase value then query_parameters_match U request_url rest else False
      | None \<Rightarrow> False)"

definition privilege_is_match :: "'u url_lib \<Rightarrow> 'u \<Rightarrow> privilege \<Rightarrow> bool" where
  "privilege_is_match U request_url p =
     (if starts_with (to_lowercase (url_path U request_url)) (priv_path p)
      then (case priv_queryParameters p of
              Some query_parameters \<Rightarrow> query_parameters_match U request_url query_parameters
            | None \<Rightarrow> True)
      else False)"

fun group_loop :: "string \<Rightarrow> string list \<Rightarrow> bool" where
  "group_loop group_name [] = False"
| "group_loop group_name (g # gs) =
     (if to_lowercase g = to_lowercase group_name then True else group_loop group_name gs)"

definition identity_is_match :: "claims \<Rightarrow> identity \<Rightarrow> bool" where
  "identity_is_match c i =
     (if (case id_userName i of Some uname \<Rightarrow> to_lowercase uname \<noteq> to_lowercase (userName c) | None \<Rightarrow> False)
      then False
      else if (case id_processName i of Some process_name \<Rightarrow> to_lowercase process_name \<noteq> to_lowercase (processName c) | None \<Rightarrow> False)
      then False
      else if (case id_exePath i of Some exe_path \<Rightarrow> to_lowercase exe_path \<noteq> to_lowercase (processFullPath c) | None \<Rightarrow> False)
      then False
      else (case id_groupName i of
              Some group_name \<Rightarrow> if \<not> group_loop group_name (userGroups c) then False else True
            | None \<Rightarrow> True))"

subsection \<open>Copies\<close>

definition privilege_clone :: "privilege \<Rightarrow> privilege" where
  "privilege_clone p = \<lparr>priv_name = priv_name p, priv_path = priv_path p,
     priv_queryParameters = priv_queryParameters p\<rparr>"

definition role_clone :: "role \<Rightarrow> role" where
  "role_clone r = \<lparr>role_name = role_name r, role_privileges = role_privileges r\<rparr>"

definition identity_clone :: "identity \<Rightarrow> identity" where
  "identity_clone i = \<lparr>id_name = id_name i, id_userName = id_userName i, id_groupName = id_groupName i,
     id_exePath = id_exePath i, id_processName = id_processName i\<rparr>"

definition role_assignment_clone :: "role_assignment \<Rightarrow> role_assignment" where
  "role_assignment_clone a = \<lparr>ra_role = ra_role a, ra_identities = ra_identities a\<rparr>"

definition authorization_item_clone :: "authorization_item \<Rightarrow> authorization_item" where
  "authorization_item_clone it =
     \<lparr>item_defaultAccess = item_defaultAccess it, item_mode = item_mode it, item_id = item_id it,
      item_rules = (case item_rules it of
        Some r \<Rightarrow> Some
          \<lparr>acr_privileges = (case acr_privileges r of Some p \<Rightarrow> Some (map privilege_clone p) | None \<Rightarrow> None),
           acr_roles = (case acr_roles r of Some p \<Rightarrow> Some (map role_clone p) | None \<Rightarrow> None),
           acr_identities = (case acr_identities r of Some p \<Rightarrow> Some (map identity_clone p) | None \<Rightarrow> None),
           acr_roleAssignments = (case acr_roleAssignments r of
              Some p \<Rightarrow> Some (map role_assignment_clone p) | None \<Rightarrow> None)\<rparr>
      | None \<Rightarrow> None)\<rparr>"

definition key_clone :: "key \<Rightarrow> key" where
  "key_clone k = \<lparr>key_authorizationScheme = key_authorizationScheme k, key_incarnationId = key_incarnationId k,
     key_guid = key_guid k, key_issued = key_issued k, key_key = key_key k\<rparr>"

definition key_empty :: key where
  "key_empty = \<lparr>key_authorizationScheme = AUTHORIZATION_SCHEME, key_incarnationId = None,
     key_guid = ''00000000-0000-0000-0000-000000000000'', key_issued = [], key_key = []\<rparr>"

subsection \<open>The key status\<close>

text \<open>
  \<^verbatim>\<open>KeyStatus::validate\<close> makes five checks in a row; each may extend the message \<^verbatim>\<open>validate_message\<close> and
  reset the verdict \<^verbatim>\<open>validate_result\<close>.
\<close>

definition check_scheme :: "key_status \<Rightarrow> string \<times> bool \<Rightarrow> string \<times> bool" where
  "check_scheme ks acc =
     (if ks_authorizationScheme ks \<noteq> AUTHORIZATION_SCHEME
      then (fst acc @ ''authorizationScheme must be '' @ quoted ''Azure-HMAC-SHA256'' @ ''; '', snd acc)
      else acc)"

definition check_delivery :: "key_status \<Rightarrow> string \<times> bool \<Rightarrow> string \<times> bool" where
  "check_delivery ks acc =
     (if ks_keyDeliveryMethod ks \<noteq> KEY_DELIVERY_METHOD_HTTP
         \<and> ks_keyDeliveryMethod ks \<noteq> KEY_DELIVERY_METHOD_VTPM
      then (fst acc @ ''keyDeliveryMethod '' @ quoted (ks_keyDeliveryMethod ks) @ '' is invalid; '', snd acc)
      else acc)"

definition check_present :: "key_status \<Rightarrow> string \<times> bool \<Rightarrow> string \<times> bool" where
  "check_present ks acc =
     (if ks_secureChannelEnabled ks = None \<and> ks_secureChannelState ks = None
      then (fst acc @ ''Both secureChannelEnabled and secureChannelState are missing in version: ''
              @ ks_version ks, False)
      else acc)"

definition check_state :: "key_status \<Rightarrow> string \<times> bool \<Rightarrow> string \<times> bool" where
  "check_state ks acc =
     (case ks_secureChannelState ks of
        Some s \<Rightarrow>
          (let state = to_lowercase s
           in if state \<noteq> DISABLE_STATE \<and> state \<noteq> MUST_SIG_WIRESERVER \<and> state \<noteq> MUST_SIG_WIRESERVER_IMDS
              then (fst acc @ ''secureChannelState '' @ quoted state @ '' is invalid; '', False)
              else acc)
      | None \<Rightarrow>
          if ks_version ks = ''1.0''
          then (fst acc @ ''secureChannelState is missing in version: 1.0'', False)
          else acc)"

definition check_enabled :: "key_status \<Rightarrow> string \<times> bool \<Rightarrow> string \<times> bool" where
  "check_enabled ks acc =
     (if ks_secureChannelEnabled ks = None \<and> ks_version ks = ''2.0''
      then (fst acc @ ''secureChannelEnabled is missing in version: 2.0'', False)
      else acc)"

definition validate_parts :: "key_status \<Rightarrow> string \<times> bool" where
  "validate_parts ks =
     check_enabled ks (check_state ks (check_present ks (check_delivery ks (check_scheme ks
       (''key status validate failed: '', True)))))"

definition validate :: "key_status \<Rightarrow> bool io_result" where
  "validate ks = (if \<not> snd (validate_parts ks) then Inl InvalidData else Inr (snd (validate_parts ks)))"

text \<open>The text for one endpoint in \<^verbatim>\<open>get_secure_channel_state\<close>.\<close>

definition endpoint_state :: "string \<Rightarrow> authorization_item option \<Rightarrow> string" where
  "endpoint_state endpoint item_opt =
     (case item_opt of
        Some item \<Rightarrow>
          (let mode = to_lowercase (item_mode item)
           in if mode = ENFORCE_MODE then endpoint @ '' Enforce''
              else if mode = AUDIT_MODE then endpoint @ '' Audit''
              else endpoint @ '' Disabled'')
      | None \<Rightarrow> endpoint @ '' Disabled'')"

definition get_secure_channel_state :: "key_status \<Rightarrow> string" where
  "get_secure_channel_state ks =
     (if ks_version ks = ''2.0''
      then (case ks_secureChannelEnabled ks of
              Some s \<Rightarrow>
                if s
                then (case ks_authorizationRules ks of
                        Some rules \<Rightarrow> endpoint_state ''WireServer'' (kar_wireserver rules) @ '' - ''
                          @ endpoint_state '' IMDS'' (kar_imds rules)
                      | None \<Rightarrow> DISABLE_STATE)
                else DISABLE_STATE
            | None \<Rightarrow> DISABLE_STATE)
      else (case ks_secureChannelState ks of Some s \<Rightarrow> to_lowercase s | None \<Rightarrow> DISABLE_STATE))"

definition get_wireserver_rules :: "key_status \<Rightarrow> authorization_item option" where
  "get_wireserver_rules ks =
     (case ks_authorizationRules ks of
        Some rules \<Rightarrow> (case kar_wireserver rules of
                         Some item \<Rightarrow> Some (authorization_item_clone item) | None \<Rightarrow> None)
      | None \<Rightarrow> None)"

definition get_imds_rules :: "key_status \<Rightarrow> authorization_item option" where
  "get_imds_rules ks =
     (case ks_authorizationRules ks of
        Some rules \<Rightarrow> (case kar_imds rules of
                         Some item \<Rightarrow> Some (authorization_item_clone item) | None \<Rightarrow> None)
      | None \<Rightarrow> None)"

definition get_wireserver_rule_id :: "key_status \<Rightarrow> string" where
  "get_wireserver_rule_id ks = (case get_wireserver_rules ks of Some item \<Rightarrow> item_id item | None \<Rightarrow> [])"

definition get_imds_rule_id :: "key_status \<Rightarrow> string" where
  "get_imds_rule_id ks = (case get_imds_rules ks of Some item \<Rightarrow> item_id item | None \<Rightarrow> [])"

section \<open>Lemmas\<close>

lemma clone_id [simp]:
  "privilege_clone = id" "role_clone = id" "identity_clone = id" "role_assignment_clone = id"
  "key_clone = id"
  by (simp_all add: fun_eq_iff privilege_clone_def role_clone_def identity_clone_def
      role_assignment_clone_def key_clone_def)

lemma authorization_item_clone_id [simp]: "authorization_item_clone it = it"
  by (cases "item_rules it") (auto simp: authorization_item_clone_def split: option.splits)

lemma get_rules_simps:
  "get_wireserver_rules ks = Option.bind (ks_authorizationRules ks) kar_wireserver"
  "get_imds_rules ks = Option.bind (ks_authorizationRules ks) kar_imds"
  by (auto simp: get_wireserver_rules_def get_imds_rules_def split: option.splits)

lemma find_fst_map_of: "find (\<lambda>p. fst p = k) ps = map_option (Pair k) (map_of ps k)"
  by (induction ps) auto

lemma query_parameters_match_iff:
  "query_parameters_match U u qs \<longleftrightarrow>
     (\<forall>(k, v) \<in> set qs. \<exists>v'. map_of (url_query_pairs U u) k = Some v' \<and> to_lowercase v' = to_lowercase v)"
  by (induction qs) (auto simp: find_fst_map_of split: option.splits if_splits)

lemma group_loop_iff: "group_loop g gs \<longleftrightarrow> (\<exists>g' \<in> set gs. to_lowercase g' = to_lowercase g)"
  by (induction gs) auto

lemma privilege_is_match_iff:
  "privilege_is_match U u p \<longleftrightarrow>
     prefix (priv_path p) (to_lowercase (url_path U u))
     \<and> (\<forall>qs. priv_queryParameters p = Some qs \<longrightarrow>
          (\<forall>(k, v) \<in> set qs. \<exists>v'. map_of (url_query_pairs U u) k = Some v' \<and> to_lowercase v' = to_lowercase v))"
  by (auto simp: privilege_is_match_def query_parameters_match_iff split: option.splits)

lemma identity_is_match_iff:
  "identity_is_match c i \<longleftrightarrow>
     (\<forall>n. id_userName i = Some n \<longrightarrow> to_lowercase n = to_lowercase (userName c))
     \<and> (\<forall>n. id_processName i = Some n \<longrightarrow> to_lowercase n = to_lowercase (processName c))
     \<and> (\<forall>n. id_exePath i = Some n \<longrightarrow> to_lowercase n = to_lowercase (processFullPath c))
     \<and> (\<forall>n. id_groupName i = Some n \<longrightarrow> (\<exists>g \<in> set (userGroups c). to_lowercase g = to_lowercase n))"
  by (auto simp: identity_is_match_def group_loop_iff split: option.splits)

lemma snd_checks:
  "snd (check_scheme ks acc) = snd acc"
  "snd (check_delivery ks acc) = snd acc"
  "snd (check_present ks acc) \<longleftrightarrow>
     snd acc \<and> (ks_secureChannelEnabled ks \<noteq> None \<or> ks_secureChannelState ks \<noteq> None)"
  "snd (check_state ks acc) \<longleftrightarrow> snd acc \<and>
     (case ks_secureChannelState ks of
        Some s \<Rightarrow> to_lowercase s \<in> {DISABLE_STATE, MUST_SIG_WIRESERVER, MUST_SIG_WIRESERVER_IMDS}
      | None \<Rightarrow> ks_version ks \<noteq> ''1.0'')"
  "snd (check_enabled ks acc) \<longleftrightarrow>
     snd acc \<and> (ks_version ks = ''2.0'' \<longrightarrow> ks_secureChannelEnabled ks \<noteq> None)"
  by (auto simp: check_scheme_def check_delivery_def check_present_def check_state_def check_enabled_def
      Let_def split: option.splits)

lemma snd_validate_parts:
  "snd (validate_parts ks) \<longleftrightarrow>
     (ks_secureChannelEnabled ks \<noteq> None \<or> ks_secureChannelState ks \<noteq> None)
     \<and> (case ks_secureChannelState ks of
           Some s \<Rightarrow> to_lowercase s \<in> {DISABLE_STATE, MUST_SIG_WIRESERVER, MUST_SIG_WIRESERVER_IMDS}
         | None \<Rightarrow> ks_version ks \<noteq> ''1.0'')
     \<and> (ks_version ks = ''2.0'' \<longrightarrow> ks_secureChannelEnabled ks \<noteq> None)"
  by (simp add: validate_parts_def snd_checks)

lemma endpoint_state_cases:
  "endpoint_state e it \<in> {e @ '' Enforce'', e @ '' Audit'', e @ '' Disabled''}"
  by (auto simp: endpoint_state_def Let_def split: option.splits)

section \<open>Properties\<close>

text \<open>A key status is accepted exactly when it says something about the secure channel, its channel
  state, if any, is one of the three known ones, version 1.0 has a state and version 2.0 has the
  enabled flag; every other status is an InvalidData error.\<close>

theorem validate_spec:
  "validate ks =
     (if \<not> (ks_secureChannelEnabled ks = None \<and> ks_secureChannelState ks = None)
         \<and> (case ks_secureChannelState ks of
               Some s \<Rightarrow> to_lowercase s \<in> {DISABLE_STATE, MUST_SIG_WIRESERVER, MUST_SIG_WIRESERVER_IMDS}
             | None \<Rightarrow> ks_version ks \<noteq> ''1.0'')
         \<and> \<not> (ks_version ks = ''2.0'' \<and> ks_secureChannelEnabled ks = None)
      then Inr True else Inl InvalidData)"
  using snd_validate_parts [of ks] by (auto simp: validate_def split: option.splits)

text \<open>The authorization scheme and the key delivery method do not take part in the verdict of
  validate, although the message it builds calls other values invalid.\<close>

theorem validate_ignores_scheme:
  "validate (ks\<lparr>ks_authorizationScheme := a, ks_keyDeliveryMethod := d\<rparr>) = validate ks"
  by (simp add: validate_def snd_validate_parts cong: option.case_cong)

text \<open>The channel state of a validated status is disabled, one of the two version 1 states, or one
  of the nine version 2 descriptions; and for version 2 it is disabled exactly when the channel is
  not enabled or no rules came with the status.\<close>

lemma secure_channel_state_range:
  assumes "validate ks = Inr b"
  shows "(get_secure_channel_state ks \<in> {DISABLE_STATE, MUST_SIG_WIRESERVER, MUST_SIG_WIRESERVER_IMDS}
          \<or> (\<exists>w \<in> {''Enforce'', ''Audit'', ''Disabled''}. \<exists>i \<in> {''Enforce'', ''Audit'', ''Disabled''}.
               get_secure_channel_state ks = ''WireServer '' @ w @ '' -  IMDS '' @ i))
      \<and> (ks_version ks = ''2.0'' \<longrightarrow>
          (get_secure_channel_state ks = DISABLE_STATE
            \<longleftrightarrow> ks_secureChannelEnabled ks = Some False \<or> ks_authorizationRules ks = None))"
proof -
  have ok: "snd (validate_parts ks)"
    using assms by (simp add: validate_def split: if_splits)
  show ?thesis
  proof (cases "ks_version ks = ''2.0'' \<and> ks_secureChannelEnabled ks = Some True
      \<and> ks_authorizationRules ks \<noteq> None")
    case True
    then obtain rules where r: "ks_authorizationRules ks = Some rules"
      by blast
    have "endpoint_state ''WireServer'' (kar_wireserver rules) @ '' - '' @ endpoint_state '' IMDS'' (kar_imds rules)
        \<noteq> DISABLE_STATE"
      using endpoint_state_cases [of "''WireServer''" "kar_wireserver rules"] by (auto simp: DISABLE_STATE_def)
    with True r show ?thesis
      using endpoint_state_cases [of "''WireServer''" "kar_wireserver rules"]
        endpoint_state_cases [of "'' IMDS''" "kar_imds rules"]
      by (simp add: get_secure_channel_state_def) fastforce
  next
    case False
    with ok show ?thesis
      by (auto simp: get_secure_channel_state_def snd_validate_parts split: option.splits)
  qed
qed

lemma secure_channel_state_disabled_example:
  "get_secure_channel_state \<lparr>ks_authorizationScheme = ''x'', ks_keyDeliveryMethod = ''http'',
      ks_keyIncarnationId = None, ks_keyGuid = None, ks_requiredClaimsHeaderPairs = None,
      ks_secureChannelState = None, ks_secureChannelEnabled = Some False, ks_version = ''2.0'',
      ks_authorizationRules = None\<rparr> = DISABLE_STATE"
proof -
  let ?ks = "\<lparr>ks_authorizationScheme = ''x'', ks_keyDeliveryMethod = ''http'',
      ks_keyIncarnationId = None, ks_keyGuid = None, ks_requiredClaimsHeaderPairs = None,
      ks_secureChannelState = None, ks_secureChannelEnabled = Some False, ks_version = ''2.0'',
      ks_authorizationRules = None\<rparr>"
  have "validate ?ks = Inr True"
    by code_simp
  from secure_channel_state_range [OF this] show ?thesis
    by simp
qed

end
