(* ===== verification/Agent_Status.thy ===== *)
theory Agent_Status
  imports Config Http_Message
begin

text \<open>
  \<^verbatim>\<open>proxy_agent/src/proxy_agent_status.rs\<close> with \<^verbatim>\<open>proxy/proxy_summary.rs\<close> and the status types of
  \<^verbatim>\<open>proxy_agent_shared/src/proxy_agent_aggregate_status.rs\<close>: the two summary maps the proxy fills and
  the overall state computed from the module states.
\<close>

section \<open>Definitions\<close>

definition RUNNING :: string where [agent_defs]: "RUNNING = ''RUNNING''"
definition STOPPED :: string where [agent_defs]: "STOPPED = ''STOPPED''"
definition SUCCESS :: string where [agent_defs]: "SUCCESS = ''SUCCESS''"
definition ERROR :: string where [agent_defs]: "ERROR = ''ERROR''"

record detail_status =
  ds_status :: string
  ds_message :: string
  ds_states :: "(string, string) hmap option"

record agent_status =
  as_version :: string
  as_status :: string
  monitorStatus :: detail_status
  keyLatchStatus :: detail_status
  ebpfProgramStatus :: detail_status
  proxyListenerStatus :: detail_status
  telemetryLoggerStatus :: detail_status
  proxyConnectionsCount :: u128

record proxy_summary =
  ps_method :: string
  ps_url :: string
  ps_clientIp :: string
  ps_ip :: string
  ps_port :: u16
  ps_userId :: u64
  ps_userName :: string
  ps_userGroups :: "string list"
  ps_processFullPath :: string
  ps_processCmdLine :: string
  ps_runAsElevated :: bool
  ps_responseStatus :: string
  ps_elapsedTime :: u128

definition to_key_string :: "proxy_summary \<Rightarrow> string" where
  "to_key_string s = ps_userName s @ '' '' @ ps_clientIp s @ '' '' @ ps_ip s @ '' ''
     @ show_nat (unat (ps_port s)) @ '' '' @ ps_processFullPath s @ '' '' @ ps_processCmdLine s @ '' ''
     @ ps_responseStatus s"

record connection_summary =
  cs_userName :: string
  cs_userGroups :: "string list"
  cs_ip :: string
  cs_port :: u16
  cs_processFullPath :: string
  cs_processCmdLine :: string
  cs_responseStatus :: string
  cs_count :: u64

definition proxy_connection_summary_new :: "proxy_summary \<Rightarrow> connection_summary" where
  "proxy_connection_summary_new s =
     \<lparr>cs_userName = ps_userName s, cs_userGroups = ps_userGroups s, cs_ip = ps_ip s, cs_port = ps_port s,
      cs_processFullPath = ps_processFullPath s, cs_processCmdLine = ps_processCmdLine s,
      cs_responseStatus = ps_responseStatus s, cs_count = 1\<rparr>"

text \<open>The count is a \<^verbatim>\<open>u64\<close>; the release build wraps.\<close>

definition increase_count :: "connection_summary \<Rightarrow> connection_summary" where
  "increase_count c = c\<lparr>cs_count := cs_count c + 1\<rparr>"

type_synonym summary_map = "(string, connection_summary) hmap"

record status_state =
  SUMMARY_MAP :: summary_map
  FAILED_AUTHENTICATE_SUMMARY_MAP :: summary_map

definition status_state_new :: status_state where
  "status_state_new = \<lparr>SUMMARY_MAP = [], FAILED_AUTHENTICATE_SUMMARY_MAP = []\<rparr>"

definition add_to_summary_map :: "proxy_summary \<Rightarrow> summary_map \<Rightarrow> summary_map" where
  "add_to_summary_map s m =
     (let summary_key = to_key_string s
      in case hm_get m summary_key of
           None \<Rightarrow> hm_insert summary_key (proxy_connection_summary_new s) m
         | Some c \<Rightarrow> hm_insert summary_key (increase_count c) m)"

definition add_connection_summary :: "proxy_summary \<Rightarrow> bool \<Rightarrow> status_state \<Rightarrow> status_state" where
  "add_connection_summary s is_failed_authenticate st =
     (if is_failed_authenticate
      then st\<lparr>FAILED_AUTHENTICATE_SUMMARY_MAP := add_to_summary_map s (FAILED_AUTHENTICATE_SUMMARY_MAP st)\<rparr>
      else st\<lparr>SUMMARY_MAP := add_to_summary_map s (SUMMARY_MAP st)\<rparr>)"

definition get_all_connection_summary :: "bool \<Rightarrow> status_state \<Rightarrow> connection_summary list" where
  "get_all_connection_summary is_failed_authenticate st =
     map snd (if is_failed_authenticate then FAILED_AUTHENTICATE_SUMMARY_MAP st else SUMMARY_MAP st)"

text \<open>
  \<^verbatim>\<open>proxy_agent_status_new\<close>: the module states are read by the \<^verbatim>\<open>get_status\<close> functions of the modules.
\<close>

definition proxy_agent_status_new ::
    "string \<Rightarrow> detail_status \<Rightarrow> detail_status \<Rightarrow> detail_status \<Rightarrow> detail_status \<Rightarrow> detail_status \<Rightarrow> u128
       \<Rightarrow> agent_status" where
  "proxy_agent_status_new ver monitor key_latch ebpf proxy telemetry cnt =
     \<lparr>as_version = ver,
      as_status = (if ds_status key_latch \<noteq> RUNNING \<or> ds_status ebpf \<noteq> RUNNING
                     \<or> ds_status proxy \<noteq> RUNNING then ERROR else SUCCESS),
      monitorStatus = monitor, keyLatchStatus = key_latch, ebpfProgramStatus = ebpf,
      proxyListenerStatus = proxy, telemetryLoggerStatus = telemetry, proxyConnectionsCount = cnt\<rparr>"

record aggregate_status =
  timestamp :: string
  proxyAgentStatus :: agent_status
  proxyConnectionSummary :: "connection_summary list"
  failedAuthenticateSummary :: "connection_summary list"

definition guest_proxy_agent_aggregate_status_new :: "string \<Rightarrow> agent_status \<Rightarrow> status_state \<Rightarrow> aggregate_status" where
  "guest_proxy_agent_aggregate_status_new now agent st =
     \<lparr>timestamp = now, proxyAgentStatus = agent,
      proxyConnectionSummary = get_all_connection_summary False st,
      failedAuthenticateSummary = get_all_connection_summary True st\<rparr>"

text \<open>
  One round of the loop of \<^verbatim>\<open>start\<close>: the aggregate is computed from the maps, then both maps are
  cleared when 24 hours have passed since the last clearing. \<open>elapsed\<close> is in seconds.
\<close>

definition map_clear_duration :: nat where "map_clear_duration = 60 * 60 * 24"

definition status_round :: "string \<Rightarrow> agent_status \<Rightarrow> nat \<Rightarrow> status_state \<Rightarrow> aggregate_status \<times> status_state" where
  "status_round now agent elapsed st =
     (guest_proxy_agent_aggregate_status_new now agent st,
      if map_clear_duration \<le> elapsed
      then st\<lparr>SUMMARY_MAP := [], FAILED_AUTHENTICATE_SUMMARY_MAP := []\<rparr> else st)"

section \<open>The summary maps count connections\<close>

text \<open>
  Specification: a summary map holds, for each key, the first summary with that key and how often the
  key occurred.
\<close>

definition summary_spec :: "proxy_summary list \<Rightarrow> string \<Rightarrow> connection_summary option" where
  "summary_spec ss k =
     (case filter (\<lambda>s. to_key_string s = k) ss of
        [] \<Rightarrow> None
      | s # rest \<Rightarrow> Some ((proxy_connection_summary_new s)\<lparr>cs_count := word_of_nat (Suc (length rest))\<rparr>))"

lemma summary_spec_snoc:
  "summary_spec (ss @ [s]) k =
     (if to_key_string s = k
      then (case summary_spec ss k of
              None \<Rightarrow> Some (proxy_connection_summary_new s)
            | Some c \<Rightarrow> Some (increase_count c))
      else summary_spec ss k)"
  by (auto simp: summary_spec_def increase_count_def proxy_connection_summary_new_def add.commute
      split: list.splits)

lemma hm_get_add_to_summary_map:
  "hm_get (add_to_summary_map s m) k =
     (if to_key_string s = k
      then (case hm_get m k of
              None \<Rightarrow> Some (proxy_connection_summary_new s)
            | Some c \<Rightarrow> Some (increase_count c))
      else hm_get m k)"
  by (auto simp: add_to_summary_map_def Let_def split: option.splits)

lemma add_to_summary_map_inv [simp]: "hm_inv m \<Longrightarrow> hm_inv (add_to_summary_map s m)"
  by (auto simp: add_to_summary_map_def Let_def split: option.splits)

text \<open>The reported summaries of a map with this content: one for each key, in any order.\<close>

definition summaries_exact :: "connection_summary list \<Rightarrow> proxy_summary list \<Rightarrow> bool" where
  "summaries_exact cs ss \<longleftrightarrow> set cs = ran (summary_spec ss) \<and> length cs = card (to_key_string ` set ss)"

lemma summaries_exact_map:
  assumes "hm_inv m" and "hm_get m = summary_spec ss"
  shows "summaries_exact (map snd m) ss"
proof -
  have "dom (summary_spec ss) = to_key_string ` set ss"
    by (auto simp: summary_spec_def dom_def filter_empty_conv split: list.splits)
  then have "length m = card (to_key_string ` set ss)"
    using hm.card_dom_get [OF assms(1)] assms(2) by simp
  moreover have "set (map snd m) = ran (hm_get m)"
    using assms(1) ran_distinct [of m] unfolding hm_inv_def by simp
  ultimately show ?thesis
    using assms(2) by (simp add: summaries_exact_def)
qed

text \<open>The proxy threads add summaries in any order; each addition is one step.\<close>

definition summary_step :: "proxy_summary \<times> bool \<Rightarrow> status_state \<Rightarrow> status_state" where
  "summary_step e st = add_connection_summary (fst e) (snd e) st"

definition status_inv :: "status_state \<Rightarrow> bool" where
  "status_inv st \<longleftrightarrow> hm_inv (SUMMARY_MAP st) \<and> hm_inv (FAILED_AUTHENTICATE_SUMMARY_MAP st)"

interpretation summary: step_system summary_step status_inv
  by unfold_locales (simp add: status_inv_def summary_step_def add_connection_summary_def)

lemma status_inv_new [simp]: "status_inv status_state_new"
  by (simp add: status_inv_def status_state_new_def)

definition summaries_of :: "bool \<Rightarrow> (proxy_summary \<times> bool) list \<Rightarrow> proxy_summary list" where
  "summaries_of failed es = map fst (filter (\<lambda>e. snd e = failed) es)"

lemma summary_run_get:
  "hm_get (SUMMARY_MAP (fold summary_step es status_state_new)) k = summary_spec (summaries_of False es) k
   \<and> hm_get (FAILED_AUTHENTICATE_SUMMARY_MAP (fold summary_step es status_state_new)) k
       = summary_spec (summaries_of True es) k"
proof (induction es rule: rev_induct)
  case Nil
  show ?case by (simp add: status_state_new_def summary_spec_def summaries_of_def)
next
  case (snoc e es)
  then show ?case
    by (cases e; cases "snd e")
       (simp_all add: summary_step_def add_connection_summary_def summaries_of_def
          hm_get_add_to_summary_map summary_spec_snoc)
qed

section \<open>Properties\<close>

text \<open>C32: After any sequence of recorded connections, the reported connection summaries are exactly one
  per distinct key, each carrying the data of the first connection with that key and the number of
  connections with it; failed authentications and forwarded connections never mix.\<close>

theorem summaries_count_connections:
  "set (get_all_connection_summary failed (fold summary_step es status_state_new))
     = ran (summary_spec (summaries_of failed es))
   \<and> length (get_all_connection_summary failed (fold summary_step es status_state_new))
     = card (to_key_string ` set (summaries_of failed es))"
proof -
  let ?m = "if failed then FAILED_AUTHENTICATE_SUMMARY_MAP (fold summary_step es status_state_new)
    else SUMMARY_MAP (fold summary_step es status_state_new)"
  have inv: "hm_inv ?m"
    using summary.run_inv [OF status_inv_new, of es] by (simp add: status_inv_def)
  have get: "hm_get ?m = summary_spec (summaries_of failed es)"
    by (rule ext) (simp add: summary_run_get)
  from summaries_exact_map [OF inv get] show ?thesis
    by (simp add: summaries_exact_def get_all_connection_summary_def)
qed

text \<open>The agent reports overall success exactly when the key latch, the redirector and the proxy
  listener are all running; the monitor and the telemetry logger do not count.\<close>

theorem overall_status_spec:
  "as_status (proxy_agent_status_new ver monitor key_latch ebpf proxy telemetry cnt) = SUCCESS
     \<longleftrightarrow> ds_status key_latch = RUNNING \<and> ds_status ebpf = RUNNING \<and> ds_status proxy = RUNNING"
  by (simp add: proxy_agent_status_new_def agent_defs)

end
