(* ===== verification/Json_File.thy ===== *)
theory Json_File
  imports Rust_Str
begin

text \<open>
  The JSON helpers of \<^verbatim>\<open>misc_helpers.rs\<close>: writing a value to a file, reading it back, cloning it through its text.
\<close>

section \<open>Definitions\<close>

text \<open>
  \<^verbatim>\<open>serde_json\<close> is a parameter: the text of a value, and the value of a text or an error. The operating system's part of a
  write is the result of creating the file and the number of bytes after which the writing fails.
\<close>

definition json_write_to_file :: "('a \<Rightarrow> string) \<Rightarrow> unit io_result \<Rightarrow> (nat \<times> error_kind) option \<Rightarrow> 'a \<Rightarrow> string option \<Rightarrow> unit io_result \<times> string option" where
  "json_write_to_file encode create failure obj content =
     (case create of
        Inl e \<Rightarrow> (Inl e, content)
      | Inr _ \<Rightarrow>
          (case failure of
             Some (n, e) \<Rightarrow> if n < length (encode obj) then (Inl e, Some (take n (encode obj))) else (Inr (), Some (encode obj))
           | None \<Rightarrow> (Inr (), Some (encode obj))))"

definition json_read_from_file :: "(string \<Rightarrow> 'a io_result) \<Rightarrow> string io_result \<Rightarrow> 'a io_result" where
  "json_read_from_file decode content = io_bind content decode"

definition json_clone :: "('a \<Rightarrow> string io_result) \<Rightarrow> (string \<Rightarrow> 'a io_result) \<Rightarrow> 'a \<Rightarrow> 'a io_result" where
  "json_clone encode decode obj =
     io_bind (encode obj) (\<lambda>json. case decode json of Inr obj' \<Rightarrow> Inr obj' | Inl e \<Rightarrow> Inl Other)"

text \<open>What is relied on for a value: its text is read back, and a text that stops before its end is an error.\<close>

definition json_law :: "('a \<Rightarrow> string) \<Rightarrow> (string \<Rightarrow> 'a io_result) \<Rightarrow> 'a \<Rightarrow> bool" where
  "json_law encode decode x \<longleftrightarrow> decode (encode x) = Inr x \<and> (\<forall>p. strict_prefix p (encode x) \<longrightarrow> \<not> is_ok (decode p))"

section \<open>Lemmas\<close>

text \<open>A write followed by a read gives the value, or the error of the write comes with a text that is not read as a value.\<close>

lemma json_write_read:
  assumes "json_law encode decode x" and "json_write_to_file encode (Inr ()) failure x content = (r, Some content')"
  shows "case r of Inr _ \<Rightarrow> json_read_from_file decode (Inr content') = Inr x
    | Inl _ \<Rightarrow> \<not> is_ok (json_read_from_file decode (Inr content'))"
proof -
  have "strict_prefix (take n (encode x)) (encode x)" if "n < length (encode x)" for n
    using that by (metis take_is_prefix strict_prefixI length_take min_less_iff_conj nat_neq_iff)
  with assms show ?thesis
    by (auto simp: json_write_to_file_def json_read_from_file_def json_law_def split: option.splits if_splits)
qed

lemma json_clone_same: "encode x = Inr t \<Longrightarrow> decode t = Inr x \<Longrightarrow> json_clone encode decode x = Inr x"
  by (simp add: json_clone_def)

end
