(* ===== verification/Authorization.thy ===== *)
theory Authorization
  imports Key_Status Agent_Status Json_File
begin

text \<open>
  \<^verbatim>\<open>proxy_agent/src/proxy/authorization_rules.rs\<close> and \<^verbatim>\<open>proxy_agent/src/proxy/proxy_authentication.rs\<close>: the
  access rules in force and the decision whether a connection may reach its endpoint. The denied
  requests are recorded in the status maps of \<open>Agent_Status\<close>. Log lines are not modelled.
\<close>

section \<open>Rules\<close>

record authz_rule =
  rule_roleName :: string
  rule_privileges :: "privilege list"
  rule_identities :: "identity list"

record authorization_rules =
  ar_defaultAllowed :: bool
  ar_mode :: string
  ar_rules :: "authz_rule list option"

definition authorization_rules_new :: authorization_rules where
  "authorization_rules_new = \<lparr>ar_defaultAllowed = False, ar_mode = ''disabled'', ar_rules = None\<rparr>"

definition authorization_rules_clone ::
    "(authorization_rules \<Rightarrow> string io_result) \<Rightarrow> (string \<Rightarrow> authorization_rules io_result) \<Rightarrow> authorization_rules \<Rightarrow> authorization_rules" where
  "authorization_rules_clone encode decode rules =
     (case json_clone encode decode rules of Inr rules' \<Rightarrow> rules' | Inl _ \<Rightarrow> authorization_rules_new)"

definition role_assignment_privileges :: "access_control_rules \<Rightarrow> string \<Rightarrow> privilege list" where
  "role_assignment_privileges acr rn =
     (case acr_privileges acr of
        Some input_privileges \<Rightarrow>
          (case acr_roles acr of
             Some roles \<Rightarrow>
               concat (map (\<lambda>r. if role_name r = rn
                                then concat (map (\<lambda>pn. map privilege_clone (filter (\<lambda>p. priv_name p = pn) input_privileges))
                                       (role_privileges r))
                                else []) roles)
           | None \<Rightarrow> [])
      | None \<Rightarrow> [])"

definition role_assignment_identities :: "access_control_rules \<Rightarrow> string list \<Rightarrow> identity list" where
  "role_assignment_identities acr ids =
     (case acr_identities acr of
        Some input_identities \<Rightarrow>
          concat (map (\<lambda>n. map identity_clone (filter (\<lambda>i. id_name i = n) input_identities)) ids)
      | None \<Rightarrow> [])"

definition from_authorization_item :: "authorization_item \<Rightarrow> authorization_rules" where
  "from_authorization_item it =
     \<lparr>ar_defaultAllowed = (to_lowercase (item_defaultAccess it) = ''allow''),
      ar_mode = to_lowercase (item_mode it),
      ar_rules =
        (case item_rules it of
           Some acr \<Rightarrow>
             (case acr_roleAssignments acr of
                Some role_assignments \<Rightarrow>
                  Some (map (\<lambda>a. \<lparr>rule_roleName = ra_role a,
                                  rule_privileges = role_assignment_privileges acr (ra_role a),
                                  rule_identities = role_assignment_identities acr (ra_identities a)\<rparr>)
                          role_assignments)
              | None \<Rightarrow> None)
         | None \<Rightarrow> None)\<rparr>"

text \<open>
  The loops of \<^verbatim>\<open>is_allowed\<close>. A result \<open>None\<close> means that the function returned true from inside the
  loop; otherwise the flag \<^verbatim>\<open>role_privilege_matched\<close> is handed on.
\<close>

fun identity_loop :: "claims \<Rightarrow> identity list \<Rightarrow> bool" where
  "identity_loop c [] = False"
| "identity_loop c (i # is) = (if identity_is_match c i then True else identity_loop c is)"

fun privilege_loop :: "'u url_lib \<Rightarrow> 'u \<Rightarrow> claims \<Rightarrow> identity list \<Rightarrow> bool \<Rightarrow> privilege list \<Rightarrow> bool option" where
  "privilege_loop U u c is matched [] = Some matched"
| "privilege_loop U u c is matched (p # ps) =
     (if privilege_is_match U u p
      then (if identity_loop c is then None else privilege_loop U u c is True ps)
      else privilege_loop U u c is matched ps)"

fun rule_loop :: "'u url_lib \<Rightarrow> 'u \<Rightarrow> claims \<Rightarrow> bool \<Rightarrow> authz_rule list \<Rightarrow> bool option" where
  "rule_loop U u c matched [] = Some matched"
| "rule_loop U u c matched (r # rs) =
     (case privilege_loop U u c (rule_identities r) matched (rule_privileges r) of
        None \<Rightarrow> None
      | Some matched' \<Rightarrow> rule_loop U u c matched' rs)"

definition is_allowed :: "'u url_lib \<Rightarrow> authorization_rules \<Rightarrow> string \<Rightarrow> claims \<Rightarrow> bool" where
  "is_allowed U rules request_url c =
     (if to_lowercase (ar_mode rules) = ''disabled'' then True
      else (case url_parse U (to_lowercase request_url) of
              None \<Rightarrow> False
            | Some u \<Rightarrow>
                (case ar_rules rules of
                   None \<Rightarrow> ar_defaultAllowed rules
                 | Some rs \<Rightarrow>
                     (case rule_loop U u c False rs of
                        None \<Rightarrow> True
                      | Some role_privilege_matched \<Rightarrow>
                          if role_privilege_matched then False else ar_defaultAllowed rules))))"

section \<open>Authentication\<close>

record rule_state =
  WIRESERVER_RULES :: "authorization_rules option"
  IMDS_RULES :: "authorization_rules option"

definition rule_state_new :: rule_state where
  "rule_state_new = \<lparr>WIRESERVER_RULES = None, IMDS_RULES = None\<rparr>"

definition set_wireserver_rules :: "authorization_item option \<Rightarrow> rule_state \<Rightarrow> rule_state" where
  "set_wireserver_rules item_opt st =
     st\<lparr>WIRESERVER_RULES := (case item_opt of Some item \<Rightarrow> Some (from_authorization_item item) | None \<Rightarrow> None)\<rparr>"

definition set_imds_rules :: "authorization_item option \<Rightarrow> rule_state \<Rightarrow> rule_state" where
  "set_imds_rules item_opt st =
     st\<lparr>IMDS_RULES := (case item_opt of Some item \<Rightarrow> Some (from_authorization_item item) | None \<Rightarrow> None)\<rparr>"

text \<open>
  What the decision reads besides the rules: the configuration, the URL parser and the compiled
  regular expression \<^verbatim>\<open>.*python.*walinuxagent\<close> (the \<^verbatim>\<open>regex\<close> crate is third-party code).
\<close>

record 'u auth_env =
  ae_urls :: "'u url_lib"
  LINUX_VM_AGENT_REGEX :: "string \<Rightarrow> bool"
  ae_config :: config

definition VM_APPLICATION_MANAGER_FILE_NAME :: string where
  [agent_defs]: "VM_APPLICATION_MANAGER_FILE_NAME = ''vm-application-manager''"
definition IMMEDIATE_RUNCOMMAND_SERVICE_FILE_NAME :: string where
  [agent_defs]: "IMMEDIATE_RUNCOMMAND_SERVICE_FILE_NAME = ''immediate-run-command-handler''"

definition get_file_name :: "string \<Rightarrow> string" where
  "get_file_name p = (case path_file_name p of Some s \<Rightarrow> s | None \<Rightarrow> ''InvalidPath'')"

definition is_platform_process :: "'u auth_env \<Rightarrow> claims \<Rightarrow> bool" where
  "is_platform_process env c =
     (let process_name = to_lowercase (get_file_name (processName c))
      in if process_name = VM_APPLICATION_MANAGER_FILE_NAME
            \<or> process_name = IMMEDIATE_RUNCOMMAND_SERVICE_FILE_NAME then True
         else if LINUX_VM_AGENT_REGEX env (to_lowercase (processCmdLine c)) then True
         else False)"

text \<open>The summary recorded for a denied request.\<close>

definition denied_summary :: "claims \<Rightarrow> string \<Rightarrow> string \<Rightarrow> u16 \<Rightarrow> proxy_summary" where
  "denied_summary c request_url ip port =
     \<lparr>ps_method = [], ps_url = request_url, ps_clientIp = clientIp c, ps_ip = ip, ps_port = port,
      ps_userId = userId c, ps_userName = userName c, ps_userGroups = userGroups c,
      ps_processFullPath = processFullPath c, ps_processCmdLine = processCmdLine c,
      ps_runAsElevated = runAsElevated c, ps_responseStatus = FORBIDDEN, ps_elapsedTime = 0\<rparr>"

text \<open>The evaluation of the rules that \<^verbatim>\<open>WireServer\<close> and \<^verbatim>\<open>IMDS\<close> share.\<close>

definition rules_authenticate ::
    "'u auth_env \<Rightarrow> authorization_rules \<Rightarrow> claims \<Rightarrow> string \<Rightarrow> u16 \<Rightarrow> string \<Rightarrow> status_state \<Rightarrow> bool \<times> status_state" where
  "rules_authenticate env rules c ip port request_url st =
     (let allowed = is_allowed (ae_urls env) rules request_url c
      in if \<not> allowed
         then (let st' = add_connection_summary (denied_summary c request_url ip port) True st
               in if to_lowercase (ar_mode rules) = ''audit'' then (True, st') else (allowed, st'))
         else (allowed, st))"

definition wireserver_authenticate ::
    "'u auth_env \<Rightarrow> rule_state \<Rightarrow> claims \<Rightarrow> string \<Rightarrow> status_state \<Rightarrow> bool \<times> status_state" where
  "wireserver_authenticate env rs c request_url st =
     (if \<not> runAsElevated c then (False, st)
      else if is_platform_process env c then (True, st)
      else if wireServerSupport (ae_config env) = 2
      then (case WIRESERVER_RULES rs of
              Some rules \<Rightarrow> rules_authenticate env rules c WIRE_SERVER_IP WIRE_SERVER_PORT request_url st
            | None \<Rightarrow> (True, st))
      else (True, st))"

definition imds_authenticate ::
    "'u auth_env \<Rightarrow> rule_state \<Rightarrow> claims \<Rightarrow> string \<Rightarrow> status_state \<Rightarrow> bool \<times> status_state" where
  "imds_authenticate env rs c request_url st =
     (if imdsSupport (ae_config env) = 2
      then (case IMDS_RULES rs of
              Some rules \<Rightarrow> rules_authenticate env rules c IMDS_IP IMDS_PORT request_url st
            | None \<Rightarrow> (True, st))
      else (True, st))"

definition gaplugin_authenticate :: "'u auth_env \<Rightarrow> claims \<Rightarrow> bool" where
  "gaplugin_authenticate env c =
     (if \<not> runAsElevated c then False
      else if hostGAPluginSupport (ae_config env) = 2 then is_platform_process env c
      else True)"

text \<open>The trait object \<^verbatim>\<open>Box<dyn Authenticate>\<close>, one constructor per implementation.\<close>

datatype authenticator = WireServer claims | GAPlugin claims | IMDS claims | ProxyAgent | Default

definition authenticate ::
    "'u auth_env \<Rightarrow> rule_state \<Rightarrow> authenticator \<Rightarrow> string \<Rightarrow> status_state \<Rightarrow> bool \<times> status_state" where
  "authenticate env rs a request_url st =
     (case a of
        WireServer c \<Rightarrow> wireserver_authenticate env rs c request_url st
      | GAPlugin c \<Rightarrow> (gaplugin_authenticate env c, st)
      | IMDS c \<Rightarrow> imds_authenticate env rs c request_url st
      | ProxyAgent \<Rightarrow> (False, st)
      | Default \<Rightarrow> (True, st))"

definition get_authenticate :: "string \<Rightarrow> u16 \<Rightarrow> claims \<Rightarrow> authenticator" where
  "get_authenticate ip port c =
     (if ip = WIRE_SERVER_IP \<and> port = WIRE_SERVER_PORT then WireServer c
      else if ip = GA_PLUGIN_IP \<and> port = GA_PLUGIN_PORT then GAPlugin c
      else if ip = IMDS_IP \<and> port = IMDS_PORT then IMDS c
      else if ip = PROXY_AGENT_IP \<and> port = PROXY_AGENT_PORT then ProxyAgent
      else Default)"

section \<open>The decision of the rules, declaratively\<close>

text \<open>
  Role based access: an assignment gives the privileges its role names and binds the identities it
  names. A request is governed when some assigned privilege matches its URL, and granted when an
  identity of the same assignment matches the claims.
\<close>

definition assigned_privilege :: "access_control_rules \<Rightarrow> role_assignment \<Rightarrow> privilege \<Rightarrow> bool" where
  "assigned_privilege acr a p \<longleftrightarrow>
     (\<exists>ps rs r. acr_privileges acr = Some ps \<and> acr_roles acr = Some rs \<and> p \<in> set ps \<and> r \<in> set rs
        \<and> role_name r = ra_role a \<and> priv_name p \<in> set (role_privileges r))"

definition assigned_identity :: "access_control_rules \<Rightarrow> role_assignment \<Rightarrow> identity \<Rightarrow> bool" where
  "assigned_identity acr a i \<longleftrightarrow>
     (\<exists>is. acr_identities acr = Some is \<and> i \<in> set is \<and> id_name i \<in> set (ra_identities a))"

definition assignments_of :: "authorization_item \<Rightarrow> (access_control_rules \<times> role_assignment) set" where
  "assignments_of it =
     {(acr, a). item_rules it = Some acr \<and> (\<exists>as. acr_roleAssignments acr = Some as \<and> a \<in> set as)}"

definition governed :: "'u url_lib \<Rightarrow> authorization_item \<Rightarrow> 'u \<Rightarrow> bool" where
  "governed U it u \<longleftrightarrow>
     (\<exists>(acr, a) \<in> assignments_of it. \<exists>p. assigned_privilege acr a p \<and> privilege_is_match U u p)"

definition granted :: "'u url_lib \<Rightarrow> authorization_item \<Rightarrow> 'u \<Rightarrow> claims \<Rightarrow> bool" where
  "granted U it u c \<longleftrightarrow>
     (\<exists>(acr, a) \<in> assignments_of it.
        (\<exists>p. assigned_privilege acr a p \<and> privilege_is_match U u p)
        \<and> (\<exists>i. assigned_identity acr a i \<and> identity_is_match c i))"

definition item_allows :: "'u url_lib \<Rightarrow> authorization_item \<Rightarrow> string \<Rightarrow> claims \<Rightarrow> bool" where
  "item_allows U it request_url c \<longleftrightarrow>
     to_lowercase (item_mode it) = ''disabled''
     \<or> (\<exists>u. url_parse U (to_lowercase request_url) = Some u
          \<and> (if governed U it u then granted U it u c
             else to_lowercase (item_defaultAccess it) = ''allow''))"

section \<open>Lemmas on the loops\<close>

lemma identity_loop_iff: "identity_loop c is \<longleftrightarrow> (\<exists>i \<in> set is. identity_is_match c i)"
  by (induction "is") auto

lemma privilege_loop_eq:
  "privilege_loop U u c is m ps =
     (if (\<exists>p \<in> set ps. privilege_is_match U u p) \<and> (\<exists>i \<in> set is. identity_is_match c i) then None
      else Some (m \<or> (\<exists>p \<in> set ps. privilege_is_match U u p)))"
  by (induction ps arbitrary: m) (auto simp: identity_loop_iff)

definition rule_matches :: "'u url_lib \<Rightarrow> 'u \<Rightarrow> authz_rule \<Rightarrow> bool" where
  "rule_matches U u r \<longleftrightarrow> (\<exists>p \<in> set (rule_privileges r). privilege_is_match U u p)"

definition rule_grants :: "'u url_lib \<Rightarrow> 'u \<Rightarrow> claims \<Rightarrow> authz_rule \<Rightarrow> bool" where
  "rule_grants U u c r \<longleftrightarrow> rule_matches U u r \<and> (\<exists>i \<in> set (rule_identities r). identity_is_match c i)"

lemma rule_loop_eq:
  "rule_loop U u c m rs =
     (if \<exists>r \<in> set rs. rule_grants U u c r then None else Some (m \<or> (\<exists>r \<in> set rs. rule_matches U u r)))"
  by (induction rs arbitrary: m) (auto simp: privilege_loop_eq rule_grants_def rule_matches_def)

lemma is_allowed_iff:
  "is_allowed U rules request_url c \<longleftrightarrow>
     to_lowercase (ar_mode rules) = ''disabled''
     \<or> (\<exists>u. url_parse U (to_lowercase request_url) = Some u
          \<and> (let rs = (case ar_rules rules of None \<Rightarrow> [] | Some rs \<Rightarrow> rs)
             in if \<exists>r \<in> set rs. rule_matches U u r then \<exists>r \<in> set rs. rule_grants U u c r
                else ar_defaultAllowed rules))"
  by (auto simp: is_allowed_def rule_loop_eq rule_grants_def Let_def split: option.splits)

lemma set_role_assignment_privileges:
  "p \<in> set (role_assignment_privileges acr (ra_role a)) \<longleftrightarrow> assigned_privilege acr a p"
  by (cases "acr_privileges acr"; cases "acr_roles acr")
     (auto simp: role_assignment_privileges_def assigned_privilege_def split: if_splits)

lemma set_role_assignment_identities:
  "i \<in> set (role_assignment_identities acr (ra_identities a)) \<longleftrightarrow> assigned_identity acr a i"
  by (cases "acr_identities acr") (auto simp: role_assignment_identities_def assigned_identity_def)

definition item_rule :: "access_control_rules \<Rightarrow> role_assignment \<Rightarrow> authz_rule" where
  "item_rule acr a = \<lparr>rule_roleName = ra_role a,
     rule_privileges = role_assignment_privileges acr (ra_role a),
     rule_identities = role_assignment_identities acr (ra_identities a)\<rparr>"

lemma item_rule_sem:
  "rule_matches U u (item_rule acr a) \<longleftrightarrow> (\<exists>p. assigned_privilege acr a p \<and> privilege_is_match U u p)"
  "rule_grants U u c (item_rule acr a) \<longleftrightarrow>
     (\<exists>p. assigned_privilege acr a p \<and> privilege_is_match U u p)
     \<and> (\<exists>i. assigned_identity acr a i \<and> identity_is_match c i)"
  by (simp_all add: rule_matches_def rule_grants_def item_rule_def Bex_def set_role_assignment_privileges
      set_role_assignment_identities)

lemma item_rules_set:
  "set (case ar_rules (from_authorization_item it) of None \<Rightarrow> [] | Some rs \<Rightarrow> rs)
     = (\<lambda>(acr, a). item_rule acr a) ` assignments_of it"
  by (auto simp: from_authorization_item_def assignments_of_def item_rule_def image_iff split: option.splits)

lemma is_allowed_item: "is_allowed U (from_authorization_item it) request_url c \<longleftrightarrow> item_allows U it request_url c"
proof -
  have "(\<exists>r \<in> set (case ar_rules (from_authorization_item it) of None \<Rightarrow> [] | Some rs \<Rightarrow> rs). P r)
      \<longleftrightarrow> (\<exists>(acr, a) \<in> assignments_of it. P (item_rule acr a))" for P
    unfolding item_rules_set by (simp add: case_prod_beta)
  then show ?thesis
    by (simp add: is_allowed_iff Let_def item_allows_def governed_def granted_def item_rule_sem)
       (simp add: from_authorization_item_def)
qed

section \<open>The trait \<^verbatim>\<open>Authenticate\<close>\<close>

text \<open>
  What the proxy relies on, whichever implementation stands behind the trait object: the verdict does
  not depend on what has been recorded, only the map of failed authentications can change, and the
  maps stay well formed.
\<close>

locale authenticate_trait =
  fixes auth :: "string \<Rightarrow> status_state \<Rightarrow> bool \<times> status_state"
  assumes verdict_stateless: "fst (auth request_url st) = fst (auth request_url st')"
    and keeps_summaries: "SUMMARY_MAP (snd (auth request_url st)) = SUMMARY_MAP st"
    and keeps_inv: "status_inv st \<Longrightarrow> status_inv (snd (auth request_url st))"
begin

definition auth_all :: "string list \<Rightarrow> status_state \<Rightarrow> bool list \<times> status_state" where
  "auth_all urls st =
     fold (\<lambda>w (vs, s). (vs @ [fst (auth w s)], snd (auth w s))) urls ([], st)"

lemma auth_all_snoc:
  "auth_all (us @ [w]) st =
     (fst (auth_all us st) @ [fst (auth w (snd (auth_all us st)))], snd (auth w (snd (auth_all us st))))"
  by (simp add: auth_all_def case_prod_beta)

text \<open>The verdicts on a sequence of requests are those on each request alone.\<close>

lemma auth_all_verdicts: "fst (auth_all us st) = map (\<lambda>w. fst (auth w st)) us"
proof (induction us rule: rev_induct)
  case Nil
  show ?case by (simp add: auth_all_def)
next
  case (snoc w us)
  then show ?case
    using verdict_stateless [of w "snd (auth_all us st)" st] by (simp add: auth_all_snoc)
qed

lemma auth_all_frame: "SUMMARY_MAP (snd (auth_all us st)) = SUMMARY_MAP st"
  by (induction us rule: rev_induct) (simp_all add: auth_all_snoc keeps_summaries, simp add: auth_all_def)

lemma auth_all_inv: "status_inv st \<Longrightarrow> status_inv (snd (auth_all us st))"
  by (induction us rule: rev_induct) (simp_all add: auth_all_snoc keeps_inv, simp add: auth_all_def)

end

lemma rules_authenticate_eq:
  "rules_authenticate env rules c ip port w st =
     (is_allowed (ae_urls env) rules w c \<or> to_lowercase (ar_mode rules) = ''audit'',
      if is_allowed (ae_urls env) rules w c then st
      else add_connection_summary (denied_summary c w ip port) True st)"
  by (simp add: rules_authenticate_def Let_def)

lemma add_failed_frame [agent_frame]:
  "SUMMARY_MAP (add_connection_summary s True st) = SUMMARY_MAP st"
  "status_inv st \<Longrightarrow> status_inv (add_connection_summary s f st)"
  using summary.step_inv [of st "(s, f)"] by (simp_all add: add_connection_summary_def summary_step_def)

lemmas authenticate_defs =
  authenticate_def wireserver_authenticate_def imds_authenticate_def rules_authenticate_eq

interpretation authn: authenticate_trait "authenticate env rs a" for env rs a
proof (unfold_locales)
  fix w st st'
  show "fst (authenticate env rs a w st) = fst (authenticate env rs a w st')"
    by (simp add: authenticate_defs split: authenticator.split option.split)
  show "SUMMARY_MAP (snd (authenticate env rs a w st)) = SUMMARY_MAP st"
    by (simp add: authenticate_defs agent_frame split: authenticator.split option.split)
  show "status_inv st \<Longrightarrow> status_inv (snd (authenticate env rs a w st))"
    by (simp add: authenticate_defs agent_frame split: authenticator.split option.split)
qed

section \<open>Properties\<close>

text \<open>C3: The rules built from the host's authorization item decide exactly as the item says: disabled
  rules allow everything; otherwise a URL that does not parse is denied, a request governed by an
  assigned privilege needs an identity of the same role assignment, and any other request gets the
  default access. Nothing depends on the order of rules, privileges or identities.\<close>

theorem rules_decide_rbac:
  "is_allowed U (from_authorization_item it) request_url c \<longleftrightarrow> item_allows U it request_url c"
  by (rule is_allowed_item)

text \<open>C5: The verdict for a WireServer request. Only an elevated process passes; a platform process
  passes without looking at the rules; with authentication support on and rules installed the rules
  decide, audit mode letting every request through; a request the rules deny is recorded as a failed
  authentication and nothing else is recorded.\<close>

theorem wireserver_verdict:
  "authenticate env rs (WireServer c) w st =
     (let consult = runAsElevated c \<and> \<not> is_platform_process env c \<and> wireServerSupport (ae_config env) = 2;
          denied = (\<exists>rules. WIRESERVER_RULES rs = Some rules \<and> \<not> is_allowed (ae_urls env) rules w c);
          audit = (\<exists>rules. WIRESERVER_RULES rs = Some rules \<and> to_lowercase (ar_mode rules) = ''audit'')
      in (runAsElevated c \<and> (if consult \<and> denied then audit else True),
          if consult \<and> denied
          then add_connection_summary (denied_summary c w WIRE_SERVER_IP WIRE_SERVER_PORT) True st else st))"
  by (auto simp: authenticate_defs Let_def split: option.splits)


text \<open>C6: The verdict for an IMDS request: with authentication support on and rules installed the rules
  decide for every process, audit mode letting every request through and each denial being recorded;
  in every other case the request passes.\<close>

theorem imds_verdict:
  "authenticate env rs (IMDS c) w st =
     (let denied = (imdsSupport (ae_config env) = 2
            \<and> (\<exists>rules. IMDS_RULES rs = Some rules \<and> \<not> is_allowed (ae_urls env) rules w c));
          audit = (\<exists>rules. IMDS_RULES rs = Some rules \<and> to_lowercase (ar_mode rules) = ''audit'')
      in (if denied then audit else True,
          if denied then add_connection_summary (denied_summary c w IMDS_IP IMDS_PORT) True st else st))"
  by (auto simp: authenticate_defs Let_def split: option.splits)

text \<open>C7: Whatever the rules, the configuration and the request, an authenticated connection never goes
  to the proxy listener itself, one to WireServer or the guest agent plugin comes from an elevated
  process, and with authentication support for the plugin on it comes from a platform process.\<close>

theorem authenticated_endpoints:
  assumes "fst (authenticate env rs (get_authenticate ip port c) w st)"
  shows "(ip, port) \<noteq> (PROXY_AGENT_IP, PROXY_AGENT_PORT)
    \<and> ((ip, port) \<in> {(WIRE_SERVER_IP, WIRE_SERVER_PORT), (GA_PLUGIN_IP, GA_PLUGIN_PORT)} \<longrightarrow> runAsElevated c)
    \<and> ((ip, port) = (GA_PLUGIN_IP, GA_PLUGIN_PORT) \<and> hostGAPluginSupport (ae_config env) = 2
         \<longrightarrow> is_platform_process env c)"
proof (intro conjI impI)
  show "(ip, port) \<noteq> (PROXY_AGENT_IP, PROXY_AGENT_PORT)"
    using assms by (auto simp: get_authenticate_def authenticate_defs agent_defs)
  show "(ip, port) \<in> {(WIRE_SERVER_IP, WIRE_SERVER_PORT), (GA_PLUGIN_IP, GA_PLUGIN_PORT)} \<Longrightarrow> runAsElevated c"
    using assms by (auto simp: get_authenticate_def authenticate_defs gaplugin_authenticate_def split: if_splits)
  assume ga: "(ip, port) = (GA_PLUGIN_IP, GA_PLUGIN_PORT) \<and> hostGAPluginSupport (ae_config env) = 2"
  moreover have "GA_PLUGIN_PORT \<noteq> WIRE_SERVER_PORT"
    by (simp add: agent_defs)
  ultimately show "is_platform_process env c"
    using assms by (simp add: get_authenticate_def authenticate_defs gaplugin_authenticate_def split: if_splits)
qed

definition example_config :: config where
  "example_config = \<lparr>logFolder = ''/l'', eventFolder = ''/e'', latchKeyFolder = ''/k'', startRedirector = None,
     monitorIntervalInSeconds = 60, pollKeyStatusIntervalInSeconds = 15, wireServerSupport = 2,
     hostGAPluginSupport = 2, imdsSupport = 2, maxEventFileCount = None, ebpfProgramName = ''ebpf.o'',
     cgroupRoot = None, fallBackWithIpTableRedirect = None\<rparr>"

definition example_env :: "(string \<times> (string \<times> string) list) auth_env" where
  "example_env = \<lparr>ae_urls = example_urls, LINUX_VM_AGENT_REGEX = (\<lambda>s. s = ''python walinuxagent''),
     ae_config = example_config\<rparr>"

theorem authenticated_endpoints_witness:
  "is_platform_process example_env (claims_empty\<lparr>runAsElevated := True, processCmdLine := ''Python WALinuxAgent''\<rparr>)"
proof -
  let ?c = "claims_empty\<lparr>runAsElevated := True, processCmdLine := ''Python WALinuxAgent''\<rparr>"
  have "fst (authenticate example_env rule_state_new (get_authenticate GA_PLUGIN_IP GA_PLUGIN_PORT ?c) [] status_state_new)"
    by code_simp
  from authenticated_endpoints [OF this] show ?thesis
    by (simp add: example_env_def example_config_def)
qed

text \<open>A request URL the URL parser rejects, as it rejects the origin-form targets such as /metadata
  that clients send, is denied by every rule set that is not disabled, whatever its default access:
  the rules never see a privilege or an identity.\<close>

theorem relative_url_denied:
  assumes relative_rejected: "\<forall>s. starts_with s ''/'' \<longrightarrow> url_parse U s = None"
    and "to_lowercase (ar_mode rules) \<noteq> ''disabled''"
  shows "\<not> is_allowed U rules (CHR ''/'' # w) c"
proof -
  have "starts_with (to_lowercase (CHR ''/'' # w)) ''/''"
    by (simp add: to_lowercase_def ascii_lower_def)
  with assms show ?thesis
    by (simp add: is_allowed_def)
qed

theorem relative_url_denied_witness:
  "\<not> is_allowed example_urls \<lparr>ar_defaultAllowed = True, ar_mode = ''enforce'', ar_rules = None\<rparr>
      ''/metadata/instance'' claims_empty"
proof (rule relative_url_denied)
  show "\<forall>s. starts_with s ''/'' \<longrightarrow> url_parse example_urls s = None"
    by (auto simp: example_urls_def)
qed (simp add: to_lowercase_def ascii_lower_def)

text \<open>A privilege whose path holds an upper-case ASCII letter matches no request, because the path of
  the request is lower-cased and the path of the privilege is not.\<close>

theorem upper_case_privilege_never_matches:
  assumes "\<not> is_lower (priv_path p)"
  shows "\<not> privilege_is_match U u p"
  using assms is_lower_prefix [of "priv_path p" "to_lowercase (url_path U u)"]
  by (auto simp: privilege_is_match_iff)

theorem upper_case_privilege_never_matches_witness:
  "\<not> privilege_is_match example_urls (''/vmSettings'', []) \<lparr>priv_name = ''a'', priv_path = ''/vmSettings'',
      priv_queryParameters = None\<rparr>"
  by (rule upper_case_privilege_never_matches) code_simp

text \<open>A copy of the rules is the rules when their JSON text is read back as them; when the copy fails it is the disabled
  rules, which allow every request.\<close>

theorem rules_clone_spec:
  "(\<forall>t. encode rules = Inr t \<and> decode t = Inr rules \<longrightarrow> authorization_rules_clone encode decode rules = rules)
   \<and> (\<not> is_ok (json_clone encode decode rules) \<longrightarrow> is_allowed U (authorization_rules_clone encode decode rules) url c)"
proof -
  have "to_lowercase ''disabled'' = ''disabled''"
    by code_simp
  then show ?thesis
    by (auto simp: authorization_rules_clone_def json_clone_same is_allowed_def authorization_rules_new_def is_ok_iff
        split: sum.splits)
qed

end
