(* ===== verification/Http_Stream.thy ===== *)
theory Http_Stream
  imports Http_Message
begin

text \<open>
  \<^verbatim>\<open>proxy_agent/src/common/http.rs\<close>: reading messages from a TCP stream and forwarding them. A stream is
  the list of results its \<^verbatim>\<open>read\<close> calls will give, the results its \<^verbatim>\<open>write_all\<close> calls will give, and the
  bytes written so far. A stream whose events are used up is at its end: \<^verbatim>\<open>read\<close> returns zero bytes.
  The loops that read a body do not return when the stream ends early; they are partial functions,
  and the value \<open>None\<close> means that the call never returns.
\<close>

section \<open>Streams and buffered readers\<close>

datatype read_event = Chunk string | ReadErr error_kind

text \<open>\<open>WErr n e\<close>: the call fails with \<open>e\<close> after \<open>n\<close> bytes have gone out.\<close>

datatype wr_event = WOk | WErr nat error_kind

record tcp_stream =
  rx :: "read_event list"
  wr :: "wr_event list"
  tx :: string

definition write_all :: "string \<Rightarrow> tcp_stream \<Rightarrow> unit io_result \<times> tcp_stream" where
  "write_all buf s =
     (case wr s of
        WErr n e # ws \<Rightarrow> (Inl e, s\<lparr>wr := ws, tx := tx s @ take n buf\<rparr>)
      | WOk # ws \<Rightarrow> (Inr (), s\<lparr>wr := ws, tx := tx s @ buf\<rparr>)
      | [] \<Rightarrow> (Inr (), s\<lparr>tx := tx s @ buf\<rparr>))"

record buf_reader =
  rbuf :: string
  rstream :: tcp_stream

definition buf_reader_new :: "tcp_stream \<Rightarrow> buf_reader" where
  "buf_reader_new s = \<lparr>rbuf = [], rstream = s\<rparr>"

definition fill_buf :: "buf_reader \<Rightarrow> string io_result \<times> buf_reader" where
  "fill_buf r =
     (if rbuf r \<noteq> [] then (Inr (rbuf r), r)
      else (case rx (rstream r) of
              [] \<Rightarrow> (Inr [], r)
            | Chunk c # es \<Rightarrow> (Inr c, \<lparr>rbuf = c, rstream = (rstream r)\<lparr>rx := es\<rparr>\<rparr>)
            | ReadErr e # es \<Rightarrow> (Inl e, r\<lparr>rstream := (rstream r)\<lparr>rx := es\<rparr>\<rparr>)))"

definition consume :: "nat \<Rightarrow> buf_reader \<Rightarrow> buf_reader" where
  "consume n r = r\<lparr>rbuf := drop n (rbuf r)\<rparr>"

text \<open>The bytes and events a reader still has before it: every loop below uses some of them up.\<close>

primrec event_size :: "read_event \<Rightarrow> nat" where
  "event_size (Chunk c) = Suc (length c)"
| "event_size (ReadErr e) = 1"

definition pending :: "buf_reader \<Rightarrow> nat" where
  "pending r = length (rbuf r) + sum_list (map event_size (rx (rstream r)))"

lemma fill_buf_pending:
  "fill_buf r = (Inl e, r') \<Longrightarrow> pending r' < pending r"
  "fill_buf r = (Inr d, r') \<Longrightarrow> rbuf r' = d \<and> pending r' \<le> pending r"
  by (auto simp: fill_buf_def pending_def split: if_splits list.splits read_event.splits)

lemma consume_pending: "pending (consume n r) + min n (length (rbuf r)) = pending r"
  by (simp add: consume_def pending_def)

lemma fill_consume_pending:
  assumes "fill_buf r = (Inr d, r')" and "n \<le> length d"
  shows "pending (consume n r') + n \<le> pending r"
  using fill_buf_pending(2) [OF assms(1)] consume_pending [of n r'] assms(2) by simp

lemma fill_consume_less: "fill_buf r = (Inr d, r') \<Longrightarrow> d \<noteq> [] \<Longrightarrow> pending (consume (length d) r') < pending r"
  using fill_consume_pending [of r d r' "length d"] by (cases d) auto

section \<open>Lines\<close>

text \<open>\<^verbatim>\<open>BufRead::read_until\<close> with the byte LF: an interrupted read is tried again.\<close>

function read_until_lf :: "buf_reader \<Rightarrow> string \<Rightarrow> string io_result \<times> buf_reader" where
  "read_until_lf r acc =
     (case fill_buf r of
        (Inl e, r') \<Rightarrow> if e = Interrupted then read_until_lf r' acc else (Inl e, r')
      | (Inr avail, r') \<Rightarrow>
          (case find_str LF avail of
             Some i \<Rightarrow> (Inr (acc @ take (i + 1) avail), consume (i + 1) r')
           | None \<Rightarrow>
               if avail = [] then (Inr acc, r')
               else read_until_lf (consume (length avail) r') (acc @ avail)))"
  by pat_completeness auto
termination
  by (relation "measure (\<lambda>(r, acc). pending r)")
     (auto intro: fill_buf_pending(1) [OF sym] fill_consume_less [OF sym])

declare read_until_lf.simps [simp del]

text \<open>\<^verbatim>\<open>BufRead::read_line\<close>: the line, checked to be UTF-8.\<close>

definition read_line :: "buf_reader \<Rightarrow> string io_result \<times> buf_reader" where
  "read_line r =
     (case read_until_lf r [] of
        (Inl e, r') \<Rightarrow> (Inl e, r')
      | (Inr bytes, r') \<Rightarrow> (from_utf8 bytes, r'))"

lemma find_LF_bound: "find_str LF s = Some i \<Longrightarrow> i < length s"
  using find_str_Some_split [of LF s i] by (cases "i = length s") (auto simp: LF_def)

lemma read_until_lf_pending:
  "read_until_lf r acc = (Inr s, r') \<Longrightarrow> pending r' + length s \<le> pending r + length acc"
proof (induction r acc arbitrary: s r' rule: read_until_lf.induct)
  case (1 r acc)
  show ?case
  proof (cases "fill_buf r")
    case (Pair res r1)
    show ?thesis
    proof (cases res)
      case (Inl e)
      with 1 Pair show ?thesis
        using fill_buf_pending(1) [of r e r1]
        by (fastforce simp: read_until_lf.simps [of r acc] split: if_splits)
    next
      case (Inr d)
      show ?thesis
      proof (cases "find_str LF d")
        case (Some i)
        with 1 Pair Inr show ?thesis
          using fill_consume_pending [of r d r1 "i + 1"] find_LF_bound [OF Some]
          by (auto simp: read_until_lf.simps [of r acc])
      next
        case None
        with 1 Pair Inr show ?thesis
          using fill_consume_pending [of r d r1 "length d"] fill_buf_pending(2) [of r d r1]
          by (fastforce simp: read_until_lf.simps [of r acc] split: if_splits)
      qed
    qed
  qed
qed

lemma read_line_pending:
  assumes "read_line r = (Inr line, r')" and "line \<noteq> []"
  shows "pending r' < pending r"
proof -
  have "read_until_lf r [] = (Inr line, r')"
    using assms(1) by (auto simp: read_line_def from_utf8_def split: prod.splits sum.splits if_splits)
  from read_until_lf_pending [OF this] assms(2) show ?thesis
    by (cases line) auto
qed

text \<open>\<^verbatim>\<open>read_header_lines\<close>: lines up to and including the first blank one; the end of the stream is blank.\<close>

function read_header_loop :: "buf_reader \<Rightarrow> string \<Rightarrow> string io_result \<times> buf_reader" where
  "read_header_loop r acc =
     (case read_line r of
        (Inl e, r') \<Rightarrow> (Inl e, r')
      | (Inr line, r') \<Rightarrow>
          if length (trim line) = 0 then (Inr (acc @ line), r') else read_header_loop r' (acc @ line))"
  by pat_completeness auto
termination
  by (relation "measure (\<lambda>(r, acc). pending r)") (auto intro: read_line_pending [OF sym])

declare read_header_loop.simps [simp del]

definition read_header_lines :: "buf_reader \<Rightarrow> string io_result \<times> buf_reader" where
  "read_header_lines r = read_header_loop r []"

section \<open>Bodies\<close>

text \<open>
  The loop of \<^verbatim>\<open>receive_body_internal\<close>. A read error ends it with what has arrived; at the end of the
  stream \<^verbatim>\<open>fill_buf\<close> keeps returning an empty slice and the loop goes on.
\<close>

partial_function (option) receive_body_loop :: "nat \<Rightarrow> buf_reader \<Rightarrow> string \<Rightarrow> (string \<times> buf_reader) option" where
  "receive_body_loop len r data =
     (if length data < len
      then (case fill_buf r of
              (Inr d, r') \<Rightarrow> receive_body_loop len (consume (length d) r') (data @ d)
            | (Inl e, r') \<Rightarrow> Some (data, r'))
      else Some (data, r))"

definition receive_body_internal :: "nat \<Rightarrow> buf_reader \<Rightarrow> (string io_result \<times> buf_reader) option" where
  "receive_body_internal len r =
     (case receive_body_loop len r [] of None \<Rightarrow> None | Some (data, r') \<Rightarrow> Some (Inr data, r'))"

definition receive_body :: "tcp_stream \<Rightarrow> nat \<Rightarrow> (string io_result \<times> tcp_stream) option" where
  "receive_body s content_length =
     (case receive_body_internal content_length (buf_reader_new s) of
        None \<Rightarrow> None | Some (res, r) \<Rightarrow> Some (res, rstream r))"

text \<open>\<^verbatim>\<open>stream_body_internal\<close>: the destination and the number of bytes received are threaded through.\<close>

partial_function (option) stream_body_loop ::
    "nat \<Rightarrow> buf_reader \<Rightarrow> tcp_stream \<Rightarrow> nat \<Rightarrow> (nat io_result \<times> buf_reader \<times> tcp_stream) option" where
  "stream_body_loop len r dst received =
     (if received < len
      then (case fill_buf r of
              (Inr d, r') \<Rightarrow>
                (case write_all d dst of
                   (Inl e, dst') \<Rightarrow> Some (Inl e, r', dst')
                 | (Inr _, dst') \<Rightarrow>
                     stream_body_loop len (consume (length d) r') dst' (received + length d))
            | (Inl e, r') \<Rightarrow> Some (Inr received, r', dst))
      else Some (Inr received, r, dst))"

definition stream_body_internal ::
    "buf_reader \<Rightarrow> tcp_stream \<Rightarrow> nat \<Rightarrow> (nat io_result \<times> buf_reader \<times> tcp_stream) option" where
  "stream_body_internal r dst len = stream_body_loop len r dst 0"

text \<open>\<^verbatim>\<open>stream_body\<close>: result, source and destination afterwards.\<close>

definition stream_body ::
    "tcp_stream \<Rightarrow> tcp_stream \<Rightarrow> nat \<Rightarrow> (nat io_result \<times> tcp_stream \<times> tcp_stream) option" where
  "stream_body src dst content_length =
     (case stream_body_internal (buf_reader_new src) dst content_length of
        None \<Rightarrow> None | Some (res, r, dst') \<Rightarrow> Some (res, rstream r, dst'))"

section \<open>Messages\<close>

definition receive_request_data :: "tcp_stream \<Rightarrow> (request io_result \<times> tcp_stream) option" where
  "receive_request_data s =
     (case read_line (buf_reader_new s) of
        (Inl e, r) \<Rightarrow> Some (Inl e, rstream r)
      | (Inr line, r) \<Rightarrow>
          (case from_first_line line of
             Inl e \<Rightarrow> Some (Inl e, rstream r)
           | Inr req \<Rightarrow>
               (case read_header_lines r of
                  (Inl e, r') \<Rightarrow> Some (Inl e, rstream r')
                | (Inr hl, r') \<Rightarrow>
                    (let req' = req\<lparr>req_headers := headers_from_raw_data hl\<rparr>
                     in if \<not> expect_continue_request req'
                        then (case get_content_length (req_headers req') of
                                Inl e \<Rightarrow> Some (Inl e, rstream r')
                              | Inr content_length \<Rightarrow>
                                  (case receive_body_internal content_length r' of
                                     None \<Rightarrow> None
                                   | Some (Inl e, r'') \<Rightarrow> Some (Inl e, rstream r'')
                                   | Some (Inr data, r'') \<Rightarrow> Some (Inr (req'\<lparr>req_body := data\<rparr>), rstream r'')))
                        else Some (Inr req', rstream r')))))"

definition read_response_without_body :: "buf_reader \<Rightarrow> response io_result \<times> buf_reader" where
  "read_response_without_body r =
     (case read_line r of
        (Inl e, r') \<Rightarrow> (Inl e, r')
      | (Inr line, r') \<Rightarrow>
          (case read_header_lines r' of
             (Inl e, r'') \<Rightarrow> (Inl e, r'')
           | (Inr hl, r'') \<Rightarrow>
               (Inr ((response_from_first_line line)\<lparr>resp_headers := headers_from_raw_data hl\<rparr>), r'')))"

definition receive_response_data :: "tcp_stream \<Rightarrow> (response io_result \<times> tcp_stream) option" where
  "receive_response_data s =
     (case read_response_without_body (buf_reader_new s) of
        (Inl e, r) \<Rightarrow> Some (Inl e, rstream r)
      | (Inr resp, r) \<Rightarrow>
          (case get_content_length (resp_headers resp) of
             Inl e \<Rightarrow> Some (Inl e, rstream r)
           | Inr content_length \<Rightarrow>
               (case receive_body_internal content_length r of
                  None \<Rightarrow> None
                | Some (Inl e, r') \<Rightarrow> Some (Inl e, rstream r')
                | Some (Inr data, r') \<Rightarrow> Some (Inr (resp\<lparr>resp_body := data\<rparr>), rstream r'))))"

definition receive_data_in_string :: "tcp_stream \<Rightarrow> string io_result \<times> tcp_stream" where
  "receive_data_in_string s =
     (case fill_buf (buf_reader_new s) of
        (Inl e, r) \<Rightarrow> (Inl e, rstream r)
      | (Inr received, r) \<Rightarrow>
          (case from_utf8 received of
             Inr rec_data \<Rightarrow> (Inr rec_data, rstream (consume (length rec_data) r))
           | Inl _ \<Rightarrow> (Inl InvalidData, rstream r)))"

text \<open>
  \<^verbatim>\<open>get_response_in_string\<close>: \<open>connect\<close> gives the stream to the host and port, or the error of
  \<^verbatim>\<open>TcpStream::connect\<close>. The result of writing the request is ignored, as in the code.
\<close>

definition get_response_in_string ::
    "'u url_lib \<Rightarrow> (string \<Rightarrow> u16 \<Rightarrow> tcp_stream io_result) \<Rightarrow> 'u http_request \<Rightarrow> response io_result \<times> string" where
  "get_response_in_string U connect hr =
     (case connect (get_host U hr) (get_port U hr) of
        Inl e \<Rightarrow> (Inl e, [])
      | Inr client \<Rightarrow>
          (let client1 = snd (write_all (request_to_raw_string (hr_request hr)) client)
           in case receive_data_in_string client1 of
                (Inl e, client2) \<Rightarrow> (Inl e, tx client2)
              | (Inr data, client2) \<Rightarrow>
                  (let response = from_raw_data data
                   in case get_content_length (resp_headers response) of
                        Inr len \<Rightarrow>
                          if len \<noteq> 0 \<and> length (resp_body response) = 0
                          then (case receive_data_in_string client2 of
                                  (Inl e, client3) \<Rightarrow> (Inl e, tx client3)
                                | (Inr bd, client3) \<Rightarrow> (Inr (response\<lparr>resp_body := bd\<rparr>), tx client3))
                          else (Inr response, tx client2)
                      | Inl _ \<Rightarrow> (Inr response, tx client2))))"

definition forward_response ::
    "tcp_stream \<Rightarrow> tcp_stream \<Rightarrow> (string, string) hmap
       \<Rightarrow> ((response \<times> nat) io_result \<times> tcp_stream \<times> tcp_stream) option" where
  "forward_response server client extra_headers =
     (case read_response_without_body (buf_reader_new server) of
        (Inl e, r) \<Rightarrow> Some (Inl e, rstream r, client)
      | (Inr resp, r) \<Rightarrow>
          if is_continue_response resp then Some (Inr (resp, 0), rstream r, client)
          else
            (let resp' = resp\<lparr>resp_headers :=
                   foldl (\<lambda>h e. add_header (fst e) (snd e) h) (resp_headers resp) extra_headers\<rparr>
             in case write_all (response_to_raw_bytes resp') client of
                  (Inl e, client') \<Rightarrow> Some (Inl e, rstream r, client')
                | (Inr _, client') \<Rightarrow>
                    (case get_content_length (resp_headers resp') of
                       Inl e \<Rightarrow> Some (Inl e, rstream r, client')
                     | Inr content_length \<Rightarrow>
                         (case stream_body_internal r client' content_length of
                            None \<Rightarrow> None
                          | Some (Inl e, r', client'') \<Rightarrow> Some (Inl e, rstream r', client'')
                          | Some (Inr len, r', client'') \<Rightarrow> Some (Inr (resp', len), rstream r', client'')))))"

definition htons :: "u16 \<Rightarrow> u16" where "htons u = swap16 u"
definition ntohs :: "u16 \<Rightarrow> u16" where "ntohs u = swap16 u"

section \<open>What a reader will deliver\<close>

fun until_err :: "read_event list \<Rightarrow> string" where
  "until_err [] = []"
| "until_err (Chunk c # es) = c @ until_err es"
| "until_err (ReadErr e # es) = []"

definition readable :: "buf_reader \<Rightarrow> string" where
  "readable r = rbuf r @ until_err (rx (rstream r))"

definition has_error :: "buf_reader \<Rightarrow> bool" where
  "has_error r \<longleftrightarrow> (\<exists>e. ReadErr e \<in> set (rx (rstream r)))"

lemma fill_Inr:
  assumes "fill_buf r = (Inr d, r')"
  shows "readable r = d @ readable (consume (length d) r')"
    and "has_error (consume (length d) r') = has_error r"
    and "rx (rstream r) = [] \<and> rbuf r = [] \<and> d = [] \<or> pending (consume (length d) r') < pending r"
  using assms
  by (auto simp: fill_buf_def readable_def has_error_def consume_def pending_def
      split: if_splits list.splits read_event.splits)

lemma fill_Inl: "fill_buf r = (Inl e, r') \<Longrightarrow> readable r = [] \<and> has_error r"
  by (auto simp: fill_buf_def readable_def has_error_def split: if_splits list.splits read_event.splits)

text \<open>
  The body loop returns when enough bytes are on their way or the stream reports an error; it has then
  read a prefix of what the stream delivers.
\<close>

lemma receive_body_loop_returns:
  assumes "len \<le> length data + length (readable r) \<or> has_error r"
  shows "\<exists>p r'. receive_body_loop len r data = Some (data @ p, r') \<and> prefix p (readable r)
    \<and> (len \<le> length data + length p \<or> p = readable r)"
  using assms
proof (induction "pending r" arbitrary: r data rule: less_induct)
  case less
  show ?case
  proof (cases "length data < len")
    case False
    then show ?thesis by (simp add: receive_body_loop.simps [of len r data])
  next
    case True
    show ?thesis
    proof (cases "fill_buf r")
      case (Pair res r1)
      show ?thesis
      proof (cases res)
        case (Inl e)
        with True Pair fill_Inl show ?thesis
          by (fastforce simp: receive_body_loop.simps [of len r data])
      next
        case (Inr d)
        note fill = fill_Inr [OF Pair [unfolded Inr]]
        have "\<not> (rx (rstream r) = [] \<and> rbuf r = [])"
          using less.prems True by (auto simp: readable_def has_error_def)
        with fill(3) have "pending (consume (length d) r1) < pending r"
          by blast
        from less.hyps [OF this, of "data @ d"] obtain p r' where
          "receive_body_loop len (consume (length d) r1) (data @ d) = Some (data @ d @ p, r')"
          "prefix p (readable (consume (length d) r1))"
          "len \<le> length data + length d + length p \<or> p = readable (consume (length d) r1)"
          using less.prems fill(1,2) by (auto simp: add.assoc)
        with True Pair Inr fill(1) show ?thesis
          by (intro exI [of _ "d @ p"] exI [of _ r'])
             (auto simp: receive_body_loop.simps [of len r data])
      qed
    qed
  qed
qed

text \<open>When the stream ends before the announced length, without an error, the loop never returns.\<close>

lemma receive_body_loop_Some:
  assumes "receive_body_loop len r data = Some res"
  shows "len \<le> length data + length (readable r) \<or> has_error r"
proof (rule receive_body_loop.raw_induct [OF _ assms,
      where P = "\<lambda>len r data res. len \<le> length data + length (readable r) \<or> has_error r"], goal_cases)
  case (1 loop len r data res)
  show ?case
  proof (cases "length data < len")
    case True
    show ?thesis
    proof (cases "fill_buf r")
      case (Pair x r1)
      show ?thesis
      proof (cases x)
        case (Inl e)
        with Pair fill_Inl show ?thesis by blast
      next
        case (Inr d)
        with 1(2) True Pair have "loop len (consume (length d) r1) (data @ d) = Some res"
          by simp
        from 1(1) [OF this] show ?thesis
          using fill_Inr [OF Pair [unfolded Inr]] by auto
      qed
    qed
  qed simp
qed

section \<open>Streaming\<close>

lemma write_all_prefix: "write_all buf s = (res, s') \<Longrightarrow> \<exists>p. tx s' = tx s @ p \<and> prefix p buf"
  by (auto simp: write_all_def take_is_prefix split: list.splits wr_event.splits)

lemma write_all_ok: "write_all buf s = (Inr x, s') \<Longrightarrow> tx s' = tx s @ buf"
  by (auto simp: write_all_def split: list.splits wr_event.splits)

lemma prefix_append_left: "prefix p q \<Longrightarrow> prefix (d @ p) (d @ q)"
  by simp

text \<open>Whatever the writes do, only bytes of the source reach the destination, in order.\<close>

definition stream_ok :: "nat \<Rightarrow> buf_reader \<Rightarrow> tcp_stream \<Rightarrow> nat \<Rightarrow> nat io_result \<times> buf_reader \<times> tcp_stream \<Rightarrow> bool" where
  "stream_ok len r dst n y \<longleftrightarrow>
     (\<exists>p. tx (snd (snd y)) = tx dst @ p \<and> prefix p (readable r)
        \<and> (\<forall>m. fst y = Inr m \<longrightarrow> m = n + length p \<and> (len \<le> m \<or> has_error r)))"

lemma stream_ok_step:
  assumes fill: "fill_buf r = (Inr d, r1)" and w: "write_all d dst = (Inr u, dst1)"
    and ok: "stream_ok len (consume (length d) r1) dst1 (n + length d) y"
  shows "stream_ok len r dst n y"
proof -
  from ok obtain p where "tx (snd (snd y)) = tx dst1 @ p" "prefix p (readable (consume (length d) r1))"
    "\<forall>m. fst y = Inr m \<longrightarrow> m = n + length d + length p \<and> (len \<le> m \<or> has_error (consume (length d) r1))"
    by (auto simp: stream_ok_def)
  with fill_Inr(1,2) [OF fill] write_all_ok [OF w] show ?thesis
    unfolding stream_ok_def by (intro exI [of _ "d @ p"]) (auto simp: add.assoc)
qed

lemma stream_body_loop_safe:
  assumes "stream_body_loop len r dst n = Some y"
  shows "stream_ok len r dst n y"
proof (rule stream_body_loop.raw_induct [OF _ assms, where P = stream_ok], goal_cases)
  case (1 loop len r dst n y)
  show ?case
  proof (cases "n < len")
    case False
    with 1(2) show ?thesis by (auto simp: stream_ok_def)
  next
    case True
    obtain x r1 where fill: "fill_buf r = (x, r1)"
      by fastforce
    show ?thesis
    proof (cases x)
      case (Inl e)
      with 1(2) True fill fill_Inl show ?thesis
        by (fastforce simp: stream_ok_def)
    next
      case (Inr d)
      obtain w dst1 where w: "write_all d dst = (w, dst1)"
        by fastforce
      show ?thesis
      proof (cases w)
        case (Inl e)
        with 1(2) True fill Inr w have "y = (Inl e, r1, dst1)"
          by simp
        with write_all_prefix [OF w] fill_Inr(1) [OF fill [unfolded Inr]] show ?thesis
          by (auto simp: stream_ok_def intro: prefix_order.trans)
      next
        case (Inr u)
        with 1 True fill \<open>x = Inr d\<close> w show ?thesis
          by (intro stream_ok_step [of r d r1 dst u dst1]) simp_all
      qed
    qed
  qed
qed

lemma stream_body_loop_returns:
  assumes "len \<le> n + length (readable r) \<or> has_error r"
  shows "stream_body_loop len r dst n \<noteq> None"
  using assms
proof (induction "pending r" arbitrary: r dst n rule: less_induct)
  case less
  show ?case
  proof (cases "n < len")
    case False
    then show ?thesis by (simp add: stream_body_loop.simps [of len r dst n])
  next
    case True
    obtain x r1 where fill: "fill_buf r = (x, r1)"
      by fastforce
    show ?thesis
    proof (cases x)
      case (Inl e)
      with True fill show ?thesis by (simp add: stream_body_loop.simps [of len r dst n])
    next
      case (Inr d)
      note f = fill_Inr [OF fill [unfolded Inr]]
      have "\<not> (rx (rstream r) = [] \<and> rbuf r = [])"
        using less.prems True by (auto simp: readable_def has_error_def)
      with f(3) have "pending (consume (length d) r1) < pending r"
        by blast
      then have "stream_body_loop len (consume (length d) r1) dst' (n + length d) \<noteq> None" for dst'
        using less.prems f(1,2) by (intro less.hyps) auto
      with True fill Inr show ?thesis
        by (auto simp: stream_body_loop.simps [of len r dst n] split: prod.split sum.split)
    qed
  qed
qed

text \<open>When the stream ends early and every write succeeds, the loop never returns.\<close>

definition writes_ok :: "tcp_stream \<Rightarrow> bool" where
  "writes_ok s \<longleftrightarrow> set (wr s) \<subseteq> {WOk}"

lemma write_all_writes_ok:
  "writes_ok s \<Longrightarrow> \<exists>s'. write_all buf s = (Inr (), s') \<and> writes_ok s' \<and> tx s' = tx s @ buf"
  by (auto simp: writes_ok_def write_all_def split: list.splits wr_event.splits)

lemma stream_body_loop_Some:
  assumes "stream_body_loop len r dst n = Some y"
  shows "writes_ok dst \<longrightarrow> len \<le> n + length (readable r) \<or> has_error r"
proof (rule stream_body_loop.raw_induct [OF _ assms,
      where P = "\<lambda>len r dst n y. writes_ok dst \<longrightarrow> len \<le> n + length (readable r) \<or> has_error r"],
      goal_cases)
  case (1 loop len r dst n y)
  show ?case
  proof (cases "n < len")
    case True
    obtain x r1 where fill: "fill_buf r = (x, r1)"
      by fastforce
    show ?thesis
    proof (cases x)
      case (Inl e)
      with fill fill_Inl show ?thesis by blast
    next
      case (Inr d)
      show ?thesis
      proof
        assume "writes_ok dst"
        then obtain dst1 where w: "write_all d dst = (Inr (), dst1)" "writes_ok dst1"
          using write_all_writes_ok by blast
        with 1(2) True fill Inr have "loop len (consume (length d) r1) dst1 (n + length d) = Some y"
          by simp
        from 1(1) [OF this] w show "len \<le> n + length (readable r) \<or> has_error r"
          using fill_Inr [OF fill [unfolded Inr]] by auto
      qed
    qed
  qed simp
qed

section \<open>Reading back what was sent\<close>

text \<open>
  A reader with no empty read before the end of the data: an empty read is how the end of a stream
  shows.
\<close>

definition no_eof :: "buf_reader \<Rightarrow> bool" where
  "no_eof r \<longleftrightarrow> Chunk [] \<notin> set (rx (rstream r))"

lemma fill_no_eof:
  assumes "no_eof r" and "readable r \<noteq> []"
  shows "\<exists>d r'. fill_buf r = (Inr d, r') \<and> d \<noteq> []"
  using assms by (auto simp: no_eof_def readable_def fill_buf_def split: list.splits read_event.splits)

lemma fill_keeps:
  assumes "fill_buf r = (Inr d, r')"
  shows "rbuf r' = d" and "no_eof r \<Longrightarrow> no_eof (consume n r')"
    and "n \<le> length d \<Longrightarrow> readable (consume n r') = drop n (readable r)"
  using assms
  by (auto simp: fill_buf_def no_eof_def readable_def consume_def split: if_splits list.splits read_event.splits)

lemma find_LF_prefix:
  assumes l: "CHR 0x0A \<notin> set l" and "d @ x = l @ LF @ t"
  shows "find_str LF d = (if length l < length d then Some (length l) else None)"
proof -
  from assms(2) consider us where "d = l @ us" "us @ x = LF @ t" | us where "l = d @ us"
    by (auto simp: append_eq_append_conv2)
  then show ?thesis
  proof cases
    case 1
    then show ?thesis
    proof (cases us)
      case Nil
      with 1 l show ?thesis
        using find_str_notin [of LF d] by (simp add: LF_def)
    next
      case (Cons c us')
      with 1 have "d = l @ LF @ us'"
        by (simp add: LF_def)
      with l show ?thesis
        using find_str_append [of LF l us'] by (simp add: LF_def)
    qed
  next
    case 2
    with l show ?thesis
      using find_str_notin [of LF d] by (simp add: LF_def)
  qed
qed

lemma read_until_lf_line:
  assumes "no_eof r" and "readable r = l @ LF @ t" and "CHR 0x0A \<notin> set l"
  shows "\<exists>r'. read_until_lf r acc = (Inr (acc @ l @ LF), r') \<and> readable r' = t \<and> no_eof r'"
  using assms
proof (induction "pending r" arbitrary: r l acc rule: less_induct)
  case less
  from less.prems have "readable r \<noteq> []"
    by (simp add: LF_def)
  then obtain d r1 where fill: "fill_buf r = (Inr d, r1)" and d: "d \<noteq> []"
    using fill_no_eof less.prems(1) by blast
  note keep = fill_keeps [OF fill]
  have split: "d @ readable (consume (length d) r1) = l @ LF @ t"
    using fill_Inr(1) [OF fill] less.prems(2) by simp
  note find = find_LF_prefix [OF less.prems(3) split]
  show ?case
  proof (cases "length l < length d")
    case True
    then have "take (length l + 1) d = take (length l + 1) (l @ LF @ t)"
      unfolding split [symmetric] by simp
    then have "take (length l + 1) d = l @ LF"
      by (simp add: LF_def)
    moreover have "readable (consume (length l + 1) r1) = t"
      using keep(3) [of "length l + 1"] True less.prems(2) by (simp add: LF_def)
    ultimately show ?thesis
      using True find fill keep(2) [OF less.prems(1)] by (simp add: read_until_lf.simps [of r acc])
  next
    case False
    then obtain l' where l: "l = d @ l'"
      using split by (auto simp: append_eq_append_conv2 LF_def)
    with split less.prems(3) keep(2) [OF less.prems(1)]
    have "\<exists>r'. read_until_lf (consume (length d) r1) (acc @ d) = (Inr ((acc @ d) @ l' @ LF), r')
        \<and> readable r' = t \<and> no_eof r'"
      by (intro less.hyps fill_consume_less [OF fill d]) simp_all
    with False find fill d l show ?thesis
      by (simp add: read_until_lf.simps [of r acc])
  qed
qed

lemma read_line_ascii:
  assumes "no_eof r" and "readable r = (l @ CRLF) @ t" and "CHR 0x0A \<notin> set l" and "is_ascii l"
  shows "\<exists>r'. read_line r = (Inr (l @ CRLF), r') \<and> readable r' = t \<and> no_eof r'"
proof -
  have crlf: "l @ CRLF = (l @ [CHR 0x0D]) @ LF"
    by (simp add: CRLF_def LF_def)
  have "\<exists>r'. read_until_lf r [] = (Inr ([] @ (l @ [CHR 0x0D]) @ LF), r') \<and> readable r' = t \<and> no_eof r'"
    using assms by (intro read_until_lf_line) (simp_all add: CRLF_def LF_def)
  moreover have "utf8_valid (l @ CRLF)"
    using assms(4) by (intro utf8_valid_ascii) simp
  ultimately show ?thesis
    unfolding crlf by (auto simp: read_line_def from_utf8_def)
qed

lemma chars_nonempty: "ch \<in> set (chars s) \<Longrightarrow> ch \<noteq> []"
  by (induction s rule: chars.induct) auto

lemma trim_nonempty:
  assumes "is_ascii s" and "c \<in> set s" and "\<not> is_whitespace [c]"
  shows "trim s \<noteq> []"
proof -
  define xs where "xs = dropWhile is_whitespace (chars s)"
  have "xs \<noteq> []"
    using assms by (auto simp: xs_def chars_ascii)
  then have "\<not> is_whitespace (hd xs)"
    unfolding xs_def by (rule hd_dropWhile)
  moreover have "hd xs \<in> set (rev xs)"
    using \<open>xs \<noteq> []\<close> by simp
  ultimately have "dropWhile is_whitespace (rev xs) \<noteq> []"
    by auto
  then obtain ch where ch: "ch \<in> set (dropWhile is_whitespace (rev xs))"
    by (auto simp: ex_in_conv [symmetric] simp flip: set_empty)
  then have "ch \<in> set (chars s)"
    unfolding xs_def by (metis set_dropWhileD set_rev)
  with ch chars_nonempty show ?thesis
    by (fastforce simp: trim_def xs_def)
qed

lemma trim_CRLF: "trim CRLF = []"
  by code_simp

text \<open>The header section of a message is read line by line up to the blank line.\<close>

lemma read_header_loop_lines:
  assumes "no_eof r" and "readable r = concat (map (\<lambda>x. x @ CRLF) ls) @ CRLF @ t"
    and "\<forall>l \<in> set ls. is_ascii l \<and> CHR 0x0A \<notin> set l \<and> CHR '':'' \<in> set l"
  shows "\<exists>r'. read_header_loop r acc = (Inr (acc @ concat (map (\<lambda>x. x @ CRLF) ls) @ CRLF), r')
    \<and> readable r' = t \<and> no_eof r'"
  using assms
proof (induction ls arbitrary: r acc)
  case Nil
  then obtain r' where "read_line r = (Inr ([] @ CRLF), r')" "readable r' = t" "no_eof r'"
    using read_line_ascii [of r "[]" t] by auto
  then show ?case
    by (simp add: read_header_loop.simps [of r acc] trim_CRLF)
next
  case (Cons l ls)
  obtain r1 where r1: "read_line r = (Inr (l @ CRLF), r1)" "no_eof r1"
    "readable r1 = concat (map (\<lambda>x. x @ CRLF) ls) @ CRLF @ t"
    using read_line_ascii [of r l "concat (map (\<lambda>x. x @ CRLF) ls) @ CRLF @ t"] Cons.prems by auto
  have "trim (l @ CRLF) \<noteq> []"
    using Cons.prems by (intro trim_nonempty [of _ "CHR '':''"]) (simp_all add: is_whitespace_def)
  with r1 Cons.IH [of r1 "acc @ l @ CRLF"] Cons.prems show ?case
    by (simp add: read_header_loop.simps [of r acc])
qed

lemma lines_blank_end:
  "\<forall>l \<in> set ls. CHR 0x0A \<notin> set l \<Longrightarrow> lines (concat (map (\<lambda>x. x @ CRLF) ls) @ CRLF) = ls @ [[]]"
proof (induction ls)
  case Nil
  show ?case using lines_append_CRLF [of "[]" "[]"] by simp
next
  case (Cons l ls)
  then show ?case
    using lines_append_CRLF [of l "concat (map (\<lambda>x. x @ CRLF) ls) @ CRLF"] by simp
qed

lemma headers_from_head:
  assumes "headers_safe h"
  shows "hm_get (headers_from_raw_data (concat (map (\<lambda>x. x @ CRLF) (header_lines h)) @ CRLF)) = hm_get h"
proof -
  have "lines (concat (map (\<lambda>x. x @ CRLF) (header_lines h)) @ CRLF) = header_lines h @ [[]]"
    using header_lines_props [OF assms] by (intro lines_blank_end) simp
  moreover have "\<forall>e \<in> set h. header_safe (fst (snd e)) (snd (snd e))" and wf: "headers_wf h"
    using assms by (simp_all add: headers_safe_def)
  ultimately have "headers_from_raw_data (concat (map (\<lambda>x. x @ CRLF) (header_lines h)) @ CRLF) = headers_copy h"
    using foldl_add_header_lines [of h headers_new]
    by (simp add: headers_from_raw_data_def headers_copy_def header_lines_def)
  with wf show ?thesis by (simp add: hm_get_copy)
qed

lemma read_header_lines_head:
  assumes "no_eof r" and "headers_safe h" and "readable r = headers_to_raw_string h @ CRLF @ t"
  shows "\<exists>hl r'. read_header_lines r = (Inr hl, r') \<and> hm_get (headers_from_raw_data hl) = hm_get h
    \<and> readable r' = t \<and> no_eof r'"
proof -
  have "\<forall>l \<in> set (header_lines h). is_ascii l \<and> CHR 0x0A \<notin> set l \<and> CHR '':'' \<in> set l"
    using header_lines_props [OF assms(2)] by (auto simp: header_lines_def)
  then show ?thesis
    using read_header_loop_lines [OF assms(1), of "header_lines h" t "[]"] assms(3)
      headers_to_raw_lines [OF assms(2)] headers_from_head [OF assms(2)]
    by (auto simp: read_header_lines_def)
qed

lemma split_whitespace_crlf:
  assumes "is_token a" and "is_token b" and "is_token c"
  shows "split_whitespace ((a @ '' '' @ b @ '' '' @ c) @ CRLF) = [a, b, c]"
proof -
  have "chars ((a @ '' '' @ b @ '' '' @ c) @ CRLF) = map (\<lambda>c. [c]) ((a @ '' '' @ b @ '' '' @ c) @ CRLF)"
    using assms by (intro chars_ascii) (simp add: is_token_def)
  moreover have "is_whitespace [CHR 0x0D]" and "is_whitespace [CHR 0x0A]"
    by (simp_all add: is_whitespace_def)
  ultimately show ?thesis
    using assms
    by (simp add: split_whitespace_def is_token_def split_ws_acc_token is_whitespace_space CRLF_def)
qed

section \<open>Forwarding a response\<close>

lemma hm_get_foldl_add_header_notin:
  "k \<notin> to_lowercase ` fst ` set es \<Longrightarrow> hm_get (foldl (\<lambda>h e. add_header (fst e) (snd e) h) h0 es) k = hm_get h0 k"
  by (induction es arbitrary: h0) (simp_all add: hm_get_add_header)

lemma hm_get_foldl_add_header:
  "distinct (map (to_lowercase \<circ> fst) es) \<Longrightarrow> (k, v) \<in> set es \<Longrightarrow>
   hm_get (foldl (\<lambda>h e. add_header (fst e) (snd e) h) h0 es) (to_lowercase k) = Some (k, v)"
proof (induction es arbitrary: h0)
  case (Cons e es)
  show ?case
  proof (cases "e = (k, v)")
    case True
    with Cons.prems(1) show ?thesis
      using hm_get_foldl_add_header_notin [of "to_lowercase k" es "add_header k v h0"]
      by (auto simp: image_image hm_get_add_header)
  next
    case False
    with Cons show ?thesis by simp
  qed
qed simp

text \<open>
  A forwarded response, given the response head read from the server and the reader behind it: the
  head with the extra headers, then a part of the body.
\<close>

definition forwarded :: "response \<Rightarrow> buf_reader \<Rightarrow> (string, string) hmap \<Rightarrow> response \<Rightarrow> nat \<Rightarrow> string \<Rightarrow> bool" where
  "forwarded resp0 r extra resp n out \<longleftrightarrow>
     resp = resp0\<lparr>resp_headers := foldl (\<lambda>h e. add_header (fst e) (snd e) h) (resp_headers resp0) extra\<rparr>
     \<and> (\<exists>body. out = response_to_raw_bytes resp @ body \<and> prefix body (readable r) \<and> length body = n
          \<and> (\<exists>len. get_content_length (resp_headers resp) = Inr len \<and> (len \<le> n \<or> has_error r)))"

lemma forward_response_cases:
  assumes "forward_response server client extra = Some (Inr (resp, n), server', client')"
  obtains r where "read_response_without_body (buf_reader_new server) = (Inr resp, r)"
      "is_continue_response resp" "n = 0" "client' = client"
  | resp0 r out where "read_response_without_body (buf_reader_new server) = (Inr resp0, r)"
      "\<not> is_continue_response resp0" "tx client' = tx client @ out" "forwarded resp0 r extra resp n out"
proof -
  obtain resp0 r where rd: "read_response_without_body (buf_reader_new server) = (Inr resp0, r)"
    using assms by (cases "read_response_without_body (buf_reader_new server)"; cases "fst (read_response_without_body (buf_reader_new server))")
      (auto simp: forward_response_def)
  show thesis
  proof (cases "is_continue_response resp0")
    case True
    with rd assms that(1) show ?thesis by (auto simp: forward_response_def)
  next
    case False
    let ?h = "foldl (\<lambda>h e. add_header (fst e) (snd e) h) (resp_headers resp0) extra"
    let ?resp = "resp0\<lparr>resp_headers := ?h\<rparr>"
    obtain client1 where w: "write_all (response_to_raw_bytes ?resp) client = (Inr (), client1)"
      using assms rd False by (cases "write_all (response_to_raw_bytes ?resp) client"; cases "fst (write_all (response_to_raw_bytes ?resp) client)")
        (auto simp: forward_response_def)
    obtain len where len: "get_content_length ?h = Inr len"
      using assms rd False w by (cases "get_content_length ?h") (auto simp: forward_response_def)
    obtain r' where "stream_body_loop len r client1 0 = Some (Inr n, r', client')" and "resp = ?resp"
      using assms rd False w len
      by (auto simp: forward_response_def stream_body_internal_def split: option.splits sum.splits)
    with stream_body_loop_safe [of len r client1 0] obtain body where
      "tx client' = tx client1 @ body" "prefix body (readable r)" "n = length body" "len \<le> n \<or> has_error r"
      by (fastforce simp: stream_ok_def)
    with rd False len write_all_ok [OF w] \<open>resp = ?resp\<close> that(2) show ?thesis
      by (auto simp: forwarded_def)
  qed
qed

section \<open>Reading writes nothing\<close>

definition same_out :: "tcp_stream \<Rightarrow> tcp_stream \<Rightarrow> bool" where
  "same_out s s' \<longleftrightarrow> tx s' = tx s \<and> wr s' = wr s"

lemma same_out_refl [simp]: "same_out s s"
  by (simp add: same_out_def)

lemma same_out_trans [trans]: "same_out s s' \<Longrightarrow> same_out s' s'' \<Longrightarrow> same_out s s''"
  by (simp add: same_out_def)

lemma fill_same_out: "fill_buf r = (res, r') \<Longrightarrow> same_out (rstream r) (rstream r')"
  by (auto simp: fill_buf_def same_out_def split: if_splits list.splits read_event.splits)

lemma rstream_consume [simp]: "rstream (consume n r) = rstream r"
  by (simp add: consume_def)

lemma read_until_lf_same_out: "read_until_lf r acc = (res, r') \<Longrightarrow> same_out (rstream r) (rstream r')"
proof (induction r acc arbitrary: res r' rule: read_until_lf.induct)
  case (1 r acc)
  obtain x r1 where f: "fill_buf r = (x, r1)"
    by fastforce
  note s = fill_same_out [OF f]
  show ?case
  proof (cases x)
    case (Inl e)
    with 1 f s show ?thesis
      by (cases "e = Interrupted") (auto simp: read_until_lf.simps [of r acc] intro: same_out_trans [OF s])
  next
    case (Inr d)
    show ?thesis
    proof (cases "find_str LF d = None \<and> d \<noteq> []")
      case True
      with 1 f s Inr have "same_out (rstream r1) (rstream r')"
        by (auto simp: read_until_lf.simps [of r acc])
      with s show ?thesis by (rule same_out_trans)
    next
      case False
      with 1(3) f s Inr show ?thesis
        by (cases "find_str LF d") (auto simp: read_until_lf.simps [of r acc])
    qed
  qed
qed

lemma read_line_same_out: "read_line r = (res, r') \<Longrightarrow> same_out (rstream r) (rstream r')"
  by (auto simp: read_line_def split: prod.splits sum.splits dest: read_until_lf_same_out)

lemma read_header_loop_same_out: "read_header_loop r acc = (res, r') \<Longrightarrow> same_out (rstream r) (rstream r')"
proof (induction r acc arbitrary: res r' rule: read_header_loop.induct)
  case (1 r acc)
  obtain x r1 where l: "read_line r = (x, r1)"
    by fastforce
  note s = read_line_same_out [OF l]
  show ?case
  proof (cases x)
    case (Inl e)
    with 1 l s show ?thesis by (simp add: read_header_loop.simps [of r acc])
  next
    case (Inr line)
    with 1 l s show ?thesis
      by (cases "trim line = []") (auto simp: read_header_loop.simps [of r acc] intro: same_out_trans [OF s])
  qed
qed

lemma read_response_same_out:
  assumes "read_response_without_body r = (res, r')"
  shows "same_out (rstream r) (rstream r')"
proof -
  obtain x r1 where l: "read_line r = (x, r1)"
    by fastforce
  obtain y r2 where h: "read_header_lines r1 = (y, r2)"
    by fastforce
  note s = read_line_same_out [OF l] read_header_loop_same_out [OF h [unfolded read_header_lines_def]]
  have "r' = r1 \<or> r' = r2"
    using assms l h by (auto simp: read_response_without_body_def split: sum.splits)
  with s same_out_trans [OF s] show ?thesis by auto
qed

lemma receive_body_loop_same_out:
  assumes "receive_body_loop len r data = Some res"
  shows "same_out (rstream r) (rstream (snd res))"
proof (rule receive_body_loop.raw_induct [OF _ assms,
      where P = "\<lambda>len r data res. same_out (rstream r) (rstream (snd res))"], goal_cases)
  case (1 loop len r data res)
  obtain x r1 where f: "fill_buf r = (x, r1)"
    by fastforce
  note s = fill_same_out [OF f]
  show ?case
  proof (cases "length data < len")
    case False
    with 1(2) show ?thesis by auto
  next
    case True
    show ?thesis
    proof (cases x)
      case (Inl e)
      with 1(2) f s True show ?thesis by auto
    next
      case (Inr d)
      with 1(2) f True have "loop len (consume (length d) r1) (data @ d) = Some res"
        by simp
      from 1(1) [OF this] s show ?thesis
        by (auto intro: same_out_trans)
    qed
  qed
qed

lemma stream_body_loop_same_out:
  assumes "stream_body_loop len r dst n = Some y"
  shows "same_out (rstream r) (rstream (fst (snd y)))"
proof (rule stream_body_loop.raw_induct [OF _ assms,
      where P = "\<lambda>len r dst n y. same_out (rstream r) (rstream (fst (snd y)))"], goal_cases)
  case (1 loop len r dst n y)
  obtain x r1 where f: "fill_buf r = (x, r1)"
    by fastforce
  note s = fill_same_out [OF f]
  show ?case
  proof (cases "n < len")
    case False
    with 1(2) show ?thesis by auto
  next
    case True
    show ?thesis
    proof (cases x)
      case (Inl e)
      with 1(2) f s True show ?thesis by auto
    next
      case (Inr d)
      obtain w dst1 where w: "write_all d dst = (w, dst1)"
        by fastforce
      show ?thesis
      proof (cases w)
        case (Inl e)
        with 1(2) f s True Inr w show ?thesis by auto
      next
        case Inr': (Inr u)
        with 1(2) f True Inr w have "loop len (consume (length d) r1) dst1 (n + length d) = Some y"
          by simp
        from 1(1) [OF this] s show ?thesis
          by (auto intro: same_out_trans)
      qed
    qed
  qed
qed

text \<open>The message functions: the stream they read from keeps its output.\<close>

lemma receive_body_same_out:
  "receive_body s len = Some (res, s') \<Longrightarrow> same_out s s'"
  by (auto simp: receive_body_def receive_body_internal_def buf_reader_new_def split: option.splits
        dest!: receive_body_loop_same_out)

lemma receive_response_same_out:
  assumes "receive_response_data s = Some (res, s')"
  shows "same_out s s'"
proof -
  obtain x r where rd: "read_response_without_body (buf_reader_new s) = (x, r)"
    by fastforce
  have s: "same_out s (rstream r)"
    using read_response_same_out [OF rd] by (simp add: buf_reader_new_def)
  show ?thesis
  proof (cases "s' = rstream r")
    case False
    with assms rd obtain len data r1 where "receive_body_loop len r [] = Some (data, r1)" "s' = rstream r1"
      by (auto simp: receive_response_data_def receive_body_internal_def split: sum.splits option.splits)
    with s receive_body_loop_same_out show ?thesis
      by (fastforce intro: same_out_trans)
  qed (simp add: s)
qed

lemma forward_response_same_out:
  assumes "forward_response server client extra = Some (res, server', client')"
  shows "same_out server server'"
proof -
  obtain x r where rd: "read_response_without_body (buf_reader_new server) = (x, r)"
    by fastforce
  have s: "same_out server (rstream r)"
    using read_response_same_out [OF rd] by (simp add: buf_reader_new_def)
  show ?thesis
  proof (cases "server' = rstream r")
    case False
    with assms rd obtain len dst y r1 dst' where "stream_body_loop len r dst 0 = Some (y, r1, dst')" "server' = rstream r1"
      by (auto simp: forward_response_def stream_body_internal_def Let_def
            split: sum.splits option.splits prod.splits if_splits)
    with s stream_body_loop_same_out [of len r dst 0] show ?thesis
      by (fastforce intro: same_out_trans)
  qed (simp add: s)
qed

section \<open>Properties\<close>

text \<open>Receiving a body of a given length: the call fails to return exactly when the stream ends
  early without an error; otherwise it returns a prefix of what the stream delivers, which has at
  least the announced length unless an error cut the stream short.\<close>

theorem receive_body_spec:
  "(receive_body s len = None \<longleftrightarrow>
      length (until_err (rx s)) < len \<and> (\<forall>e. ReadErr e \<notin> set (rx s)))
   \<and> (receive_body s len = Some (res, s') \<longrightarrow>
        (\<exists>data. res = Inr data \<and> prefix data (until_err (rx s))
           \<and> (len \<le> length data \<or> data = until_err (rx s))))"
proof -
  have r: "readable (buf_reader_new s) = until_err (rx s)"
    and e: "has_error (buf_reader_new s) \<longleftrightarrow> (\<exists>e. ReadErr e \<in> set (rx s))"
    by (simp_all add: readable_def has_error_def buf_reader_new_def)
  show ?thesis
    using receive_body_loop_returns [of len "[]" "buf_reader_new s"]
      receive_body_loop_Some [of len "buf_reader_new s" "[]"] r e
    by (cases "receive_body_loop len (buf_reader_new s) []")
       (auto simp: receive_body_def receive_body_internal_def not_less)
qed

theorem receive_body_spec_witness:
  "receive_body \<lparr>rx = [Chunk ''ab'', Chunk ''cd''], wr = [], tx = []\<rparr> 5 = None
   \<and> (\<exists>data. receive_body \<lparr>rx = [Chunk ''ab'', Chunk ''cd''], wr = [], tx = []\<rparr> 3
          = Some (Inr data, \<lparr>rx = [], wr = [], tx = []\<rparr>) \<and> prefix data ''abcd'' \<and> 3 \<le> length data)"
proof -
  let ?s = "\<lparr>rx = [Chunk ''ab'', Chunk ''cd''], wr = [], tx = []\<rparr>"
  have "receive_body ?s 3 = Some (Inr ''abcd'', \<lparr>rx = [], wr = [], tx = []\<rparr>)"
    by (simp add: receive_body_def receive_body_internal_def buf_reader_new_def receive_body_loop.simps
        fill_buf_def consume_def)
  then show ?thesis
    using receive_body_spec [of ?s 5] receive_body_spec [of ?s 3 "Inr ''abcd''" "\<lparr>rx = [], wr = [], tx = []\<rparr>"]
    by auto
qed

text \<open>Streaming a body to the other side: only bytes of the source are written, in order and from the
  first one; a successful result counts exactly the bytes written, reaches the announced length unless
  the source failed, and the call returns whenever the source delivers enough or fails.\<close>

theorem stream_body_spec:
  "(len \<le> length (until_err (rx src)) \<or> (\<exists>e. ReadErr e \<in> set (rx src)) \<longrightarrow> stream_body src dst len \<noteq> None)
   \<and> (stream_body src dst len = Some (res, src', dst') \<longrightarrow>
        (\<exists>p. tx dst' = tx dst @ p \<and> prefix p (until_err (rx src))
           \<and> (\<forall>m. res = Inr m \<longrightarrow> m = length p \<and> (len \<le> m \<or> (\<exists>e. ReadErr e \<in> set (rx src))))))"
proof -
  have r: "readable (buf_reader_new src) = until_err (rx src)"
    and e: "has_error (buf_reader_new src) \<longleftrightarrow> (\<exists>e. ReadErr e \<in> set (rx src))"
    by (simp_all add: readable_def has_error_def buf_reader_new_def)
  show ?thesis
  proof (intro conjI impI)
    assume "len \<le> length (until_err (rx src)) \<or> (\<exists>e. ReadErr e \<in> set (rx src))"
    then obtain y where "stream_body_loop len (buf_reader_new src) dst 0 = Some y"
      using stream_body_loop_returns [of len 0 "buf_reader_new src" dst] r e by auto
    then show "stream_body src dst len \<noteq> None"
      by (cases y) (simp add: stream_body_def stream_body_internal_def)
  next
    assume "stream_body src dst len = Some (res, src', dst')"
    then obtain r' where "stream_body_loop len (buf_reader_new src) dst 0 = Some (res, r', dst')"
      by (auto simp: stream_body_def stream_body_internal_def split: option.splits)
    from stream_body_loop_safe [OF this] show "\<exists>p. tx dst' = tx dst @ p \<and> prefix p (until_err (rx src))
        \<and> (\<forall>m. res = Inr m \<longrightarrow> m = length p \<and> (len \<le> m \<or> (\<exists>e. ReadErr e \<in> set (rx src))))"
      by (simp add: stream_ok_def r e)
  qed
qed

theorem stream_body_spec_witness:
  "stream_body \<lparr>rx = [Chunk ''ab'', Chunk ''cd''], wr = [], tx = []\<rparr> \<lparr>rx = [], wr = [], tx = ''h''\<rparr> 3 \<noteq> None"
proof -
  have "(3 :: nat) \<le> length (until_err (rx \<lparr>rx = [Chunk ''ab'', Chunk ''cd''], wr = [], tx = []\<rparr>))"
    by simp
  then show ?thesis
    using stream_body_spec [of 3 "\<lparr>rx = [Chunk ''ab'', Chunk ''cd''], wr = [], tx = []\<rparr>"] by blast
qed

lemma receive_request_same_out:
  assumes "receive_request_data s = Some (res, s')"
  shows "same_out s s'"
proof -
  obtain x r1 where l: "read_line (buf_reader_new s) = (x, r1)"
    by fastforce
  obtain y r2 where h: "read_header_lines r1 = (y, r2)"
    by fastforce
  have "same_out s (rstream r1)"
    using read_line_same_out [OF l] by (simp add: buf_reader_new_def)
  moreover have "same_out (rstream r1) (rstream r2)"
    using read_header_loop_same_out [OF h [unfolded read_header_lines_def]] .
  moreover have "s' = rstream r1 \<or> s' = rstream r2 \<or> same_out (rstream r2) s'"
    using assms l h receive_body_loop_same_out [of _ r2 "[]"]
    by (fastforce simp: receive_request_data_def receive_body_internal_def Let_def split: sum.splits if_splits option.splits)
  ultimately show ?thesis
    using same_out_trans by blast
qed

lemma request_received:
  assumes "is_token (req_method q)" and "is_token (req_url q)" and "is_token (req_version q)"
    and "headers_safe (req_headers q)" and "\<not> expect_continue_request q"
    and "get_content_length (req_headers q) = Inr (length (req_body q))"
    and "until_err (rx s) = request_to_raw_bytes q" and "Chunk [] \<notin> set (rx s)"
  shows "\<exists>h s'. receive_request_data s = Some (Inr (q\<lparr>req_headers := h\<rparr>), s') \<and> hm_get h = hm_get (req_headers q)"
proof -
  let ?l = "req_method q @ '' '' @ req_url q @ '' '' @ req_version q"
  let ?rest = "headers_to_raw_string (req_headers q) @ CRLF @ req_body q"
  have l: "CHR 0x0A \<notin> set ?l" "is_ascii ?l"
    using assms(1-3) is_token_no_line_end [OF assms(1)] is_token_no_line_end [OF assms(2)]
      is_token_no_line_end [OF assms(3)] by (auto simp: is_token_def)
  have "readable (buf_reader_new s) = (?l @ CRLF) @ ?rest" "no_eof (buf_reader_new s)"
    using assms(7,8) by (simp_all add: readable_def no_eof_def buf_reader_new_def request_to_raw_bytes_def request_head_def)
  then obtain r1 where r1: "read_line (buf_reader_new s) = (Inr (?l @ CRLF), r1)" "readable r1 = ?rest" "no_eof r1"
    using read_line_ascii [of "buf_reader_new s" ?l ?rest] l by blast
  have first: "from_first_line (?l @ CRLF) = Inr (request_create (req_url q) (req_method q) (req_version q))"
    using split_whitespace_crlf [OF assms(1-3)] by (simp add: from_first_line_def)
  obtain hl r2 where r2: "read_header_lines r1 = (Inr hl, r2)" "readable r2 = req_body q"
    and h: "hm_get (headers_from_raw_data hl) = hm_get (req_headers q)"
    using read_header_lines_head [OF r1(3) assms(4) r1(2)] by blast
  have len: "get_content_length (headers_from_raw_data hl) = Inr (length (req_body q))"
    and expect: "\<not> has_expect_continue (headers_from_raw_data hl)"
    using assms(5,6) h
    by (simp_all add: get_content_length_def expect_continue_request_def has_expect_continue_def)
  obtain p r3 where "receive_body_loop (length (req_body q)) r2 [] = Some ([] @ p, r3)" "prefix p (readable r2)"
    "length (req_body q) \<le> length p \<or> p = readable r2"
    using receive_body_loop_returns [of "length (req_body q)" "[]" r2] r2(2) by auto
  moreover from this r2(2) have "p = req_body q"
    by (auto simp: prefix_def)
  ultimately have "receive_request_data s = Some (Inr (q\<lparr>req_headers := headers_from_raw_data hl\<rparr>), rstream r3)"
    using r1 r2 first len expect
    by (simp add: receive_request_data_def receive_body_internal_def expect_continue_request_def request_create_def)
  with h show ?thesis by blast
qed

text \<open>C12: A request is received as it was sent. When a client sends a request whose first line is made of
  tokens, whose headers are safe and whose Content-Length is the length of its body, the agent reads
  the same method, URL, version, header table and body, however the network cuts the bytes into
  reads.\<close>

theorem request_received_as_sent:
  assumes "is_token (req_method q)" and "is_token (req_url q)" and "is_token (req_version q)"
    and "headers_safe (req_headers q)" and "\<not> expect_continue_request q"
    and "get_content_length (req_headers q) = Inr (length (req_body q))"
    and "until_err (rx s) = request_to_raw_bytes q" and "Chunk [] \<notin> set (rx s)"
  shows "\<exists>h s'. receive_request_data s = Some (Inr (q\<lparr>req_headers := h\<rparr>), s') \<and> hm_get h = hm_get (req_headers q)"
  using assms by (rule request_received)

theorem request_received_as_sent_witness:
  "\<exists>h s'. receive_request_data \<lparr>rx = [Chunk ''PUT /a HT'', Chunk (''TP/1.1'' @ CRLF @ ''Content-Le''),
        Chunk (''ngth: 2'' @ CRLF @ CRLF @ ''x''), Chunk ''y''], wr = [], tx = []\<rparr>
      = Some (Inr \<lparr>req_method = ''PUT'', req_url = ''/a'', req_version = ''HTTP/1.1'', req_headers = h, req_body = ''xy''\<rparr>, s')"
proof -
  let ?q = "\<lparr>req_method = ''PUT'', req_url = ''/a'', req_version = ''HTTP/1.1'',
     req_headers = [(''content-length'', (''Content-Length'', ''2''))], req_body = ''xy''\<rparr>"
  let ?s = "\<lparr>rx = [Chunk ''PUT /a HT'', Chunk (''TP/1.1'' @ CRLF @ ''Content-Le''),
        Chunk (''ngth: 2'' @ CRLF @ CRLF @ ''x''), Chunk ''y''], wr = [], tx = []\<rparr>"
  have "is_token (req_method ?q)" "is_token (req_url ?q)" "is_token (req_version ?q)"
    "headers_safe (req_headers ?q)" "\<not> expect_continue_request ?q"
    "until_err (rx ?s) = request_to_raw_bytes ?q"
    by code_simp+
  moreover have "to_lowercase CONTENT_LENGTH_HEADER_NAME = ''content-length''"
    by code_simp
  then have "get_content_length (req_headers ?q) = Inr (length (req_body ?q))"
    by (simp add: get_content_length_def parse_uint_def digit_val_def)
  moreover have "Chunk [] \<notin> set (rx ?s)"
    by (simp add: CRLF_def)
  ultimately show ?thesis
    using request_received_as_sent [of ?q ?s] by auto
qed



end
