(* ===== verification/Provision.thy ===== *)
theory Provision
  imports Agent_Status
begin

text \<open>
  \<^verbatim>\<open>proxy_agent/src/provision.rs\<close>: the three readiness signals (redirector, key, listener), the status files
  the provisioning tool reads, and the one-time start of the event threads. The static variables are
  the record \<open>provision_state\<close>; starting a thread is counted. A lock poisoned by a panicking thread,
  which the code only logs, is not modelled.
\<close>

unbundle bit_operations_syntax

section \<open>Definitions\<close>

text \<open>
  \<open>status_tag\<close> and \<open>provisioned_tag\<close> are the contents of the files \<^verbatim>\<open>status.tag\<close> and \<^verbatim>\<open>provisioned.tag\<close> in
  the provision directory, \<open>None\<close> when the file does not exist.
\<close>

record provision_state =
  STATE :: u8
  LOGGER_THREADS_INITIALIZED :: bool
  event_logger_starts :: nat
  event_reader_starts :: nat
  status_thread_starts :: nat
  provisioned_tag :: "string option"
  status_tag_tmp :: "string option"
  status_tag :: "string option"

definition provision_state_new :: provision_state where
  "provision_state_new = \<lparr>STATE = 0, LOGGER_THREADS_INITIALIZED = False, event_logger_starts = 0,
     event_reader_starts = 0, status_thread_starts = 0, provisioned_tag = None, status_tag_tmp = None,
     status_tag = None\<rparr>"

text \<open>What the environment decides: the clock, the file system and the messages of the three modules.\<close>

record provision_env =
  pe_now :: string
  pe_write_tag_ok :: bool
  pe_write_tmp_ok :: bool
  pe_rename_ok :: bool
  pe_key_message :: string
  pe_redirector_message :: string
  pe_listener_message :: string

definition failed_status :: "provision_env \<Rightarrow> string" where
  "failed_status env =
     ''keyLatchStatus - '' @ pe_key_message env @ CRLF
     @ ''ebpfProgramStatus - '' @ pe_redirector_message env @ CRLF
     @ ''proxyListenerStatus - '' @ pe_listener_message env @ CRLF"

definition write_provision_state :: "provision_env \<Rightarrow> bool \<Rightarrow> provision_state \<Rightarrow> provision_state" where
  "write_provision_state env provision_success st =
     (let st1 = (if pe_write_tag_ok env then st\<lparr>provisioned_tag := Some (pe_now env)\<rparr> else st);
          status_text = (if \<not> provision_success then failed_status env else [])
      in if pe_write_tmp_ok env
         then (let st2 = st1\<lparr>status_tag_tmp := Some status_text\<rparr>
               in if pe_rename_ok env
                  then st2\<lparr>status_tag := status_tag_tmp st2, status_tag_tmp := None\<rparr> else st2)
         else st1)"

definition start_event_threads :: "provision_state \<Rightarrow> provision_state" where
  "start_event_threads st =
     (if LOGGER_THREADS_INITIALIZED st then st
      else st\<lparr>event_logger_starts := Suc (event_logger_starts st),
              event_reader_starts := Suc (event_reader_starts st),
              LOGGER_THREADS_INITIALIZED := True,
              status_thread_starts := Suc (status_thread_starts st)\<rparr>)"

definition update_provision_state :: "provision_env \<Rightarrow> u8 \<Rightarrow> provision_state \<Rightarrow> provision_state" where
  "update_provision_state env s st =
     (let st1 = st\<lparr>STATE := STATE st OR s\<rparr>
      in if STATE st1 = 7 then start_event_threads (write_provision_state env True st1) else st1)"

definition redirector_ready :: "provision_env \<Rightarrow> provision_state \<Rightarrow> provision_state" where
  "redirector_ready env st = update_provision_state env 1 st"

definition key_latched :: "provision_env \<Rightarrow> provision_state \<Rightarrow> provision_state" where
  "key_latched env st = update_provision_state env 2 st"

definition listener_started :: "provision_env \<Rightarrow> provision_state \<Rightarrow> provision_state" where
  "listener_started env st = update_provision_state env 4 st"

definition provision_timeup :: "provision_env \<Rightarrow> provision_state \<Rightarrow> provision_state" where
  "provision_timeup env st = (if STATE st \<noteq> 7 then write_provision_state env False st else st)"

text \<open>
  \<^verbatim>\<open>get_provision_status\<close>: whether provisioning has finished, and the error message. \<open>read_ok\<close> is whether
  the file could be read.
\<close>

definition get_provision_status :: "bool \<Rightarrow> provision_state \<Rightarrow> bool \<times> string" where
  "get_provision_status read_ok st =
     (case status_tag st of
        None \<Rightarrow> (False, [])
      | Some s \<Rightarrow> if read_ok then (True, s) else (False, []))"

text \<open>
  \<^verbatim>\<open>get_provision_status_wait\<close>: poll until the status is final or the time is over. The list holds, for
  each round, the status read and the elapsed time in milliseconds; the loop sleeps between rounds.
  The list stands for the observations of a run; running out of it means that the loop is still going.
\<close>

fun get_provision_status_wait :: "nat option \<Rightarrow> ((bool \<times> string) \<times> nat) list \<Rightarrow> (bool \<times> string) option" where
  "get_provision_status_wait duration [] = None"
| "get_provision_status_wait duration ((provision_status, elapsed) # rest) =
     (if fst provision_status then Some provision_status
      else (case duration of
              Some d \<Rightarrow> if d \<ge> elapsed then get_provision_status_wait duration rest else Some provision_status
            | None \<Rightarrow> Some provision_status))"

section \<open>Provisioning as a step system\<close>

text \<open>
  The signals come from different threads in any order and any number of times; each takes the lock
  for the whole operation, so that a run is a sequence of steps.
\<close>

datatype provision_event = RedirectorReady | KeyLatched | ListenerStarted | ProvisionTimeup | StartEventThreads

fun provision_step :: "provision_env \<Rightarrow> provision_event \<Rightarrow> provision_state \<Rightarrow> provision_state" where
  "provision_step env RedirectorReady st = redirector_ready env st"
| "provision_step env KeyLatched st = key_latched env st"
| "provision_step env ListenerStarted st = listener_started env st"
| "provision_step env ProvisionTimeup st = provision_timeup env st"
| "provision_step env StartEventThreads st = start_event_threads st"

definition provision_step_at :: "provision_env \<times> provision_event \<Rightarrow> provision_state \<Rightarrow> provision_state" where
  "provision_step_at ev st = provision_step (fst ev) (snd ev) st"

definition threads_inv :: "provision_state \<Rightarrow> bool" where
  "threads_inv st \<longleftrightarrow>
     event_logger_starts st = (if LOGGER_THREADS_INITIALIZED st then 1 else 0)
     \<and> event_reader_starts st = event_logger_starts st
     \<and> status_thread_starts st = event_logger_starts st"

lemma write_provision_state_frame [agent_frame]:
  "STATE (write_provision_state env b st) = STATE st"
  "LOGGER_THREADS_INITIALIZED (write_provision_state env b st) = LOGGER_THREADS_INITIALIZED st"
  "event_logger_starts (write_provision_state env b st) = event_logger_starts st"
  "event_reader_starts (write_provision_state env b st) = event_reader_starts st"
  "status_thread_starts (write_provision_state env b st) = status_thread_starts st"
  by (simp_all add: write_provision_state_def Let_def)

lemma start_event_threads_frame [agent_frame]:
  "STATE (start_event_threads st) = STATE st"
  "status_tag (start_event_threads st) = status_tag st"
  "LOGGER_THREADS_INITIALIZED (start_event_threads st)"
  by (simp_all add: start_event_threads_def)

lemma threads_inv_start: "threads_inv st \<Longrightarrow> threads_inv (start_event_threads st)"
  by (simp add: threads_inv_def start_event_threads_def)

lemma threads_inv_write: "threads_inv st \<Longrightarrow> threads_inv (write_provision_state env b st)"
  by (simp add: threads_inv_def agent_frame)

lemma threads_inv_state: "threads_inv st \<Longrightarrow> threads_inv (st\<lparr>STATE := s\<rparr>)"
  by (simp add: threads_inv_def)

lemmas signal_defs = redirector_ready_def key_latched_def listener_started_def update_provision_state_def

interpretation prov: step_system provision_step_at threads_inv
proof
  fix st :: provision_state and e :: "provision_env \<times> provision_event"
  assume "threads_inv st"
  then show "threads_inv (provision_step_at e st)"
    by (cases e; cases "snd e") (simp_all add: provision_step_at_def signal_defs provision_timeup_def Let_def threads_inv_start threads_inv_write
        threads_inv_state)
qed

text \<open>The state word holds one bit for each signal that has come.\<close>

definition signal_bits :: "provision_event list \<Rightarrow> u8" where
  "signal_bits es = (if RedirectorReady \<in> set es then 1 else 0) OR (if KeyLatched \<in> set es then 2 else 0)
     OR (if ListenerStarted \<in> set es then 4 else 0)"

lemma signal_bits_full:
  "signal_bits es = 7 \<longleftrightarrow> {RedirectorReady, KeyLatched, ListenerStarted} \<subseteq> set es"
  by (simp add: signal_bits_def)

lemma provision_step_STATE: "STATE (provision_step env e st) = STATE st OR signal_bits [e]"
  by (cases e) (simp_all add: signal_defs provision_timeup_def Let_def agent_frame signal_bits_def)

lemma signal_bits_snoc: "signal_bits (es @ [e]) = signal_bits es OR signal_bits [e]"
  by (cases e) (auto simp: signal_bits_def)

lemma provision_run_STATE:
  "STATE (fold provision_step_at es provision_state_new) = signal_bits (map snd es)"
proof (induction es rule: rev_induct)
  case Nil
  show ?case by (simp add: provision_state_new_def signal_bits_def)
next
  case (snoc e es)
  then show ?case
    by (simp add: provision_step_at_def provision_step_STATE signal_bits_snoc del: provision_step.simps)
qed

section \<open>What the files say\<close>

definition fs_ok :: "provision_env \<Rightarrow> bool" where
  "fs_ok env \<longleftrightarrow> pe_write_tmp_ok env \<and> pe_rename_ok env"

lemma status_tag_write:
  "fs_ok env \<Longrightarrow> status_tag (write_provision_state env b st) = Some (if b then [] else failed_status env)"
  by (simp add: fs_ok_def write_provision_state_def Let_def)

lemma failed_status_nonempty [simp]: "failed_status env \<noteq> []"
  by (simp add: failed_status_def)

text \<open>The tag is empty after success, absent or a failure report before.\<close>

definition tag_inv :: "provision_state \<Rightarrow> bool" where
  "tag_inv st \<longleftrightarrow> (STATE st = 7 \<longleftrightarrow> status_tag st = Some [])"

lemma OR_seven: "(x :: u8) = 7 \<Longrightarrow> b \<in> {0, 1, 2, 4} \<Longrightarrow> x OR b = 7"
  by auto

lemma tag_inv_step:
  assumes "fs_ok env" and "tag_inv st"
  shows "tag_inv (provision_step env e st)"
proof -
  have signal: "tag_inv (update_provision_state env b st)" if "b \<in> {1, 2, 4}" for b
    using assms that OR_seven [of "STATE st" b]
    by (auto simp: tag_inv_def update_provision_state_def Let_def agent_frame status_tag_write)
  show ?thesis
    using assms signal [of 1] signal [of 2] signal [of 4]
    by (cases e) (simp_all add: redirector_ready_def key_latched_def listener_started_def provision_timeup_def
        tag_inv_def agent_frame status_tag_write)
qed

lemma tag_inv_run: "\<forall>ev \<in> set es. fs_ok (fst ev) \<Longrightarrow> tag_inv (fold provision_step_at es provision_state_new)"
proof (induction es rule: rev_induct)
  case Nil
  show ?case by (simp add: tag_inv_def provision_state_new_def)
next
  case (snoc e es)
  then show ?case
    by (simp add: provision_step_at_def tag_inv_step del: provision_step.simps)
qed

lemma initialized_step:
  "LOGGER_THREADS_INITIALIZED (provision_step env e st) \<longleftrightarrow>
     LOGGER_THREADS_INITIALIZED st \<or> e = StartEventThreads
     \<or> (e \<in> {RedirectorReady, KeyLatched, ListenerStarted} \<and> STATE (provision_step env e st) = 7)"
  by (cases e) (auto simp: signal_defs provision_timeup_def Let_def agent_frame)

lemma started_snoc:
  "(StartEventThreads \<in> S \<or> {RedirectorReady, KeyLatched, ListenerStarted} \<subseteq> S) \<or> e = StartEventThreads
     \<or> (e \<in> {RedirectorReady, KeyLatched, ListenerStarted}
         \<and> {RedirectorReady, KeyLatched, ListenerStarted} \<subseteq> insert e S)
   \<longleftrightarrow> StartEventThreads \<in> insert e S \<or> {RedirectorReady, KeyLatched, ListenerStarted} \<subseteq> insert e S"
  by (cases e) auto

lemma initialized_run:
  "LOGGER_THREADS_INITIALIZED (fold provision_step_at es provision_state_new) \<longleftrightarrow>
     StartEventThreads \<in> snd ` set es \<or> {RedirectorReady, KeyLatched, ListenerStarted} \<subseteq> snd ` set es"
proof (induction es rule: rev_induct)
  case Nil
  show ?case by (simp add: provision_state_new_def)
next
  case (snoc e es)
  define st where "st = fold provision_step_at es provision_state_new"
  have run: "fold provision_step_at (es @ [e]) provision_state_new = provision_step (fst e) (snd e) st"
    by (simp add: st_def provision_step_at_def del: provision_step.simps)
  have "STATE (provision_step (fst e) (snd e) st) = 7
      \<longleftrightarrow> {RedirectorReady, KeyLatched, ListenerStarted} \<subseteq> insert (snd e) (snd ` set es)"
    using provision_run_STATE [of "es @ [e]"] signal_bits_full [of "map snd (es @ [e])"]
    unfolding run by (simp del: provision_step.simps)
  moreover have "snd ` set (es @ [e]) = insert (snd e) (snd ` set es)"
    by simp
  ultimately show ?case
    using snoc unfolding run st_def [symmetric]
    by (simp only: initialized_step [of "fst e" "snd e" st] started_snoc)
qed

section \<open>Properties\<close>

text \<open>In every interleaving of the readiness signals, the time-up and repeated signals, the status
  file reports success exactly when the redirector, the key and the listener have all become ready;
  the time-up never overwrites a success, and a failure report never looks like one.\<close>

theorem provision_success_iff:
  assumes "\<forall>ev \<in> set es. fs_ok (fst ev)"
  shows "get_provision_status True (fold provision_step_at es provision_state_new) = (True, [])
     \<longleftrightarrow> {RedirectorReady, KeyLatched, ListenerStarted} \<subseteq> snd ` set es"
  using tag_inv_run [OF assms] signal_bits_full [of "map snd es"] provision_run_STATE [of es]
  by (auto simp: tag_inv_def get_provision_status_def split: option.splits)

definition example_provision_env :: provision_env where
  "example_provision_env = \<lparr>pe_now = ''t'', pe_write_tag_ok = True, pe_write_tmp_ok = True, pe_rename_ok = True,
     pe_key_message = ''k'', pe_redirector_message = ''r'', pe_listener_message = ''l''\<rparr>"

theorem provision_success_iff_witness:
  "get_provision_status True (fold provision_step_at
      (map (Pair example_provision_env) [KeyLatched, ProvisionTimeup, ListenerStarted, RedirectorReady, ProvisionTimeup])
      provision_state_new) = (True, [])"
proof -
  have "\<forall>ev \<in> set (map (Pair example_provision_env)
      [KeyLatched, ProvisionTimeup, ListenerStarted, RedirectorReady, ProvisionTimeup]). fs_ok (fst ev)"
    by code_simp
  from provision_success_iff [OF this] show ?thesis
    by simp
qed

text \<open>The event logger, event reader and status threads are started at most once over the whole life
  of the agent, and they are started exactly when provisioning has succeeded or the delayed start has
  been asked for.\<close>

theorem event_threads_started_once:
  "event_logger_starts (fold provision_step_at es provision_state_new)
     = (if StartEventThreads \<in> snd ` set es
           \<or> {RedirectorReady, KeyLatched, ListenerStarted} \<subseteq> snd ` set es then 1 else 0)
   \<and> event_reader_starts (fold provision_step_at es provision_state_new)
       = event_logger_starts (fold provision_step_at es provision_state_new)
   \<and> status_thread_starts (fold provision_step_at es provision_state_new)
       = event_logger_starts (fold provision_step_at es provision_state_new)"
proof -
  have "threads_inv (fold provision_step_at es provision_state_new)"
    by (rule prov.run_inv) (simp add: threads_inv_def provision_state_new_def)
  then show ?thesis
    using initialized_run [of es] by (simp add: threads_inv_def)
qed

end
