(* ===== verification/Key_Keeper.thy ===== *)
theory Key_Keeper
  imports Authorization Http_Stream Provision
begin

text \<open>
  \<^verbatim>\<open>proxy_agent/src/key_keeper.rs\<close> and the host calls of \<^verbatim>\<open>key_keeper/key.rs\<close>: the thread that polls the key
  status, installs the access rules, latches the key and signals provisioning. The static variables
  and the local variables of the loop are the record \<open>kk_state\<close>; one round of the loop is \<open>poll_step\<close>,
  a function of what the round observes of the clock, the host and the disk.
\<close>

section \<open>Calls to the host\<close>

text \<open>
  The environment of a call: the URL parser, the cryptography, the connection to the host, the clock
  and the JSON decoding of \<^verbatim>\<open>serde_json\<close>.
\<close>

record 'u host_env =
  he_urls :: "'u url_lib"
  he_crypto :: crypto_lib
  he_connect :: "string \<Rightarrow> u16 \<Rightarrow> tcp_stream io_result"
  he_now :: string
  he_json_status :: "string \<Rightarrow> key_status io_result"
  he_json_key :: "string \<Rightarrow> key io_result"

definition STATUS_URL :: string where "STATUS_URL = ''/secure-channel/status''"
definition KEY_URL :: string where "KEY_URL = ''/secure-channel/key''"

definition acquire_body :: string where
  "acquire_body = [CHR ''{'', CHR 0x22] @ ''authorizationScheme'' @ [CHR 0x22, CHR '':'', CHR '' '', CHR 0x22]
     @ ''Azure-HMAC-SHA256'' @ [CHR 0x22, CHR ''}'']"

definition with_host :: "'u url_lib \<Rightarrow> 'u http_request \<Rightarrow> 'u http_request" where
  "with_host U hr = hr\<lparr>hr_request := add_request_header ''Host'' (get_host U hr) (hr_request hr)\<rparr>"

definition status_request :: "'u host_env \<Rightarrow> 'u \<Rightarrow> 'u http_request" where
  "status_request env base_url =
     with_host (he_urls env) (http_request_new (the (url_join (he_urls env) base_url STATUS_URL))
       (add_request_header DATE_HEADER (he_now env)
         (add_request_header METADATA_HEADER ''True '' (request_new STATUS_URL ''GET''))))"

text \<open>\<^verbatim>\<open>key::get_status\<close>: the status the host reports, decoded and validated.\<close>

definition get_status :: "'u host_env \<Rightarrow> 'u \<Rightarrow> key_status io_result" where
  "get_status env base_url =
     (case fst (get_response_in_string (he_urls env) (he_connect env) (status_request env base_url)) of
        Inl e \<Rightarrow> Inl e
      | Inr resp \<Rightarrow>
          if resp_status resp \<noteq> OK then Inl Other
          else io_bind (from_utf8 (resp_body resp)) (\<lambda>bd.
                 io_bind (he_json_status env bd) (\<lambda>st.
                   io_bind (validate st) (\<lambda>_. Inr st))))"

definition acquire_request :: "'u host_env \<Rightarrow> 'u \<Rightarrow> 'u http_request" where
  "acquire_request env base_url =
     (let r0 = add_request_header ''Content-Type'' ''application/json''
                 (add_request_header DATE_HEADER (he_now env)
                   (add_request_header METADATA_HEADER ''True '' (request_new KEY_URL ''POST'')));
          r1 = r0\<lparr>req_body := acquire_body\<rparr>;
          r2 = add_request_header CONTENT_LENGTH_HEADER_NAME (show_nat (length (req_body r1))) r1
      in with_host (he_urls env) (http_request_new (the (url_join (he_urls env) base_url KEY_URL)) r2))"

definition acquire_key :: "'u host_env \<Rightarrow> 'u \<Rightarrow> key io_result" where
  "acquire_key env base_url =
     (case fst (get_response_in_string (he_urls env) (he_connect env) (acquire_request env base_url)) of
        Inl e \<Rightarrow> Inl e
      | Inr resp \<Rightarrow>
          if resp_status resp \<noteq> OK then io_bind (from_utf8 (resp_body resp)) (\<lambda>_. Inl Other)
          else io_bind (from_utf8 (resp_body resp)) (\<lambda>bd.
                 (case he_json_key env bd of Inr k \<Rightarrow> Inr k | Inl _ \<Rightarrow> Inl InvalidData)))"

definition attest_request :: "key \<Rightarrow> request" where
  "attest_request k =
     add_request_header CONTENT_LENGTH_HEADER_NAME (show_nat 0)
       (request_new (KEY_URL @ ''/'' @ key_guid k @ ''/key-attestation'') ''POST'')"

definition attest_url :: "'u url_lib \<Rightarrow> 'u \<Rightarrow> key \<Rightarrow> 'u" where
  "attest_url U base_url k =
     the (url_join U (the (url_join U (the (url_join U base_url KEY_URL)) (key_guid k))) ''key-attestation'')"

definition attest_key :: "'u host_env \<Rightarrow> 'u \<Rightarrow> key \<Rightarrow> unit io_result" where
  "attest_key env base_url k =
     (case new_proxy_agent_request (he_urls env) (he_crypto env) (he_now env)
             (attest_url (he_urls env) base_url k) (attest_request k) (key_guid k) (key_key k) of
        Inl e \<Rightarrow> Inl e
      | Inr hr \<Rightarrow>
          (case fst (get_response_in_string (he_urls env) (he_connect env) hr) of
             Inl e \<Rightarrow> Inl e
           | Inr resp \<Rightarrow> if resp_status resp \<noteq> OK then Inl Other else Inr ()))"

section \<open>State\<close>

definition UNKNOWN_STATE :: string where [agent_defs]: "UNKNOWN_STATE = ''Unknown''"
definition FREQUENT_PULL_INTERVAL :: nat where "FREQUENT_PULL_INTERVAL = 1"
definition FREQUENT_PULL_TIMEOUT_IN_MILLISECONDS :: nat where
  "FREQUENT_PULL_TIMEOUT_IN_MILLISECONDS = 300000"
definition PROVISION_TIMEUP_IN_MILLISECONDS :: nat where "PROVISION_TIMEUP_IN_MILLISECONDS = 120000"
definition DELAY_START_EVENT_THREADS_IN_MILLISECONDS :: nat where
  "DELAY_START_EVENT_THREADS_IN_MILLISECONDS = 60000"

text \<open>
  The effects of the thread on the rest of the program and on the host, in order: the calls to the
  host, the calls of \<^verbatim>\<open>provision\<close> and the sleeps (in seconds).
\<close>

datatype kk_action =
    Sleep nat
  | GetStatus
  | AcquireKey
  | AttestKey key
  | Provision provision_event

text \<open>
  \<open>kk_files\<close> are the files of the key directory by path: \<open>Some k\<close> when the file decodes to the key \<open>k\<close>,
  \<open>None\<close> when it exists and does not decode. Writing a key and reading it back gives the key, as
  \<^verbatim>\<open>serde_json\<close> promises for these types.
\<close>

record kk_state =
  CURRENT_SECURE_CHANNEL_STATE :: string
  CURRENT_KEY :: key
  KK_STATUS_MESSAGE :: string
  WIRESERVER_RULE_ID :: string
  IMDS_RULE_ID :: string
  kk_rules :: rule_state
  kk_files :: "(string, key option) hmap"
  first_iteration :: bool
  started_event_threads :: bool
  provision_timeup_done :: bool
  kk_stopped :: bool
  kk_trace :: "kk_action list"

definition THREAD_STARTED_MESSAGE :: string where
  "THREAD_STARTED_MESSAGE = ''poll secure channel status thread started.''"

text \<open>The state at the head of the loop, with the key files found on disk.\<close>

definition kk_state_new :: "(string, key option) hmap \<Rightarrow> kk_state" where
  "kk_state_new files = \<lparr>CURRENT_SECURE_CHANNEL_STATE = UNKNOWN_STATE, CURRENT_KEY = key_empty,
     KK_STATUS_MESSAGE = THREAD_STARTED_MESSAGE, WIRESERVER_RULE_ID = [], IMDS_RULE_ID = [],
     kk_rules = rule_state_new, kk_files = files, first_iteration = True, started_event_threads = False,
     provision_timeup_done = False, kk_stopped = False, kk_trace = []\<rparr>"

definition emit :: "kk_action \<Rightarrow> kk_state \<Rightarrow> kk_state" where
  "emit a st = st\<lparr>kk_trace := kk_trace st @ [a]\<rparr>"

text \<open>
  What one round observes: the stop flag, the clock at the three places it is read, the result of the
  status call (\<open>Inl\<close> carries the formatted error), of the acquire and attest calls, and of the file
  write, which may fail before the file is opened or after it was truncated, and the text of the
  start-up events.
\<close>

datatype write_outcome = Written | NotCreated | Truncated

record poll_obs =
  po_shutdown :: bool
  po_elapsed_sleep :: nat
  po_elapsed_timeup :: nat
  po_elapsed_events :: nat
  po_status :: "string + key_status"
  po_acquire :: "key io_result"
  po_attest :: "unit io_result"
  po_write :: write_outcome
  po_startup :: "string \<Rightarrow> string"

section \<open>One round of the poll\<close>

definition key_path :: "string \<Rightarrow> string \<Rightarrow> string" where
  "key_path key_dir guid = set_extension ''key'' (path_join key_dir guid)"

definition check_local_key :: "string \<Rightarrow> key \<Rightarrow> kk_state \<Rightarrow> bool" where
  "check_local_key key_dir k st =
     (case hm_get (kk_files st) (key_path key_dir (key_guid k)) of
        None \<Rightarrow> False
      | Some None \<Rightarrow> False
      | Some (Some local_key) \<Rightarrow> key_guid local_key = key_guid k \<and> key_key local_key = key_key k)"

definition poll_sleep :: "nat \<Rightarrow> poll_obs \<Rightarrow> kk_state \<Rightarrow> kk_state" where
  "poll_sleep interval ob st =
     (let st' = (if \<not> first_iteration st
                 then emit (Sleep (if CURRENT_SECURE_CHANNEL_STATE st = UNKNOWN_STATE
                                      \<and> po_elapsed_sleep ob < FREQUENT_PULL_TIMEOUT_IN_MILLISECONDS
                                   then FREQUENT_PULL_INTERVAL else interval)) st
                 else st)
      in st'\<lparr>first_iteration := False\<rparr>)"

definition poll_timeup :: "poll_obs \<Rightarrow> kk_state \<Rightarrow> kk_state" where
  "poll_timeup ob st =
     (if \<not> provision_timeup_done st \<and> po_elapsed_timeup ob > PROVISION_TIMEUP_IN_MILLISECONDS
      then (emit (Provision ProvisionTimeup) st)\<lparr>provision_timeup_done := True\<rparr> else st)"

definition poll_event_threads :: "poll_obs \<Rightarrow> kk_state \<Rightarrow> kk_state" where
  "poll_event_threads ob st =
     (if \<not> started_event_threads st \<and> po_elapsed_events ob > DELAY_START_EVENT_THREADS_IN_MILLISECONDS
      then (emit (Provision StartEventThreads) st)\<lparr>started_event_threads := True\<rparr> else st)"

definition update_wireserver_rules :: "key_status \<Rightarrow> kk_state \<Rightarrow> kk_state" where
  "update_wireserver_rules status st =
     (let wireserver_rule_id = get_wireserver_rule_id status
      in if wireserver_rule_id \<noteq> WIRESERVER_RULE_ID st
         then st\<lparr>WIRESERVER_RULE_ID := wireserver_rule_id,
                 kk_rules := set_wireserver_rules (get_wireserver_rules status) (kk_rules st)\<rparr>
         else st)"

definition update_imds_rules :: "key_status \<Rightarrow> kk_state \<Rightarrow> kk_state" where
  "update_imds_rules status st =
     (let imds_rule_id = get_imds_rule_id status
      in if imds_rule_id \<noteq> IMDS_RULE_ID st
         then st\<lparr>IMDS_RULE_ID := imds_rule_id,
                 kk_rules := set_imds_rules (get_imds_rules status) (kk_rules st)\<rparr>
         else st)"

text \<open>The search of the latched key on the local disk; the flag is \<^verbatim>\<open>key_found\<close>.\<close>

definition find_local_key :: "string \<Rightarrow> string \<Rightarrow> poll_obs \<Rightarrow> kk_state \<Rightarrow> bool \<times> kk_state" where
  "find_local_key key_dir guid ob st =
     (if guid \<noteq> []
      then (case hm_get (kk_files st) (key_path key_dir guid) of
              Some (Some k) \<Rightarrow>
                (True, emit (Provision KeyLatched)
                   (st\<lparr>CURRENT_KEY := k,
                       KK_STATUS_MESSAGE := po_startup ob ''Found key details from local and ready to use.''\<rparr>))
            | Some None \<Rightarrow> (False, st)
            | None \<Rightarrow> (False, st))
      else (False, st))"

text \<open>
  Acquiring a key from the host, saving it under the guid of the status or, when the status has none,
  of the key, checking the file and attesting it. The result flag is
  true when the rest of the round is skipped (\<^verbatim>\<open>continue\<close>). After a successful attestation the status
  message is set to the variable \<^verbatim>\<open>message\<close> of the enclosing function.
\<close>

definition save_key :: "string \<Rightarrow> string \<Rightarrow> poll_obs \<Rightarrow> key \<Rightarrow> kk_state \<Rightarrow> kk_state" where
  "save_key key_dir guid ob k st =
     (let guid' = (if guid = [] then key_guid k else guid)
      in case po_write ob of
           Written \<Rightarrow> st\<lparr>kk_files := hm_insert (key_path key_dir guid') (Some k) (kk_files st)\<rparr>
         | Truncated \<Rightarrow> st\<lparr>kk_files := hm_insert (key_path key_dir guid') None (kk_files st)\<rparr>
         | NotCreated \<Rightarrow> st)"

definition fetch_key :: "string \<Rightarrow> string \<Rightarrow> poll_obs \<Rightarrow> kk_state \<Rightarrow> bool \<times> kk_state" where
  "fetch_key key_dir guid ob st =
     (let st1 = emit AcquireKey st
      in case po_acquire ob of
           Inl e \<Rightarrow> (True, st1)
         | Inr k \<Rightarrow>
             (let st2 = save_key key_dir guid ob k st1
              in if check_local_key key_dir k st2
                 then (let st3 = emit (AttestKey k) st2
                       in case po_attest ob of
                            Inr _ \<Rightarrow> (False, emit (Provision KeyLatched)
                              (st3\<lparr>CURRENT_KEY := k, KK_STATUS_MESSAGE := THREAD_STARTED_MESSAGE\<rparr>))
                          | Inl e \<Rightarrow> (True, st3))
                 else (False, st2)))"

definition poll_key :: "string \<Rightarrow> key_status \<Rightarrow> poll_obs \<Rightarrow> kk_state \<Rightarrow> bool \<times> kk_state" where
  "poll_key key_dir status ob st =
     (let guid = (case ks_keyGuid status of Some i \<Rightarrow> i | None \<Rightarrow> []);
          state = get_secure_channel_state status
      in if state \<noteq> DISABLE_STATE \<and> guid \<noteq> key_guid (CURRENT_KEY st)
         then (case find_local_key key_dir guid ob st of
                 (True, st') \<Rightarrow> (False, st')
               | (False, st') \<Rightarrow> fetch_key key_dir guid ob st')
         else (False, st))"

definition poll_channel_state :: "key_status \<Rightarrow> poll_obs \<Rightarrow> kk_state \<Rightarrow> kk_state" where
  "poll_channel_state status ob st =
     (let state = get_secure_channel_state status
      in if state \<noteq> CURRENT_SECURE_CHANNEL_STATE st
         then (let st' = st\<lparr>CURRENT_SECURE_CHANNEL_STATE := state\<rparr>
               in if state = DISABLE_STATE
                  then emit (Provision KeyLatched)
                    (st'\<lparr>KK_STATUS_MESSAGE := po_startup ob ''Customer has not enforce the secure channel state.''\<rparr>)
                  else st')
         else st)"

definition poll_status :: "string \<Rightarrow> key_status \<Rightarrow> poll_obs \<Rightarrow> kk_state \<Rightarrow> kk_state" where
  "poll_status key_dir status ob st =
     (case poll_key key_dir status ob (update_imds_rules status (update_wireserver_rules status st)) of
        (True, st') \<Rightarrow> st'
      | (False, st') \<Rightarrow> poll_channel_state status ob st')"

definition poll_step :: "string \<Rightarrow> nat \<Rightarrow> poll_obs \<Rightarrow> kk_state \<Rightarrow> kk_state" where
  "poll_step key_dir interval ob st =
     (if kk_stopped st then st
      else if po_shutdown ob
      then st\<lparr>kk_stopped := True,
              KK_STATUS_MESSAGE := ''Stop signal received, exiting the poll_secure_channel_status thread.''\<rparr>
      else (let st1 = emit GetStatus (poll_event_threads ob (poll_timeup ob (poll_sleep interval ob st)))
            in case po_status ob of
                 Inl err \<Rightarrow> st1\<lparr>KK_STATUS_MESSAGE := ''Failed to get key status - '' @ err\<rparr>
               | Inr status \<Rightarrow> poll_status key_dir status ob st1))"

text \<open>\<^verbatim>\<open>key_keeper::get_status\<close>: the module status, given the stop flag.\<close>

definition key_keeper_get_status :: "bool \<Rightarrow> kk_state \<Rightarrow> detail_status" where
  "key_keeper_get_status shutdown st =
     (let base = hm_insert ''imdsRuleId'' (IMDS_RULE_ID st)
                   (hm_insert ''wireServerRuleId'' (WIRESERVER_RULE_ID st)
                     (hm_insert ''keyGuid'' (key_guid (CURRENT_KEY st))
                       (hm_insert ''secureChannelState'' (CURRENT_SECURE_CHANNEL_STATE st) [])));
          states = (case key_incarnationId (CURRENT_KEY st) of
                      Some i \<Rightarrow> hm_insert ''keyIncarnationId'' (show_nat (unat i)) base
                    | None \<Rightarrow> base)
      in \<lparr>ds_status = (if shutdown then STOPPED else RUNNING), ds_message = KK_STATUS_MESSAGE st,
          ds_states = Some states\<rparr>)"

definition get_current_key :: "kk_state \<Rightarrow> string" where
  "get_current_key st = key_key (CURRENT_KEY st)"

definition get_current_key_guid :: "kk_state \<Rightarrow> string" where
  "get_current_key_guid st = key_guid (CURRENT_KEY st)"

text \<open>
  The observation of a round that talks to the host: the three calls, each in the environment of its
  moment; the attestation is of the key that was acquired. \<open>hr_error\<close> formats the error of the status call.
\<close>

record 'u host_round =
  hr_status_env :: "'u host_env"
  hr_acquire_env :: "'u host_env"
  hr_attest_env :: "'u host_env"
  hr_base_url :: 'u
  hr_error :: "error_kind \<Rightarrow> string"
  hr_obs :: poll_obs

definition observe_host :: "'u host_round \<Rightarrow> poll_obs" where
  "observe_host h =
     (let acquired = acquire_key (hr_acquire_env h) (hr_base_url h)
      in (hr_obs h)\<lparr>
           po_status := (case get_status (hr_status_env h) (hr_base_url h) of Inl e \<Rightarrow> Inl (hr_error h e) | Inr s \<Rightarrow> Inr s),
           po_acquire := acquired,
           po_attest := (case acquired of Inl e \<Rightarrow> Inl e | Inr k \<Rightarrow> attest_key (hr_attest_env h) (hr_base_url h) k)\<rparr>)"

section \<open>Frames\<close>

lemma emit_simps [simp]:
  "kk_trace (emit a st) = kk_trace st @ [a]"
  "CURRENT_KEY (emit a st) = CURRENT_KEY st"
  "CURRENT_SECURE_CHANNEL_STATE (emit a st) = CURRENT_SECURE_CHANNEL_STATE st"
  "kk_files (emit a st) = kk_files st"
  "kk_rules (emit a st) = kk_rules st"
  "WIRESERVER_RULE_ID (emit a st) = WIRESERVER_RULE_ID st"
  "IMDS_RULE_ID (emit a st) = IMDS_RULE_ID st"
  "provision_timeup_done (emit a st) = provision_timeup_done st"
  "started_event_threads (emit a st) = started_event_threads st"
  "kk_stopped (emit a st) = kk_stopped st"
  by (simp_all add: emit_def)

lemma check_local_key_cong: "kk_files st = kk_files st' \<Longrightarrow> check_local_key d k st = check_local_key d k st'"
  by (simp add: check_local_key_def)

text \<open>The start of a round: sleeping and the two time-outs, then the status call.\<close>

definition round_start :: "nat \<Rightarrow> poll_obs \<Rightarrow> kk_state \<Rightarrow> kk_state" where
  "round_start interval ob st = emit GetStatus (poll_event_threads ob (poll_timeup ob (poll_sleep interval ob st)))"

lemmas round_start_defs = round_start_def poll_event_threads_def poll_timeup_def poll_sleep_def

lemma round_start_frame [agent_frame]:
  "CURRENT_KEY (round_start i ob st) = CURRENT_KEY st"
  "CURRENT_SECURE_CHANNEL_STATE (round_start i ob st) = CURRENT_SECURE_CHANNEL_STATE st"
  "kk_files (round_start i ob st) = kk_files st"
  "kk_rules (round_start i ob st) = kk_rules st"
  "WIRESERVER_RULE_ID (round_start i ob st) = WIRESERVER_RULE_ID st"
  "IMDS_RULE_ID (round_start i ob st) = IMDS_RULE_ID st"
  by (simp_all add: round_start_defs Let_def)

lemma round_start_trace:
  "\<exists>as. kk_trace (round_start i ob st) = kk_trace st @ as
     \<and> set as \<subseteq> {GetStatus, Provision ProvisionTimeup, Provision StartEventThreads} \<union> range Sleep"
  by (auto simp: round_start_defs Let_def)

lemma update_rules_frame [agent_frame]:
  "CURRENT_KEY (update_imds_rules s st) = CURRENT_KEY st"
  "CURRENT_SECURE_CHANNEL_STATE (update_imds_rules s st) = CURRENT_SECURE_CHANNEL_STATE st"
  "kk_files (update_imds_rules s st) = kk_files st"
  "kk_trace (update_imds_rules s st) = kk_trace st"
  "WIRESERVER_RULE_ID (update_imds_rules s st) = WIRESERVER_RULE_ID st"
  "WIRESERVER_RULES (kk_rules (update_imds_rules s st)) = WIRESERVER_RULES (kk_rules st)"
  "provision_timeup_done (update_imds_rules s st) = provision_timeup_done st"
  "started_event_threads (update_imds_rules s st) = started_event_threads st"
  "CURRENT_KEY (update_wireserver_rules s st) = CURRENT_KEY st"
  "CURRENT_SECURE_CHANNEL_STATE (update_wireserver_rules s st) = CURRENT_SECURE_CHANNEL_STATE st"
  "kk_files (update_wireserver_rules s st) = kk_files st"
  "kk_trace (update_wireserver_rules s st) = kk_trace st"
  "IMDS_RULE_ID (update_wireserver_rules s st) = IMDS_RULE_ID st"
  "IMDS_RULES (kk_rules (update_wireserver_rules s st)) = IMDS_RULES (kk_rules st)"
  "provision_timeup_done (update_wireserver_rules s st) = provision_timeup_done st"
  "started_event_threads (update_wireserver_rules s st) = started_event_threads st"
  by (simp_all add: update_imds_rules_def update_wireserver_rules_def Let_def set_imds_rules_def set_wireserver_rules_def)

text \<open>A round that is not stopped, from the status on.\<close>

lemma poll_step_Inr:
  "\<not> kk_stopped st \<Longrightarrow> \<not> po_shutdown ob \<Longrightarrow> po_status ob = Inr status \<Longrightarrow>
   poll_step d i ob st = poll_status d status ob (round_start i ob st)"
  by (simp add: poll_step_def round_start_def)

lemma poll_step_Inl:
  "\<not> kk_stopped st \<Longrightarrow> \<not> po_shutdown ob \<Longrightarrow> po_status ob = Inl err \<Longrightarrow>
   poll_step d i ob st = (round_start i ob st)\<lparr>KK_STATUS_MESSAGE := ''Failed to get key status - '' @ err\<rparr>"
  by (simp add: poll_step_def round_start_def)

section \<open>The key part of a round\<close>

text \<open>How a round gets a key: from the local file of the status' guid, or acquired, saved and attested.\<close>

definition key_obtained :: "string \<Rightarrow> key_status \<Rightarrow> poll_obs \<Rightarrow> kk_state \<Rightarrow> kk_state \<Rightarrow> key \<Rightarrow> bool" where
  "key_obtained d status ob st st' k \<longleftrightarrow>
     (\<exists>g. ks_keyGuid status = Some g \<and> g \<noteq> [] \<and> hm_get (kk_files st) (key_path d g) = Some (Some k))
     \<or> (po_acquire ob = Inr k \<and> po_attest ob = Inr () \<and> check_local_key d k st')"

lemma key_obtained_cong:
  "kk_files st = kk_files s \<Longrightarrow> kk_files st' = kk_files s' \<Longrightarrow>
   key_obtained d status ob st st' k = key_obtained d status ob s s' k"
  by (simp add: key_obtained_def check_local_key_def)

lemma find_local_key_True:
  assumes "find_local_key d g ob st = (True, st')"
  shows "g \<noteq> [] \<and> hm_get (kk_files st) (key_path d g) = Some (Some (CURRENT_KEY st')) \<and> kk_files st' = kk_files st
    \<and> kk_trace st' = kk_trace st @ [Provision KeyLatched]
    \<and> CURRENT_SECURE_CHANNEL_STATE st' = CURRENT_SECURE_CHANNEL_STATE st"
  using assms by (auto simp: find_local_key_def split: if_splits option.splits)

lemma find_local_key_False: "find_local_key d g ob st = (False, st') \<Longrightarrow> st' = st"
  by (auto simp: find_local_key_def split: if_splits option.splits)

lemma save_key_frame [simp]:
  "kk_trace (save_key d g ob k st) = kk_trace st"
  "CURRENT_KEY (save_key d g ob k st) = CURRENT_KEY st"
  "CURRENT_SECURE_CHANNEL_STATE (save_key d g ob k st) = CURRENT_SECURE_CHANNEL_STATE st"
  "provision_timeup_done (save_key d g ob k st) = provision_timeup_done st"
  "started_event_threads (save_key d g ob k st) = started_event_threads st"
  by (simp_all add: save_key_def Let_def split: write_outcome.splits)

text \<open>The four ways a fetch ends.\<close>

lemma fetch_key_cases:
  assumes "fetch_key d g ob st = (c, st')"
  obtains e where "po_acquire ob = Inl e" "c" "st' = emit AcquireKey st"
  | k where "po_acquire ob = Inr k" "\<not> c" "st' = save_key d g ob k (emit AcquireKey st)"
      "\<not> check_local_key d k st'"
  | k e where "po_acquire ob = Inr k" "c" "po_attest ob = Inl e" "check_local_key d k st'"
      "st' = emit (AttestKey k) (save_key d g ob k (emit AcquireKey st))"
  | k where "po_acquire ob = Inr k" "\<not> c" "po_attest ob = Inr ()" "check_local_key d k st'"
      "st' = emit (Provision KeyLatched) ((emit (AttestKey k) (save_key d g ob k (emit AcquireKey st)))
         \<lparr>CURRENT_KEY := k, KK_STATUS_MESSAGE := THREAD_STARTED_MESSAGE\<rparr>)"
proof (cases "po_acquire ob")
  case (Inl e)
  with assms that(1) show ?thesis by (auto simp: fetch_key_def)
next
  case (Inr k)
  let ?st2 = "save_key d g ob k (emit AcquireKey st)"
  have eq: "fetch_key d g ob st = (if check_local_key d k ?st2
      then (case po_attest ob of
              Inr _ \<Rightarrow> (False, emit (Provision KeyLatched)
                ((emit (AttestKey k) ?st2)\<lparr>CURRENT_KEY := k, KK_STATUS_MESSAGE := THREAD_STARTED_MESSAGE\<rparr>))
            | Inl e \<Rightarrow> (True, emit (AttestKey k) ?st2))
      else (False, ?st2))"
    using Inr by (simp add: fetch_key_def Let_def)
  show ?thesis
  proof (cases "check_local_key d k ?st2")
    case False
    with eq assms Inr that(2) show ?thesis by simp
  next
    case True
    with eq assms Inr that(3,4) show ?thesis
      by (cases "po_attest ob") (auto simp: check_local_key_def)
  qed
qed

definition wants_key :: "key_status \<Rightarrow> kk_state \<Rightarrow> bool" where
  "wants_key status st \<longleftrightarrow> get_secure_channel_state status \<noteq> DISABLE_STATE
     \<and> (case ks_keyGuid status of Some i \<Rightarrow> i | None \<Rightarrow> []) \<noteq> key_guid (CURRENT_KEY st)"

text \<open>What a round may do with keys, as a relation between the states before and after.\<close>

definition key_round :: "string \<Rightarrow> key_status \<Rightarrow> poll_obs \<Rightarrow> kk_state \<Rightarrow> kk_state \<Rightarrow> bool" where
  "key_round d status ob st st' \<longleftrightarrow>
     (\<exists>as. kk_trace st' = kk_trace st @ as
        \<and> (\<forall>k. AttestKey k \<in> set as \<longrightarrow> po_acquire ob = Inr k \<and> check_local_key d k st')
        \<and> (AcquireKey \<in> set as \<longrightarrow> wants_key status st)
        \<and> (CURRENT_KEY st' \<noteq> CURRENT_KEY st \<longrightarrow>
             wants_key status st \<and> key_obtained d status ob st st' (CURRENT_KEY st')
             \<and> Provision KeyLatched \<in> set as))"

lemma key_roundI:
  assumes "kk_trace st' = kk_trace st @ as" and "\<And>k. AttestKey k \<in> set as \<Longrightarrow> po_acquire ob = Inr k \<and> check_local_key d k st'"
    and "AcquireKey \<in> set as \<Longrightarrow> wants_key status st"
    and "CURRENT_KEY st' \<noteq> CURRENT_KEY st \<Longrightarrow> wants_key status st
      \<and> key_obtained d status ob st st' (CURRENT_KEY st') \<and> Provision KeyLatched \<in> set as"
  shows "key_round d status ob st st'"
  unfolding key_round_def using assms by blast

lemma key_round_refl: "key_round d status ob st st"
  by (rule key_roundI [of _ _ "[]"]) simp_all

lemma fetch_key_round:
  assumes "fetch_key d g ob st = (c, st')" and "wants_key status st"
  shows "key_round d status ob st st'"
  using assms(1)
proof (cases rule: fetch_key_cases)
  case (1 e)
  with assms(2) show ?thesis by (intro key_roundI [of _ _ "[AcquireKey]"]) simp_all
next
  case (2 k)
  with assms(2) show ?thesis by (intro key_roundI [of _ _ "[AcquireKey]"]) simp_all
next
  case (3 k e)
  with assms(2) show ?thesis
    by (intro key_roundI [of _ _ "[AcquireKey, AttestKey k]"]) auto
next
  case (4 k)
  with assms(2) show ?thesis
    by (intro key_roundI [of _ _ "[AcquireKey, AttestKey k, Provision KeyLatched]"]) (auto simp: key_obtained_def)
qed

lemma poll_key_round:
  assumes "poll_key d status ob st = (c, st')"
  shows "key_round d status ob st st'"
proof (cases "wants_key status st")
  case False
  with assms have "st' = st"
    by (auto simp: poll_key_def wants_key_def Let_def)
  then show ?thesis by (simp add: key_round_refl)
next
  case True
  define g where "g = (case ks_keyGuid status of Some i \<Rightarrow> i | None \<Rightarrow> [])"
  from True assms have run: "(case find_local_key d g ob st of
      (True, s) \<Rightarrow> (False, s) | (False, s) \<Rightarrow> fetch_key d g ob s) = (c, st')"
    by (simp add: poll_key_def wants_key_def g_def [symmetric] Let_def)
  obtain f s where fl: "find_local_key d g ob st = (f, s)"
    by fastforce
  show ?thesis
  proof (cases f)
    case True
    with fl run find_local_key_True [of d g ob st s] have
      "g \<noteq> []" "hm_get (kk_files st) (key_path d g) = Some (Some (CURRENT_KEY st'))"
      "kk_trace st' = kk_trace st @ [Provision KeyLatched]"
      by auto
    moreover from this(1) have "ks_keyGuid status = Some g"
      by (auto simp: g_def split: option.splits)
    ultimately show ?thesis
      using \<open>wants_key status st\<close>
      by (intro key_roundI [of _ _ "[Provision KeyLatched]"]) (auto simp: key_obtained_def)
  next
    case False
    with fl run find_local_key_False [of d g ob st s] show ?thesis
      using fetch_key_round [OF _ \<open>wants_key status st\<close>] by simp
  qed
qed

lemma poll_channel_state_frame [agent_frame]:
  "CURRENT_KEY (poll_channel_state s ob st) = CURRENT_KEY st"
  "kk_files (poll_channel_state s ob st) = kk_files st"
  "CURRENT_SECURE_CHANNEL_STATE (poll_channel_state s ob st) = get_secure_channel_state s"
  "WIRESERVER_RULE_ID (poll_channel_state s ob st) = WIRESERVER_RULE_ID st"
  "IMDS_RULE_ID (poll_channel_state s ob st) = IMDS_RULE_ID st"
  "kk_rules (poll_channel_state s ob st) = kk_rules st"
  by (simp_all add: poll_channel_state_def Let_def)

lemma poll_channel_state_trace:
  "\<exists>as. kk_trace (poll_channel_state s ob st) = kk_trace st @ as \<and> set as \<subseteq> {Provision KeyLatched}"
  by (auto simp: poll_channel_state_def Let_def)

text \<open>Steps before and after that leave the key and the files alone keep the relation.\<close>

lemma key_round_before:
  assumes "key_round d status ob s st'" and "CURRENT_KEY s = CURRENT_KEY st" and "kk_files s = kk_files st"
    and "kk_trace s = kk_trace st @ as" and "AcquireKey \<notin> set as" and "\<And>k. AttestKey k \<notin> set as"
  shows "key_round d status ob st st'"
proof -
  have "wants_key status s = wants_key status st" and "key_obtained d status ob s st' = key_obtained d status ob st st'"
    using assms(2,3) by (simp_all add: wants_key_def key_obtained_def fun_eq_iff)
  then show ?thesis
    using assms unfolding key_round_def by (auto 0 3 intro: exI [of _ "as @ _"])
qed

lemma key_round_after:
  assumes "key_round d status ob st s" and "CURRENT_KEY st' = CURRENT_KEY s" and "kk_files st' = kk_files s"
    and "kk_trace st' = kk_trace s @ as" and "AcquireKey \<notin> set as" and "\<And>k. AttestKey k \<notin> set as"
  shows "key_round d status ob st st'"
proof -
  have "check_local_key d k st' = check_local_key d k s" for k
    using assms(3) by (simp add: check_local_key_def)
  moreover from this have "key_obtained d status ob st st' = key_obtained d status ob st s"
    by (simp add: key_obtained_def fun_eq_iff)
  ultimately show ?thesis
    using assms unfolding key_round_def by (auto 0 3 intro: exI [of _ "_ @ as"])
qed

lemma poll_status_round: "key_round d status ob st (poll_status d status ob st)"
proof -
  let ?s0 = "update_imds_rules status (update_wireserver_rules status st)"
  obtain c s where pk: "poll_key d status ob ?s0 = (c, s)"
    by fastforce
  have r: "key_round d status ob st s"
    by (rule key_round_before [OF poll_key_round [OF pk], where as = "[]"]) (simp_all add: agent_frame)
  show ?thesis
  proof (cases c)
    case True
    with pk r show ?thesis by (simp add: poll_status_def)
  next
    case False
    obtain as where tr: "kk_trace (poll_channel_state status ob s) = kk_trace s @ as" "set as \<subseteq> {Provision KeyLatched}"
      using poll_channel_state_trace by blast
    from tr(2) have "AcquireKey \<notin> set as" "AttestKey k \<notin> set as" for k
      by auto
    then have "key_round d status ob st (poll_channel_state status ob s)"
      using key_round_after [OF r _ _ tr(1)] by (simp add: poll_channel_state_frame)
    with False pk show ?thesis by (simp add: poll_status_def)
  qed
qed

lemma poll_step_round:
  assumes "\<not> kk_stopped st" and "\<not> po_shutdown ob" and "po_status ob = Inr status"
  shows "key_round d status ob st (poll_step d i ob st)"
proof -
  obtain as where "kk_trace (round_start i ob st) = kk_trace st @ as"
    "set as \<subseteq> {GetStatus, Provision ProvisionTimeup, Provision StartEventThreads} \<union> range Sleep"
    using round_start_trace by blast
  then show ?thesis
    unfolding poll_step_Inr [OF assms]
    by (intro key_round_before [OF poll_status_round, where as = as]) (auto simp: agent_frame)
qed

text \<open>Without a status nothing happens to keys, files, rules or the channel state.\<close>

lemma poll_step_idle:
  assumes "kk_stopped st \<or> po_shutdown ob \<or> (\<exists>err. po_status ob = Inl err)"
  shows "CURRENT_KEY (poll_step d i ob st) = CURRENT_KEY st \<and> kk_files (poll_step d i ob st) = kk_files st
    \<and> kk_rules (poll_step d i ob st) = kk_rules st
    \<and> CURRENT_SECURE_CHANNEL_STATE (poll_step d i ob st) = CURRENT_SECURE_CHANNEL_STATE st
    \<and> (\<exists>as. kk_trace (poll_step d i ob st) = kk_trace st @ as \<and> AcquireKey \<notin> set as \<and> (\<forall>k. AttestKey k \<notin> set as))"
proof (cases "kk_stopped st \<or> po_shutdown ob")
  case True
  then show ?thesis by (auto simp: poll_step_def)
next
  case False
  with assms obtain err where "po_status ob = Inl err"
    by blast
  with False show ?thesis
    using round_start_trace [of i ob st] by (fastforce simp: poll_step_Inl agent_frame)
qed

section \<open>Invariants of the thread\<close>

text \<open>
  Time-up and delayed thread start are signalled at most once, and a key is in use only after
  provisioning has been told.
\<close>

definition kk_inv :: "kk_state \<Rightarrow> bool" where
  "kk_inv st \<longleftrightarrow>
     count_list (kk_trace st) (Provision ProvisionTimeup) = (if provision_timeup_done st then 1 else 0)
     \<and> count_list (kk_trace st) (Provision StartEventThreads) = (if started_event_threads st then 1 else 0)
     \<and> (CURRENT_KEY st = key_empty \<or> Provision KeyLatched \<in> set (kk_trace st))"

lemma kk_inv_round_start: "kk_inv st \<Longrightarrow> kk_inv (round_start i ob st)"
  by (auto simp: kk_inv_def round_start_defs Let_def)

lemma kk_inv_update: "kk_inv st \<Longrightarrow> kk_inv (update_imds_rules s (update_wireserver_rules s' st))"
  by (simp add: kk_inv_def agent_frame)

lemma kk_inv_message: "kk_inv st \<Longrightarrow> kk_inv (st\<lparr>KK_STATUS_MESSAGE := m\<rparr>)"
  by (simp add: kk_inv_def)

lemma kk_inv_poll_channel_state: "kk_inv st \<Longrightarrow> kk_inv (poll_channel_state s ob st)"
  by (auto simp: kk_inv_def poll_channel_state_def Let_def)

lemma kk_inv_fetch_key:
  assumes "kk_inv st" and "fetch_key d g ob st = (c, st')"
  shows "kk_inv st'"
  using assms(2) by (cases rule: fetch_key_cases) (use assms(1) in \<open>simp_all add: kk_inv_def\<close>)

lemma kk_inv_find_local_key: "kk_inv st \<Longrightarrow> find_local_key d g ob st = (c, st') \<Longrightarrow> kk_inv st'"
  by (auto simp: kk_inv_def find_local_key_def split: option.splits if_splits)

lemma kk_inv_poll_key:
  assumes "kk_inv st" and "poll_key d s ob st = (c, st')"
  shows "kk_inv st'"
proof (cases "wants_key s st")
  case False
  with assms show ?thesis by (auto simp: poll_key_def wants_key_def Let_def)
next
  case True
  define g where "g = (case ks_keyGuid s of Some i \<Rightarrow> i | None \<Rightarrow> [])"
  obtain f s1 where fl: "find_local_key d g ob st = (f, s1)"
    by fastforce
  from True assms(2) fl have "(c, st') = (if f then (False, s1) else fetch_key d g ob s1)"
    by (cases f) (simp_all add: poll_key_def wants_key_def g_def [symmetric] Let_def)
  with kk_inv_find_local_key [OF assms(1) fl] kk_inv_fetch_key [of s1 d g ob c st'] show ?thesis
    by (cases f) auto
qed

lemma kk_inv_poll_status:
  assumes "kk_inv st"
  shows "kk_inv (poll_status d s ob st)"
proof -
  obtain c s1 where pk: "poll_key d s ob (update_imds_rules s (update_wireserver_rules s st)) = (c, s1)"
    by fastforce
  have "kk_inv s1"
    by (rule kk_inv_poll_key [OF kk_inv_update [OF assms] pk])
  with pk show ?thesis
    by (cases c) (simp_all add: poll_status_def kk_inv_poll_channel_state)
qed

interpretation kk: step_system "poll_step d i" kk_inv for d i
proof
  fix st ob
  assume inv: "kk_inv st"
  show "kk_inv (poll_step d i ob st)"
  proof (cases "kk_stopped st \<or> po_shutdown ob")
    case True
    with inv show ?thesis by (auto simp: poll_step_def kk_inv_def)
  next
    case False
    with inv show ?thesis
      by (cases "po_status ob")
         (simp_all add: poll_step_Inl poll_step_Inr kk_inv_message kk_inv_poll_status kk_inv_round_start)
  qed
qed

section \<open>Rules and channel state after a round\<close>

definition same_rules :: "kk_state \<Rightarrow> kk_state \<Rightarrow> bool" where
  "same_rules st st' \<longleftrightarrow> kk_rules st' = kk_rules st \<and> WIRESERVER_RULE_ID st' = WIRESERVER_RULE_ID st
     \<and> IMDS_RULE_ID st' = IMDS_RULE_ID st"

lemma same_rules_save_key [simp]: "same_rules st (save_key d g ob k st)"
  by (simp add: same_rules_def save_key_def Let_def split: write_outcome.splits)

lemma poll_key_rules:
  assumes "poll_key d s ob st = (c, st')"
  shows "same_rules st st'"
proof -
  define g where "g = (case ks_keyGuid s of Some i \<Rightarrow> i | None \<Rightarrow> [])"
  have find: "same_rules st s1" if "find_local_key d g ob st = (f, s1)" for f s1
    using that by (auto simp: find_local_key_def same_rules_def split: if_splits option.splits)
  have fetch: "same_rules s1 s2" if "fetch_key d g ob s1 = (f, s2)" for f s1 s2
    using that
  proof (cases rule: fetch_key_cases)
    case (2 k)
    then show ?thesis using same_rules_save_key [of "emit AcquireKey s1" d g ob k] by (simp add: same_rules_def)
  next
    case (3 k e)
    then show ?thesis using same_rules_save_key [of "emit AcquireKey s1" d g ob k] by (simp add: same_rules_def)
  next
    case (4 k)
    then show ?thesis using same_rules_save_key [of "emit AcquireKey s1" d g ob k] by (simp add: same_rules_def)
  qed (simp add: same_rules_def)
  obtain f s1 where fl: "find_local_key d g ob st = (f, s1)"
    by fastforce
  show ?thesis
  proof (cases "wants_key s st")
    case True
    with assms fl have "(c, st') = (if f then (False, s1) else fetch_key d g ob s1)"
      by (cases f) (simp_all add: poll_key_def wants_key_def g_def [symmetric] Let_def)
    with find [OF fl] fetch [of s1 c st'] show ?thesis
      by (cases f) (auto simp: same_rules_def)
  next
    case False
    with assms show ?thesis by (auto simp: poll_key_def wants_key_def Let_def same_rules_def)
  qed
qed

lemma poll_status_rules:
  "same_rules (update_imds_rules s (update_wireserver_rules s st)) (poll_status d s ob st)"
proof -
  obtain c s1 where pk: "poll_key d s ob (update_imds_rules s (update_wireserver_rules s st)) = (c, s1)"
    by fastforce
  from poll_key_rules [OF pk] pk show ?thesis
    by (cases c) (simp_all add: poll_status_def same_rules_def poll_channel_state_frame)
qed

text \<open>The way a fetch succeeds: the key is written where the check looks for it.\<close>

lemma check_local_key_saved:
  assumes "po_write ob = Written" and "g = [] \<or> g = key_guid k"
  shows "check_local_key d k (save_key d g ob k st)"
  using assms by (auto simp: check_local_key_def save_key_def Let_def)

lemma fetch_key_success:
  assumes "po_acquire ob = Inr k" and "po_write ob = Written" and "po_attest ob = Inr ()" and "g = [] \<or> g = key_guid k"
  obtains st' where "fetch_key d g ob st = (False, st')" "CURRENT_KEY st' = k" "check_local_key d k st'"
    "kk_trace st' = kk_trace st @ [AcquireKey, AttestKey k, Provision KeyLatched]"
proof -
  obtain c st' where run: "fetch_key d g ob st = (c, st')"
    by fastforce
  from run show ?thesis
  proof (cases rule: fetch_key_cases)
    case (2 k')
    with assms check_local_key_saved [of ob g k d] show ?thesis by simp
  next
    case (4 k')
    with assms run that show ?thesis by simp
  qed (use assms in simp_all)
qed

lemma poll_key_fetch:
  assumes "wants_key status st" and g: "g = (case ks_keyGuid status of Some i \<Rightarrow> i | None \<Rightarrow> [])"
    and "g \<noteq> [] \<Longrightarrow> \<nexists>k. hm_get (kk_files st) (key_path d g) = Some (Some k)"
  shows "poll_key d status ob st = fetch_key d g ob st"
proof -
  have "find_local_key d g ob st = (False, st)"
    using assms(3) by (auto simp: find_local_key_def split: option.splits)
  with assms(1) show ?thesis
    by (simp add: poll_key_def wants_key_def g [symmetric] Let_def)
qed

text \<open>The rules a status brings: replaced when its rule id is a new one.\<close>

lemma update_rules_spec:
  "kk_rules (update_imds_rules s (update_wireserver_rules s st)) =
     \<lparr>WIRESERVER_RULES = (if get_wireserver_rule_id s \<noteq> WIRESERVER_RULE_ID st
        then WIRESERVER_RULES (set_wireserver_rules (get_wireserver_rules s) rule_state_new)
        else WIRESERVER_RULES (kk_rules st)),
      IMDS_RULES = (if get_imds_rule_id s \<noteq> IMDS_RULE_ID st
        then IMDS_RULES (set_imds_rules (get_imds_rules s) rule_state_new) else IMDS_RULES (kk_rules st))\<rparr>"
  "WIRESERVER_RULE_ID (update_imds_rules s (update_wireserver_rules s st)) = get_wireserver_rule_id s"
  "IMDS_RULE_ID (update_imds_rules s (update_wireserver_rules s st)) = get_imds_rule_id s"
  by (cases "kk_rules st", simp add: update_imds_rules_def update_wireserver_rules_def Let_def
        set_imds_rules_def set_wireserver_rules_def)
     (simp_all add: update_imds_rules_def update_wireserver_rules_def Let_def)

lemma poll_step_latches:
  assumes run: "\<not> kk_stopped st" "\<not> po_shutdown ob" "po_status ob = Inr status" and w: "wants_key status st"
    and g: "g = (case ks_keyGuid status of Some i \<Rightarrow> i | None \<Rightarrow> [])"
    and miss: "g \<noteq> [] \<Longrightarrow> \<nexists>k. hm_get (kk_files st) (key_path d g) = Some (Some k)"
    and ok: "po_acquire ob = Inr k" "po_write ob = Written" "po_attest ob = Inr ()" "g = [] \<or> g = key_guid k"
  shows "CURRENT_KEY (poll_step d i ob st) = k" and "check_local_key d k (poll_step d i ob st)"
    and "CURRENT_SECURE_CHANNEL_STATE (poll_step d i ob st) = get_secure_channel_state status"
    and "kk_trace (poll_step d i ob st)
      = kk_trace (round_start i ob st) @ [AcquireKey, AttestKey k, Provision KeyLatched]"
proof -
  let ?s = "update_imds_rules status (update_wireserver_rules status (round_start i ob st))"
  have files: "kk_files ?s = kk_files st" and w': "wants_key status ?s"
    using w by (simp_all add: agent_frame wants_key_def)
  from miss files have miss': "g \<noteq> [] \<Longrightarrow> \<nexists>k. hm_get (kk_files ?s) (key_path d g) = Some (Some k)"
    by simp
  obtain s' where s': "fetch_key d g ob ?s = (False, s')" "CURRENT_KEY s' = k" "check_local_key d k s'"
    "kk_trace s' = kk_trace ?s @ [AcquireKey, AttestKey k, Provision KeyLatched]"
    using fetch_key_success [OF ok] by blast
  have step: "poll_step d i ob st = poll_channel_state status ob s'"
    using poll_key_fetch [OF w' g miss', of ob] s'(1)
    by (simp add: poll_step_Inr [OF run] poll_status_def)
  from w have nd: "get_secure_channel_state status \<noteq> DISABLE_STATE"
    by (simp add: wants_key_def)
  show "CURRENT_KEY (poll_step d i ob st) = k"
    and "CURRENT_SECURE_CHANNEL_STATE (poll_step d i ob st) = get_secure_channel_state status"
    using s'(2) by (simp_all add: step agent_frame)
  show "check_local_key d k (poll_step d i ob st)"
    using s'(3) by (simp add: step agent_frame check_local_key_def)
  show "kk_trace (poll_step d i ob st)
      = kk_trace (round_start i ob st) @ [AcquireKey, AttestKey k, Provision KeyLatched]"
    using s'(4) nd by (simp add: step agent_frame poll_channel_state_def Let_def)
qed

lemma poll_step_rules:
  assumes "\<not> kk_stopped st" and "\<not> po_shutdown ob" and "po_status ob = Inr s"
  shows "WIRESERVER_RULE_ID (poll_step d i ob st) = get_wireserver_rule_id s
    \<and> IMDS_RULE_ID (poll_step d i ob st) = get_imds_rule_id s
    \<and> WIRESERVER_RULES (kk_rules (poll_step d i ob st)) =
        (if get_wireserver_rule_id s = WIRESERVER_RULE_ID st then WIRESERVER_RULES (kk_rules st)
         else map_option from_authorization_item (get_wireserver_rules s))
    \<and> IMDS_RULES (kk_rules (poll_step d i ob st)) =
        (if get_imds_rule_id s = IMDS_RULE_ID st then IMDS_RULES (kk_rules st)
         else map_option from_authorization_item (get_imds_rules s))"
proof -
  have opt: "(case x of Some item \<Rightarrow> Some (from_authorization_item item) | None \<Rightarrow> None)
      = map_option from_authorization_item x" for x
    by (cases x) simp_all
  from poll_status_rules [of s "round_start i ob st" d ob] show ?thesis
    by (simp add: poll_step_Inr [OF assms] same_rules_def update_rules_spec round_start_frame
          set_wireserver_rules_def set_imds_rules_def opt)
qed

section \<open>The channel state\<close>

text \<open>The states the agent can report.\<close>

definition channel_states :: "string set" where
  "channel_states = {UNKNOWN_STATE, DISABLE_STATE, MUST_SIG_WIRESERVER, MUST_SIG_WIRESERVER_IMDS}
     \<union> {''WireServer '' @ w @ '' -  IMDS '' @ i | w i.
          w \<in> {''Enforce'', ''Audit'', ''Disabled''} \<and> i \<in> {''Enforce'', ''Audit'', ''Disabled''}}"

text \<open>A status that the host call returns has been validated.\<close>

lemma get_status_validated: "get_status env u = Inr s \<Longrightarrow> \<exists>b. validate s = Inr b"
  by (auto simp: get_status_def io_bind_def split: sum.splits if_splits)

lemma validated_channel_state: "validate s = Inr b \<Longrightarrow> get_secure_channel_state s \<in> channel_states"
  using secure_channel_state_range [of s b] unfolding channel_states_def by blast

lemma poll_status_channel_state:
  "CURRENT_SECURE_CHANNEL_STATE (poll_status d s ob st) \<in> {CURRENT_SECURE_CHANNEL_STATE st, get_secure_channel_state s}"
proof -
  let ?s0 = "update_imds_rules s (update_wireserver_rules s st)"
  obtain c s1 where pk: "poll_key d s ob ?s0 = (c, s1)"
    by fastforce
  have fetch: "CURRENT_SECURE_CHANNEL_STATE s2 = CURRENT_SECURE_CHANNEL_STATE s1" if "fetch_key d g ob s1 = (f, s2)" for g s1 f s2
    using that by (cases rule: fetch_key_cases) simp_all
  define g where "g = (case ks_keyGuid s of Some i \<Rightarrow> i | None \<Rightarrow> [])"
  obtain f s2 where fl: "find_local_key d g ob ?s0 = (f, s2)"
    by fastforce
  have "CURRENT_SECURE_CHANNEL_STATE s2 = CURRENT_SECURE_CHANNEL_STATE ?s0"
    using fl find_local_key_True [of d g ob ?s0 s2] find_local_key_False [of d g ob ?s0 s2] by (cases f) auto
  moreover have "s1 = ?s0 \<or> s1 = s2 \<or> (\<exists>c. fetch_key d g ob s2 = (c, s1))"
    using pk fl by (cases f) (auto simp: poll_key_def g_def [symmetric] Let_def split: if_splits)
  ultimately have "CURRENT_SECURE_CHANNEL_STATE s1 = CURRENT_SECURE_CHANNEL_STATE st"
    using fetch by (auto simp: agent_frame)
  with pk show ?thesis
    by (cases c) (simp_all add: poll_status_def agent_frame)
qed

interpretation host_kk: step_system "\<lambda>h. poll_step d i (observe_host h)"
    "\<lambda>st. CURRENT_SECURE_CHANNEL_STATE st \<in> channel_states" for d i
proof
  fix st :: kk_state and h :: "'a host_round"
  let ?ob = "observe_host h"
  assume inv: "CURRENT_SECURE_CHANNEL_STATE st \<in> channel_states"
  show "CURRENT_SECURE_CHANNEL_STATE (poll_step d i ?ob st) \<in> channel_states"
  proof (cases "kk_stopped st \<or> po_shutdown ?ob \<or> (\<exists>err. po_status ?ob = Inl err)")
    case True
    with poll_step_idle [OF True, of d i] inv show ?thesis by simp
  next
    case False
    then obtain s where run: "\<not> kk_stopped st" "\<not> po_shutdown ?ob" "po_status ?ob = Inr s"
      by (cases "po_status ?ob") auto
    then have "get_status (hr_status_env h) (hr_base_url h) = Inr s"
      by (auto simp: observe_host_def Let_def split: sum.splits)
    from get_status_validated [OF this] obtain b where "validate s = Inr b" ..
    then have "get_secure_channel_state s \<in> channel_states"
      by (rule validated_channel_state)
    with inv poll_status_channel_state [of d s ?ob "round_start i ?ob st"] show ?thesis
      unfolding poll_step_Inr [OF run] by (auto simp: agent_frame)
  qed
qed

section \<open>Properties\<close>

text \<open>C8: The key in use changes only to a key that was read from the local file of the guid the host named,
  or to a key acquired from the host that was found again on the local disk and attested; and only in a
  round whose status has the secure channel enabled and names another key than the current one.\<close>

theorem key_change_justified:
  "CURRENT_KEY (poll_step d i ob st) = CURRENT_KEY st
   \<or> (\<exists>status. po_status ob = Inr status \<and> wants_key status st
        \<and> key_obtained d status ob st (poll_step d i ob st) (CURRENT_KEY (poll_step d i ob st)))"
proof (cases "kk_stopped st \<or> po_shutdown ob \<or> (\<exists>err. po_status ob = Inl err)")
  case True
  from poll_step_idle [OF this] show ?thesis by blast
next
  case False
  then obtain status where "\<not> kk_stopped st" "\<not> po_shutdown ob" "po_status ob = Inr status"
    by (cases "po_status ob") auto
  with poll_step_round [OF this, of d i] show ?thesis
    by (auto simp: key_round_def)
qed

text \<open>C9: The host is asked to attest only a key that the same round acquired and that is saved on the local
  disk under its guid with the same value; and a key is acquired only when the status of the round has
  the secure channel enabled and names another key than the one in use.\<close>

theorem attest_only_saved_keys:
  "\<exists>as. kk_trace (poll_step d i ob st) = kk_trace st @ as
     \<and> (\<forall>k. AttestKey k \<in> set as \<longrightarrow> po_acquire ob = Inr k \<and> check_local_key d k (poll_step d i ob st))
     \<and> (AcquireKey \<in> set as \<longrightarrow> (\<exists>status. po_status ob = Inr status \<and> wants_key status st))"
proof (cases "kk_stopped st \<or> po_shutdown ob \<or> (\<exists>err. po_status ob = Inl err)")
  case True
  from poll_step_idle [OF this] show ?thesis by blast
next
  case False
  then obtain status where "\<not> kk_stopped st" "\<not> po_shutdown ob" and s: "po_status ob = Inr status"
    by (cases "po_status ob") auto
  with poll_step_round [OF this, of d i] show ?thesis
    unfolding key_round_def by blast
qed

definition example_status :: key_status where
  "example_status = \<lparr>ks_authorizationScheme = AUTHORIZATION_SCHEME, ks_keyDeliveryMethod = ''http'',
     ks_keyIncarnationId = None, ks_keyGuid = None, ks_requiredClaimsHeaderPairs = None,
     ks_secureChannelState = Some ''Wireserver'', ks_secureChannelEnabled = None, ks_version = ''1.0'',
     ks_authorizationRules = None\<rparr>"

definition example_key :: key where
  "example_key = \<lparr>key_authorizationScheme = AUTHORIZATION_SCHEME, key_incarnationId = Some 1, key_guid = ''g1'',
     key_issued = ''now'', key_key = ''4A40''\<rparr>"

definition example_obs :: poll_obs where
  "example_obs = \<lparr>po_shutdown = False, po_elapsed_sleep = 0, po_elapsed_timeup = 0, po_elapsed_events = 0,
     po_status = Inr example_status, po_acquire = Inr example_key, po_attest = Inr (), po_write = Written,
     po_startup = (\<lambda>m. m)\<rparr>"

lemma example_state: "get_secure_channel_state example_status = ''wireserver''"
  by code_simp

lemma example_wants: "wants_key example_status (kk_state_new files)"
  unfolding wants_key_def example_state by (simp add: example_status_def kk_state_new_def key_empty_def DISABLE_STATE_def)

theorem attest_only_saved_keys_witness:
  "check_local_key ''/keys'' example_key (poll_step ''/keys'' 15 example_obs (kk_state_new []))"
proof -
  have tr: "kk_trace (poll_step ''/keys'' 15 example_obs (kk_state_new []))
      = [GetStatus, AcquireKey, AttestKey example_key, Provision KeyLatched]"
    using poll_step_latches(4) [where st = "kk_state_new []" and ob = example_obs and status = example_status and g = "[]"
        and d = "''/keys''" and k = example_key and i = 15] example_wants
    by (simp add: example_obs_def kk_state_new_def example_status_def round_start_defs)
  obtain as where as: "kk_trace (poll_step ''/keys'' 15 example_obs (kk_state_new [])) = kk_trace (kk_state_new []) @ as"
    and att: "\<forall>k. AttestKey k \<in> set as \<longrightarrow> po_acquire example_obs = Inr k
      \<and> check_local_key ''/keys'' k (poll_step ''/keys'' 15 example_obs (kk_state_new []))"
    using attest_only_saved_keys [of "''/keys''" 15 example_obs "kk_state_new []"] by blast
  from tr as have "as = [GetStatus, AcquireKey, AttestKey example_key, Provision KeyLatched]"
    by (simp add: kk_state_new_def)
  with att show ?thesis by simp
qed

text \<open>C10: A round that sees an enabled secure channel with another key than the one in use, no file for that
  key on disk, and an acquire, a write and an attestation that succeed, ends with the acquired key in use,
  saved on disk, the channel state of the status, and exactly the calls acquire, attest and key-latched
  after the start of the round.\<close>

theorem fresh_key_latched:
  assumes "\<not> kk_stopped st" and "\<not> po_shutdown ob" and "po_status ob = Inr status" and "wants_key status st"
    and "ks_keyGuid status = None \<or>
      (ks_keyGuid status = Some (key_guid k) \<and> hm_get (kk_files st) (key_path d (key_guid k)) = None)"
    and "po_acquire ob = Inr k" and "po_write ob = Written" and "po_attest ob = Inr ()"
  shows "CURRENT_KEY (poll_step d i ob st) = k \<and> check_local_key d k (poll_step d i ob st)
    \<and> CURRENT_SECURE_CHANNEL_STATE (poll_step d i ob st) = get_secure_channel_state status
    \<and> kk_trace (poll_step d i ob st)
      = kk_trace (round_start i ob st) @ [AcquireKey, AttestKey k, Provision KeyLatched]"
proof -
  let ?g = "case ks_keyGuid status of Some i \<Rightarrow> i | None \<Rightarrow> []"
  have "?g \<noteq> [] \<Longrightarrow> \<nexists>k. hm_get (kk_files st) (key_path d ?g) = Some (Some k)" "?g = [] \<or> ?g = key_guid k"
    using assms(5) by auto
  from poll_step_latches [OF assms(1-4) refl this(1) assms(6-8) this(2)] show ?thesis
    by simp
qed

theorem fresh_key_latched_witness:
  "CURRENT_KEY (poll_step ''/keys'' 15 example_obs (kk_state_new [])) = example_key"
  using fresh_key_latched [where st = "kk_state_new []" and ob = example_obs and status = example_status
      and d = "''/keys''" and k = example_key and i = 15] example_wants
  by (simp add: example_obs_def kk_state_new_def example_status_def)

text \<open>After any sequence of rounds of the thread, a key other than the empty one is in use only if the
  provisioning state machine was told that the key is latched, and the time-up and the delayed thread
  start were each signalled at most once.\<close>

theorem poll_thread_invariant:
  "let st = fold (poll_step d i) obs (kk_state_new files) in
     (CURRENT_KEY st = key_empty \<or> Provision KeyLatched \<in> set (kk_trace st))
     \<and> count_list (kk_trace st) (Provision ProvisionTimeup) \<le> 1
     \<and> count_list (kk_trace st) (Provision StartEventThreads) \<le> 1"
proof -
  have "kk_inv (kk_state_new files)"
    by (simp add: kk_inv_def kk_state_new_def)
  from kk.run_inv [OF this, of d i obs] show ?thesis
    by (simp add: kk_inv_def Let_def split: if_splits)
qed

text \<open>A round that gets a status leaves the ids of its rules as the current ids; the rules of the wire
  server are rebuilt from the status exactly when its id is not the current one, and otherwise stay,
  whatever the status contains; likewise for the instance metadata service.\<close>

theorem poll_rules_spec:
  assumes "\<not> kk_stopped st" and "\<not> po_shutdown ob" and "po_status ob = Inr s"
  shows "WIRESERVER_RULE_ID (poll_step d i ob st) = get_wireserver_rule_id s
    \<and> IMDS_RULE_ID (poll_step d i ob st) = get_imds_rule_id s
    \<and> WIRESERVER_RULES (kk_rules (poll_step d i ob st)) =
        (if get_wireserver_rule_id s = WIRESERVER_RULE_ID st then WIRESERVER_RULES (kk_rules st)
         else map_option from_authorization_item (get_wireserver_rules s))
    \<and> IMDS_RULES (kk_rules (poll_step d i ob st)) =
        (if get_imds_rule_id s = IMDS_RULE_ID st then IMDS_RULES (kk_rules st)
         else map_option from_authorization_item (get_imds_rules s))"
  by (rule poll_step_rules [OF assms])

theorem poll_rules_spec_witness:
  "WIRESERVER_RULES (kk_rules (poll_step ''/keys'' 15 example_obs (kk_state_new []))) = None
   \<and> WIRESERVER_RULE_ID (poll_step ''/keys'' 15 example_obs (kk_state_new [])) = []"
  using poll_rules_spec [of "kk_state_new []" example_obs example_status "''/keys''" 15]
  by (simp add: example_obs_def kk_state_new_def example_status_def get_wireserver_rule_id_def get_wireserver_rules_def
        rule_state_new_def)

text \<open>Over any number of rounds with the host, whatever the host answers and however its answers are
  decoded, the secure channel state the agent acts on and reports is Unknown, disabled, one of the two
  version 1 states or one of the nine version 2 descriptions: the free text of an unvalidated status
  never becomes the state.\<close>

theorem channel_state_known:
  "CURRENT_SECURE_CHANNEL_STATE (fold (\<lambda>h. poll_step d i (observe_host h)) hs (kk_state_new files)) \<in> channel_states"
  by (rule host_kk.run_inv) (simp add: kk_state_new_def channel_states_def)

end
