(* ===== verification/Ebpf_Obj.thy ===== *)
theory Ebpf_Obj
  imports Constants
begin

text \<open>
  \<^verbatim>\<open>proxy_agent/src/redirector/linux/ebpf_obj.rs\<close>: the structures shared with the eBPF programs and their
  representation as arrays of \<^verbatim>\<open>u32\<close>, and the address conversions of \<^verbatim>\<open>redirector.rs\<close>.
\<close>

section \<open>Map keys and values\<close>

text \<open>An array is read by index; the arrays of the code have fixed lengths, so every index is in range.\<close>

definition IPPROTO_TCP :: u32 where "IPPROTO_TCP = 6"

record destination_entry =
  destination_ip :: "u32 list"
  de_destination_port :: u32
  de_protocol :: u32

definition ip_address_empty :: "u32 list" where
  "ip_address_empty = [0, 0, 0, 0]"

definition ip_address_from_ipv4 :: "u32 \<Rightarrow> u32 list" where
  "ip_address_from_ipv4 ipv4 = ip_address_empty[0 := ipv4]"

definition ip_address_from_ipv6 :: "u32 list \<Rightarrow> u32 list" where
  "ip_address_from_ipv6 ipv6 = fold (\<lambda>i ip. ip[i := ipv6 ! i]) [0..<4] ip_address_empty"

definition destination_entry_empty :: destination_entry where
  "destination_entry_empty = \<lparr>destination_ip = ip_address_empty, de_destination_port = 0, de_protocol = IPPROTO_TCP\<rparr>"

text \<open>\<^verbatim>\<open>port.to_be() as u32\<close>.\<close>

definition destination_entry_from_ipv4 :: "u32 \<Rightarrow> u16 \<Rightarrow> destination_entry" where
  "destination_entry_from_ipv4 ipv4 port =
     destination_entry_empty\<lparr>destination_ip := ip_address_from_ipv4 ipv4, de_destination_port := ucast (swap16 port)\<rparr>"

definition destination_entry_to_array :: "destination_entry \<Rightarrow> u32 list" where
  "destination_entry_to_array d =
     [destination_ip d ! 0, destination_ip d ! 1, destination_ip d ! 2, destination_ip d ! 3,
      de_destination_port d, de_protocol d]"

definition skip_process_entry_to_array :: "u32 \<Rightarrow> u32 list" where
  "skip_process_entry_to_array p = [p]"

record audit_key =
  ak_protocol :: u32
  ak_source_port :: u32

definition audit_key_from_source_port :: "u16 \<Rightarrow> audit_key" where
  "audit_key_from_source_port port = \<lparr>ak_protocol = IPPROTO_TCP, ak_source_port = ucast port\<rparr>"

definition audit_key_to_array :: "audit_key \<Rightarrow> u32 list" where
  "audit_key_to_array k = [ak_protocol k, ak_source_port k]"

definition audit_key_from_array :: "u32 list \<Rightarrow> audit_key" where
  "audit_key_from_array a = \<lparr>ak_protocol = a ! 0, ak_source_port = a ! 1\<rparr>"

record sock_addr_audit_entry =
  sa_logon_id :: u32
  sa_process_id :: u32
  sa_is_root :: u32
  sa_destination_ipv4 :: u32
  sa_destination_port :: u32

definition sock_addr_audit_entry_from_array :: "u32 list \<Rightarrow> sock_addr_audit_entry" where
  "sock_addr_audit_entry_from_array a = \<lparr>sa_logon_id = a ! 0, sa_process_id = a ! 1, sa_is_root = a ! 2,
     sa_destination_ipv4 = a ! 3, sa_destination_port = a ! 4\<rparr>"

definition sock_addr_audit_entry_to_array :: "sock_addr_audit_entry \<Rightarrow> u32 list" where
  "sock_addr_audit_entry_to_array e =
     [sa_logon_id e, sa_process_id e, sa_is_root e, sa_destination_ipv4 e, sa_destination_port e]"

section \<open>Addresses\<close>

definition ip_to_string :: "u32 \<Rightarrow> string" where
  "ip_to_string ip0 =
     (let seg_number = 16 * 16;
          s0 = show_nat (unat (ip0 mod seg_number)) @ ''.'';
          ip1 = ip0 div seg_number;
          s1 = show_nat (unat (ip1 mod seg_number)) @ ''.'';
          ip2 = ip1 div seg_number;
          s2 = show_nat (unat (ip2 mod seg_number)) @ ''.'';
          ip3 = ip2 div seg_number;
          s3 = show_nat (unat (ip3 mod seg_number))
      in s0 @ s1 @ s2 @ s3)"

fun string_to_ip_loop :: "string list \<Rightarrow> u32 \<Rightarrow> u32 \<Rightarrow> u32" where
  "string_to_ip_loop [] ip seg = ip"
| "string_to_ip_loop (s # ss) ip seg =
     (case parse_uint 8 s of
        Some n \<Rightarrow>
          string_to_ip_loop ss (ip + word_of_nat n * seg) (if seg < 16777216 then seg * (16 * 16) else seg)
      | None \<Rightarrow> 0)"

definition string_to_ip :: "string \<Rightarrow> u32" where
  "string_to_ip ip_str =
     (let ip_str_seg = split_on CHR ''.'' ip_str
      in if length ip_str_seg \<noteq> 4 then 0 else string_to_ip_loop ip_str_seg 0 1)"

section \<open>Codecs\<close>

lemma ip_address_from_ipv6_id: "length ipv6 = 4 \<Longrightarrow> ip_address_from_ipv6 ipv6 = ipv6"
  by (auto simp: ip_address_from_ipv6_def ip_address_empty_def upt_rec numeral_eq_Suc length_Suc_conv)

interpretation audit_key_codec: u32_codec audit_key_to_array audit_key_from_array 2
  by unfold_locales (simp_all add: audit_key_to_array_def audit_key_from_array_def)

interpretation audit_entry_codec: u32_codec sock_addr_audit_entry_to_array sock_addr_audit_entry_from_array 5
  by unfold_locales (simp_all add: sock_addr_audit_entry_to_array_def sock_addr_audit_entry_from_array_def)

lemma ucast_u16_u32_inj [simp]: "(ucast (a :: u16) :: u32) = ucast b \<longleftrightarrow> a = b"
proof
  have up: "unat (ucast w :: u32) = unat w" for w :: u16
    using unat_u16_less [of w] by (simp add: unsigned_ucast_eq take_bit_nat_eq_self)
  assume "(ucast a :: u32) = ucast b"
  then have "unat a = unat b"
    using up by metis
  then show "a = b"
    by (rule unsigned_word_eqI)
qed simp

lemma destination_key_inj:
  "destination_entry_to_array (destination_entry_from_ipv4 a p) = destination_entry_to_array (destination_entry_from_ipv4 b q)
     \<longleftrightarrow> a = b \<and> p = q"
  by (simp add: destination_entry_to_array_def destination_entry_from_ipv4_def destination_entry_empty_def
      ip_address_from_ipv4_def ip_address_empty_def)

section \<open>The address round trip\<close>

lemma split_on_snoc: "sep \<notin> set s \<Longrightarrow> split_on sep (s @ sep # t) = s # split_on sep t"
  by (induction s) auto

lemma split_on_only: "sep \<notin> set s \<Longrightarrow> split_on sep s = [s]"
  by (induction s) auto

lemma parse_u8_show: "n < 256 \<Longrightarrow> parse_uint 8 (show_nat n) = Some n"
  by (rule parse_uint_show_nat) simp

lemma unat_u32_seg:
  "unat (w mod (16 * 16) :: u32) = unat w mod 256" "unat (w div (16 * 16) :: u32) = unat w div 256"
  by (simp_all add: unat_mod_distrib unat_div_distrib)

lemma ip_to_string_segs:
  "split_on CHR ''.'' (ip_to_string ip) =
     [show_nat (unat ip mod 256), show_nat (unat ip div 256 mod 256),
      show_nat (unat ip div 256 div 256 mod 256), show_nat (unat ip div 256 div 256 div 256 mod 256)]"
  by (simp add: ip_to_string_def Let_def unat_u32_seg [simplified] split_on_snoc split_on_only show_nat_no_dot)

lemma ip_segments_sum:
  fixes ip :: u32
  shows "word_of_nat (unat ip mod 256) + word_of_nat (unat ip div 256 mod 256) * 256
    + word_of_nat (unat ip div 256 div 256 mod 256) * 65536
    + word_of_nat (unat ip div 256 div 256 div 256 mod 256) * 16777216 = ip"
proof -
  define n where "n = unat ip"
  have "n < 256 * (256 * (256 * 256))"
    unfolding n_def using unsigned_less [of ip] by simp
  then have "n div 256 div 256 div 256 < 256"
    by (simp add: div_mult2_eq [symmetric] less_mult_imp_div_less)
  then have "n div 256 div 256 div 256 mod 256 = n div 256 div 256 div 256"
    by (rule mod_less)
  then have "n = n mod 256 + (n div 256 mod 256) * 256 + (n div 256 div 256 mod 256) * 65536
      + (n div 256 div 256 div 256 mod 256) * 16777216"
    using div_mult_mod_eq [of n 256] div_mult_mod_eq [of "n div 256" 256]
      div_mult_mod_eq [of "n div 256 div 256" 256] by linarith
  then have "(word_of_nat n :: u32) = word_of_nat (n mod 256 + (n div 256 mod 256) * 256
      + (n div 256 div 256 mod 256) * 65536 + (n div 256 div 256 div 256 mod 256) * 16777216)"
    by (rule arg_cong)
  then show ?thesis
    by (simp add: n_def)
qed

lemma string_to_ip_to_string: "string_to_ip (ip_to_string ip) = ip"
  using ip_segments_sum [of ip]
  by (simp add: string_to_ip_def ip_to_string_segs parse_u8_show word_less_nat_alt)

section \<open>Properties\<close>

text \<open>Printing any 32-bit address in dotted form and reading it back gives the address, and the
  three endpoint addresses of the constants are the dotted strings of the constants.\<close>

theorem ip_string_roundtrip:
  "string_to_ip (ip_to_string ip) = ip
   \<and> ip_to_string WIRE_SERVER_IP_NETWORK_BYTE_ORDER = WIRE_SERVER_IP
   \<and> ip_to_string GA_PLUGIN_IP_NETWORK_BYTE_ORDER = GA_PLUGIN_IP
   \<and> ip_to_string IMDS_IP_NETWORK_BYTE_ORDER = IMDS_IP
   \<and> ip_to_string PROXY_AGENT_IP_NETWORK_BYTE_ORDER = PROXY_AGENT_IP"
proof -
  have "ip_to_string WIRE_SERVER_IP_NETWORK_BYTE_ORDER = WIRE_SERVER_IP" by code_simp
  moreover have "ip_to_string GA_PLUGIN_IP_NETWORK_BYTE_ORDER = GA_PLUGIN_IP" by code_simp
  moreover have "ip_to_string IMDS_IP_NETWORK_BYTE_ORDER = IMDS_IP" by code_simp
  moreover have "ip_to_string PROXY_AGENT_IP_NETWORK_BYTE_ORDER = PROXY_AGENT_IP" by code_simp
  ultimately show ?thesis
    using string_to_ip_to_string by simp
qed

end
