(* ===== verification/Redirector_Backend.thy ===== *)
theory Redirector_Backend
  imports Claims
begin

text \<open>
  The interface between \<^verbatim>\<open>redirector.rs\<close> and the redirector of a platform: starting it, closing it, and finding the
  audit entry of a source port. \<^verbatim>\<open>redirector.rs\<close> tries to start the platform's redirector until it has started.
\<close>

section \<open>Starting with retries\<close>

text \<open>The loop of \<^verbatim>\<open>start\<close>: the list holds the environment each attempt finds.\<close>

fun retry_start :: "('e \<Rightarrow> u16 \<Rightarrow> 's \<Rightarrow> bool \<times> 's) \<Rightarrow> ('s \<Rightarrow> bool) \<Rightarrow> 'e list \<Rightarrow> u16 \<Rightarrow> 's \<Rightarrow> 's" where
  "retry_start start is_started [] local_port s = s"
| "retry_start start is_started (e # es) local_port s =
     (let s' = snd (start e local_port s)
      in if is_started s' then s' else retry_start start is_started es local_port s')"

section \<open>The interface\<close>

locale redirector_backend =
  fixes start :: "'e \<Rightarrow> u16 \<Rightarrow> 's \<Rightarrow> bool \<times> 's"
    and close :: "u16 \<Rightarrow> 's \<Rightarrow> 's"
    and is_started :: "'s \<Rightarrow> bool"
    and ready :: "'s \<Rightarrow> nat"
    and lookup :: "'e \<Rightarrow> u16 \<Rightarrow> 's \<Rightarrow> audit_entry io_result"
  assumes start_ok: "start e port s = (True, s') \<Longrightarrow> is_started s' \<and> ready s' = Suc (ready s)"
    and start_failed: "start e port s = (False, s') \<Longrightarrow> is_started s' = is_started s \<and> ready s' = ready s"
    and close_ready: "ready (close port s) = ready s"
    and close_lookup: "\<not> is_ok (lookup e source_port (close port s))"
begin

text \<open>The state attempt \<open>i\<close> finds, when the earlier ones have failed.\<close>

definition before_attempt :: "'e list \<Rightarrow> u16 \<Rightarrow> 's \<Rightarrow> nat \<Rightarrow> 's" where
  "before_attempt es port s i = fold (\<lambda>e s. snd (start e port s)) (take i es) s"

lemma retry_spec:
  "\<not> is_started s \<Longrightarrow>
   (is_started (retry_start start is_started es port s) \<longleftrightarrow>
      (\<exists>i < length es. fst (start (es ! i) port (before_attempt es port s i))))
   \<and> ready (retry_start start is_started es port s)
       = ready s + (if is_started (retry_start start is_started es port s) then 1 else 0)"
proof (induction es arbitrary: s)
  case (Cons e es)
  obtain ok s' where run: "start e port s = (ok, s')"
    by fastforce
  show ?case
  proof (cases ok)
    case True
    with run start_ok [of e port s s'] show ?thesis
      by (auto simp: before_attempt_def intro!: exI [of _ 0])
  next
    case False
    with run start_failed [of e port s s'] Cons.prems have s': "\<not> is_started s'" "ready s' = ready s"
      by auto
    from False run have "\<not> fst (start e port s)" "snd (start e port s) = s'"
      by simp_all
    with Cons.IH [OF s'(1)] s' show ?thesis
      by (simp add: Ex_less_Suc2 before_attempt_def)
  qed
qed simp

end

end
