(* ===== verification/Redirector.thy ===== *)
theory Redirector
  imports Ebpf_Obj Agent_Status Redirector_Backend
begin

text \<open>
  \<^verbatim>\<open>proxy_agent/src/redirector.rs\<close>, \<^verbatim>\<open>redirector/linux.rs\<close> and \<^verbatim>\<open>redirector/linux/iptable_redirect.rs\<close>: loading
  the eBPF object, filling its maps, attaching its programs, the fallback to iptables, the lookup of
  audit entries and the start with its retries. The crate \<^verbatim>\<open>aya\<close> and the operating system are the
  parameters \<open>aya_lib\<close> and \<open>linux_env\<close>; a failing call of theirs gives the text of its error.
  Telemetry events and log lines are not modelled.
\<close>

section \<open>Interfaces\<close>

text \<open>An eBPF object: its maps by name, each from arrays to arrays.\<close>

record bpf =
  bpf_maps :: "(string, (u32 list, u32 list) hmap) hmap"

record aya_lib =
  aya_load_file :: "string \<Rightarrow> string + bpf"
  aya_hash_map :: "string \<Rightarrow> string option"
  aya_insert :: "string \<Rightarrow> u32 list \<Rightarrow> string option"
  aya_has_program :: "string \<Rightarrow> bool"
  aya_convert :: "string \<Rightarrow> string option"
  aya_load :: "string \<Rightarrow> string option"
  aya_attach :: "string \<Rightarrow> string option"

record nic =
  nic_loopback :: bool
  nic_up :: bool
  nic_running :: bool
  nic_broadcast :: bool
  nic_is_bridge :: bool
  nic_ipv4 :: "string option"

record linux_env =
  le_pid :: u32
  le_ebpf_path :: string
  le_ifaddrs :: "string + nic list"
  le_cgroup2_mount :: "string + string"
  le_open :: "string \<Rightarrow> string option"
  le_config :: config
  le_startup_event :: "string \<Rightarrow> string"

text \<open>
  The static variables, the number of calls of \<^verbatim>\<open>provision::redirector_ready\<close>, and the iptables commands:
  the exit code, output and error output the next invocations will give and the commands issued so
  far. Once these are used up an invocation fails.
\<close>

record iptables_cmd =
  ipt_enable :: bool
  ipt_dest_ip :: string
  ipt_dest_port :: string
  ipt_gid :: string
  ipt_to :: string

record redirector_state =
  IS_STARTED :: bool
  STATUS_MESSAGE :: string
  BPF_OBJECT :: "bpf option"
  ready_calls :: nat
  ipt_outputs :: "(int \<times> string \<times> string) list"
  ipt_log :: "iptables_cmd list"

definition redirector_state_new :: "(int \<times> string \<times> string) list \<Rightarrow> redirector_state" where
  "redirector_state_new outputs = \<lparr>IS_STARTED = False, STATUS_MESSAGE = ''Redirector has not started yet.'',
     BPF_OBJECT = None, ready_calls = 0, ipt_outputs = outputs, ipt_log = []\<rparr>"

definition set_error_status :: "string \<Rightarrow> redirector_state \<Rightarrow> redirector_state" where
  "set_error_status message st = st\<lparr>STATUS_MESSAGE := message\<rparr>"

section \<open>iptables\<close>

definition config_one_firewall_redirection ::
    "string \<Rightarrow> string \<Rightarrow> string \<Rightarrow> bool \<Rightarrow> string \<Rightarrow> redirector_state \<Rightarrow> bool \<times> redirector_state" where
  "config_one_firewall_redirection dest_ip dest_port local_port enable exclude_gid st =
     (let local_endpoint = ''127.0.0.1:'' @ local_port;
          (code, out, err) = (case ipt_outputs st of [] \<Rightarrow> (-1, [], []) | r # _ \<Rightarrow> r);
          st' = st\<lparr>ipt_outputs := tl (ipt_outputs st),
                   ipt_log := ipt_log st @ [\<lparr>ipt_enable = enable, ipt_dest_ip = dest_ip, ipt_dest_port = dest_port,
                     ipt_gid = exclude_gid, ipt_to = local_endpoint\<rparr>]\<rparr>
      in if enable \<and> code \<noteq> 0
         then (False, set_error_status (''config_one_firewall_redirection: '' @ ''-A'' @ '' redirect '' @ dest_ip @ '':'' @ dest_port @ '' to ''
              @ local_endpoint @ '' result: '' @ quoted (show_int code) @ ''-'' @ quoted out @ ''-'' @ quoted err @ ''.'') st')
         else (code = 0, st'))"

lemma config_one_codes:
  assumes "config_one_firewall_redirection ip port lp en gid st = (True, st')"
  shows "length (ipt_outputs st') < length (ipt_outputs st)"
  using assms
  by (cases "ipt_outputs st") (auto simp: config_one_firewall_redirection_def Let_def split: if_splits)

text \<open>One of the three \<^verbatim>\<open>while\<close> loops of \<^verbatim>\<open>cleanup_firewall_redirection\<close>.\<close>

function cleanup_loop :: "string \<Rightarrow> string \<Rightarrow> string \<Rightarrow> string \<Rightarrow> redirector_state \<Rightarrow> redirector_state" where
  "cleanup_loop ip port lp gid st =
     (case config_one_firewall_redirection ip port lp False gid st of
        (True, st') \<Rightarrow> cleanup_loop ip port lp gid st'
      | (False, st') \<Rightarrow> st')"
  by pat_completeness auto
termination
  by (relation "measure (\<lambda>(ip, port, lp, gid, st). length (ipt_outputs st))") (auto intro: config_one_codes [OF sym])

declare cleanup_loop.simps [simp del]

definition port_string :: "u16 \<Rightarrow> string" where
  "port_string p = show_nat (unat p)"

definition cleanup_firewall_redirection :: "u16 \<Rightarrow> redirector_state \<Rightarrow> redirector_state" where
  "cleanup_firewall_redirection local_port st =
     (let gid = show_nat (unat EGID); lp = port_string local_port;
          st1 = cleanup_loop WIRE_SERVER_IP (port_string WIRE_SERVER_PORT) lp gid st;
          st2 = cleanup_loop IMDS_IP (port_string IMDS_PORT) lp gid st1
      in cleanup_loop GA_PLUGIN_IP (port_string GA_PLUGIN_PORT) lp gid st2)"

definition setup_firewall_redirection :: "u16 \<Rightarrow> redirector_state \<Rightarrow> bool \<times> redirector_state" where
  "setup_firewall_redirection local_port st =
     (let gid = show_nat (unat EGID); lp = port_string local_port
      in case config_one_firewall_redirection WIRE_SERVER_IP (port_string WIRE_SERVER_PORT) lp True gid st of
           (False, st1) \<Rightarrow> (False, st1)
         | (True, st1) \<Rightarrow>
             (case config_one_firewall_redirection IMDS_IP (port_string IMDS_PORT) lp True gid st1 of
                (False, st2) \<Rightarrow> (False, st2)
              | (True, st2) \<Rightarrow>
                  (case config_one_firewall_redirection GA_PLUGIN_IP (port_string GA_PLUGIN_PORT) lp True gid st2 of
                     (False, st3) \<Rightarrow> (False, st3)
                   | (True, st3) \<Rightarrow> (True, st3))))"

section \<open>The eBPF object\<close>

definition open_ebpf_file :: "aya_lib \<Rightarrow> string \<Rightarrow> redirector_state \<Rightarrow> bpf option \<times> redirector_state" where
  "open_ebpf_file aya bpf_file_path st =
     (case aya_load_file aya bpf_file_path of
        Inr b \<Rightarrow> (Some b, st)
      | Inl err \<Rightarrow> (None, set_error_status
          (''Failed to load eBPF program from file '' @ bpf_file_path @ '': '' @ err) st))"

text \<open>
  Inserting an array into a map of the object: the map is looked up by name, converted and updated.
\<close>

definition map_insert ::
    "aya_lib \<Rightarrow> string \<Rightarrow> u32 list \<Rightarrow> u32 list \<Rightarrow> bpf \<Rightarrow> string + bpf" where
  "map_insert aya name k v b =
     (case aya_insert aya name k of
        Some err \<Rightarrow> Inl err
      | None \<Rightarrow> Inr (b\<lparr>bpf_maps := hm_insert name
          (hm_insert k v (case hm_get (bpf_maps b) name of Some m \<Rightarrow> m | None \<Rightarrow> [])) (bpf_maps b)\<rparr>))"

definition update_skip_process_map ::
    "aya_lib \<Rightarrow> linux_env \<Rightarrow> bpf \<Rightarrow> redirector_state \<Rightarrow> bool \<times> bpf \<times> redirector_state" where
  "update_skip_process_map aya env b st =
     (case hm_get (bpf_maps b) ''skip_process_map'' of
        None \<Rightarrow> (False, b, set_error_status (''Failed to get map '' @ quoted ''skip_process_map'' @ ''.'') st)
      | Some _ \<Rightarrow>
          (case aya_hash_map aya ''skip_process_map'' of
             Some err \<Rightarrow> (False, b, set_error_status (''Failed to load HashMap '' @ quoted ''skip_process_map'' @ '' with error: '' @ err) st)
           | None \<Rightarrow>
               (case map_insert aya ''skip_process_map'' (skip_process_entry_to_array (le_pid env))
                       (skip_process_entry_to_array (le_pid env)) b of
                  Inr b' \<Rightarrow> (True, b', st)
                | Inl err \<Rightarrow> (False, b, set_error_status
                    (''Failed to insert pid '' @ show_nat (unat (le_pid env)) @ '' to skip_process_map with error: '' @ err) st))))"

fun local_ip_loop :: "nic list \<Rightarrow> string option" where
  "local_ip_loop [] = None"
| "local_ip_loop (n # ns) =
     (if nic_loopback n then local_ip_loop ns
      else if \<not> nic_up n then local_ip_loop ns
      else if \<not> nic_running n then local_ip_loop ns
      else if \<not> nic_broadcast n then local_ip_loop ns
      else if nic_is_bridge n then local_ip_loop ns
      else (case nic_ipv4 n of Some ip \<Rightarrow> Some ip | None \<Rightarrow> local_ip_loop ns))"

definition get_local_ip :: "linux_env \<Rightarrow> redirector_state \<Rightarrow> string option \<times> redirector_state" where
  "get_local_ip env st =
     (case le_ifaddrs env of
        Inl err \<Rightarrow> (None, set_error_status (''Failed to get local ip with error: '' @ err) st)
      | Inr nics \<Rightarrow> (local_ip_loop nics, st))"

text \<open>The three insertions of \<^verbatim>\<open>update_policy_map\<close>, in order, stopping at the first failure.\<close>

fun policy_inserts ::
    "aya_lib \<Rightarrow> u32 list \<Rightarrow> (string \<times> u32 \<times> u16) list \<Rightarrow> bpf \<Rightarrow> redirector_state \<Rightarrow> bool \<times> bpf \<times> redirector_state" where
  "policy_inserts aya v [] b st = (True, b, st)"
| "policy_inserts aya v ((endpoint, ip, port) # rest) b st =
     (case map_insert aya ''policy_map'' (destination_entry_to_array (destination_entry_from_ipv4 ip port)) v b of
        Inr b' \<Rightarrow> policy_inserts aya v rest b' st
      | Inl err \<Rightarrow> (False, b, set_error_status
          (''Failed to insert '' @ endpoint @ '' endpoints to policy_map with error: '' @ err) st))"

definition policy_endpoints :: "(string \<times> u32 \<times> u16) list" where
  "policy_endpoints =
     [(''WireServer'', WIRE_SERVER_IP_NETWORK_BYTE_ORDER, WIRE_SERVER_PORT),
      (''IMDS'', IMDS_IP_NETWORK_BYTE_ORDER, IMDS_PORT),
      (''HostGAPlugin'', GA_PLUGIN_IP_NETWORK_BYTE_ORDER, GA_PLUGIN_PORT)]"

definition update_policy_map ::
    "aya_lib \<Rightarrow> linux_env \<Rightarrow> u16 \<Rightarrow> bpf \<Rightarrow> redirector_state \<Rightarrow> bool \<times> bpf \<times> redirector_state" where
  "update_policy_map aya env local_port b st =
     (case hm_get (bpf_maps b) ''policy_map'' of
        None \<Rightarrow> (False, b, set_error_status (''Failed to get map '' @ quoted ''policy_map'' @ ''.'') st)
      | Some _ \<Rightarrow>
          (case aya_hash_map aya ''policy_map'' of
             Some err \<Rightarrow> (False, b, set_error_status (''Failed to load HashMap '' @ quoted ''policy_map'' @ '' with error: '' @ err) st)
           | None \<Rightarrow>
               (let (ip_opt, st1) = get_local_ip env st;
                    local_ip = (case ip_opt of Some ip \<Rightarrow> ip | None \<Rightarrow> PROXY_AGENT_IP);
                    v = destination_entry_to_array (destination_entry_from_ipv4 (string_to_ip local_ip) local_port)
                in policy_inserts aya v policy_endpoints b st1)))"

text \<open>Loading and attaching a program: found, converted, loaded, attached.\<close>

definition attach_program :: "aya_lib \<Rightarrow> string \<Rightarrow> string \<Rightarrow> redirector_state \<Rightarrow> bool \<times> redirector_state" where
  "attach_program aya name kind st =
     (if \<not> aya_has_program aya name
      then (False, set_error_status (''Failed to get program '' @ quoted name) st)
      else (case aya_convert aya name of
              Some err \<Rightarrow> (False, set_error_status (''Failed to convert program to '' @ kind @ '' with error: '' @ err) st)
            | None \<Rightarrow>
                (case aya_load aya name of
                   Some err \<Rightarrow> (False, set_error_status (''Failed to load program '' @ quoted name @ '' with error: '' @ err) st)
                 | None \<Rightarrow>
                     (case aya_attach aya name of
                        Some err \<Rightarrow> (False, set_error_status (''Failed to attach program '' @ quoted name @ '' with error: '' @ err) st)
                      | None \<Rightarrow> (True, st)))))"

definition attach_kprobe_program :: "aya_lib \<Rightarrow> redirector_state \<Rightarrow> bool \<times> redirector_state" where
  "attach_kprobe_program aya st = attach_program aya ''tcp_v4_connect'' ''KProbe'' st"

definition attach_cgroup_program :: "aya_lib \<Rightarrow> linux_env \<Rightarrow> string \<Rightarrow> redirector_state \<Rightarrow> bool \<times> redirector_state" where
  "attach_cgroup_program aya env cgroup2_root_path st =
     (case le_open env cgroup2_root_path of
        Some err \<Rightarrow> (False, set_error_status (''Failed to open cgroup with error: '' @ err) st)
      | None \<Rightarrow> attach_program aya ''connect4'' ''CgroupSockAddr'' st)"

section \<open>Starting and stopping\<close>

text \<open>The end of a successful start, with cgroup or with iptables redirection.\<close>

definition started :: "linux_env \<Rightarrow> string \<Rightarrow> bpf \<Rightarrow> redirector_state \<Rightarrow> redirector_state" where
  "started env message b st =
     st\<lparr>BPF_OBJECT := Some b, IS_STARTED := True, STATUS_MESSAGE := le_startup_event env message,
        ready_calls := Suc (ready_calls st)\<rparr>"

definition linux_attach :: "aya_lib \<Rightarrow> linux_env \<Rightarrow> u16 \<Rightarrow> bpf \<Rightarrow> redirector_state \<Rightarrow> bool \<times> redirector_state" where
  "linux_attach aya env local_port b st =
     (let st1 = cleanup_firewall_redirection local_port st;
          cgroup2_path = (case le_cgroup2_mount env of Inr path \<Rightarrow> path | Inl _ \<Rightarrow> get_cgroup_root (le_config env))
      in case attach_cgroup_program aya env cgroup2_path st1 of
           (True, st2) \<Rightarrow> (True, started env ''Started Redirector with cgroup redirection'' b st2)
         | (False, st2) \<Rightarrow>
             if \<not> get_fallback_with_iptable_redirect (le_config env) then (False, st2)
             else (case setup_firewall_redirection local_port st2 of
                     (False, st3) \<Rightarrow> (False, st3)
                   | (True, st3) \<Rightarrow> (True, started env ''Started Redirector with iptables redirection'' b st3)))"

definition linux_start :: "aya_lib \<Rightarrow> linux_env \<Rightarrow> u16 \<Rightarrow> redirector_state \<Rightarrow> bool \<times> redirector_state" where
  "linux_start aya env local_port st =
     (case open_ebpf_file aya (le_ebpf_path env) st of
        (None, st1) \<Rightarrow> (False, st1)
      | (Some b, st1) \<Rightarrow>
          (case update_skip_process_map aya env b st1 of
             (False, _, st2) \<Rightarrow> (False, st2)
           | (True, b2, st2) \<Rightarrow>
               (case update_policy_map aya env local_port b2 st2 of
                  (False, _, st3) \<Rightarrow> (False, st3)
                | (True, b3, st3) \<Rightarrow>
                    (case attach_kprobe_program aya st3 of
                       (False, st4) \<Rightarrow> (False, st4)
                     | (True, st4) \<Rightarrow> linux_attach aya env local_port b3 st4))))"

text \<open>
  \<^verbatim>\<open>redirector::start\<close>: at most five attempts, each with the environment of its moment.
\<close>

definition redirector_start :: "(nat \<Rightarrow> aya_lib \<times> linux_env) \<Rightarrow> u16 \<Rightarrow> redirector_state \<Rightarrow> bool \<times> redirector_state" where
  "redirector_start attempt local_port st =
     (let st' = retry_start (\<lambda>a. linux_start (fst a) (snd a)) IS_STARTED (map attempt [0..<5]) local_port st
      in (IS_STARTED st', st'))"

definition redirector_close :: "u16 \<Rightarrow> redirector_state \<Rightarrow> redirector_state" where
  "redirector_close local_port st = (cleanup_firewall_redirection local_port st)\<lparr>BPF_OBJECT := None\<rparr>"

section \<open>Status and audit lookup\<close>

definition MAX_STATUS_MESSAGE_LENGTH :: nat where "MAX_STATUS_MESSAGE_LENGTH = 1024"

text \<open>
  \<^verbatim>\<open>redirector::get_status\<close>. Slicing the message at a byte index that is not a character boundary panics;
  \<open>None\<close> is that panic.
\<close>

definition redirector_get_status :: "redirector_state \<Rightarrow> detail_status option" where
  "redirector_get_status st =
     (let status = (if IS_STARTED st then RUNNING else STOPPED);
          message = STATUS_MESSAGE st
      in if length message > MAX_STATUS_MESSAGE_LENGTH
         then (if is_char_boundary MAX_STATUS_MESSAGE_LENGTH message
               then Some \<lparr>ds_status = status, ds_message = take MAX_STATUS_MESSAGE_LENGTH message @ ''...'', ds_states = None\<rparr>
               else None)
         else Some \<lparr>ds_status = status, ds_message = message, ds_states = None\<rparr>)"

definition audit_entry_of_array :: "u32 list \<Rightarrow> audit_entry" where
  "audit_entry_of_array a =
     (let v = sock_addr_audit_entry_from_array a
      in \<lparr>ae_logon_id = ucast (sa_logon_id v), ae_process_id = sa_process_id v, ae_is_admin = sa_is_root v,
          ae_destination_ipv4 = sa_destination_ipv4 v, ae_destination_port = ucast (sa_destination_port v)\<rparr>)"

definition lookup_audit :: "aya_lib \<Rightarrow> u16 \<Rightarrow> redirector_state \<Rightarrow> audit_entry io_result" where
  "lookup_audit aya source_port st =
     (case BPF_OBJECT st of
        None \<Rightarrow> Inl Other
      | Some b \<Rightarrow>
          (case hm_get (bpf_maps b) ''audit_map'' of
             None \<Rightarrow> Inl Other
           | Some audit_map \<Rightarrow>
               (case aya_hash_map aya ''audit_map'' of
                  Some err \<Rightarrow> Inl Other
                | None \<Rightarrow>
                    (case hm_get audit_map (audit_key_to_array (audit_key_from_source_port source_port)) of
                       Some a \<Rightarrow> Inr (audit_entry_of_array a)
                     | None \<Rightarrow> Inl Other))))"

text \<open>The path of the eBPF object: environment variable, system directory, directory of the executable.\<close>

definition get_ebpf_file_path :: "string option \<Rightarrow> (string \<Rightarrow> bool) \<Rightarrow> string \<Rightarrow> config \<Rightarrow> string" where
  "get_ebpf_file_path env_var exists exe_dir cfg =
     (let p0 = (case env_var of Some file_path \<Rightarrow> file_path | None \<Rightarrow> []);
          p1 = (if \<not> exists p0 then ''/usr/lib/azure-proxy-agent/'' @ ebpfProgramName cfg else p0)
      in if \<not> exists p1 then path_join exe_dir (ebpfProgramName cfg) else p1)"

section \<open>Frames\<close>

text \<open>What nearly every helper leaves alone: everything but the message and the iptables commands.\<close>

definition same_core :: "redirector_state \<Rightarrow> redirector_state \<Rightarrow> bool" where
  "same_core st st' \<longleftrightarrow> IS_STARTED st' = IS_STARTED st \<and> BPF_OBJECT st' = BPF_OBJECT st
     \<and> ready_calls st' = ready_calls st"

lemma same_core_refl [simp]: "same_core st st"
  by (simp add: same_core_def)

lemma same_core_trans: "same_core a b \<Longrightarrow> same_core b c \<Longrightarrow> same_core a c"
  by (simp add: same_core_def)

lemma same_core_error [simp]: "same_core st (set_error_status m st)"
  by (simp add: same_core_def set_error_status_def)

lemma same_core_config_one:
  "config_one_firewall_redirection ip port lp en gid st = (ok, st') \<Longrightarrow> same_core st st'"
  by (auto simp: config_one_firewall_redirection_def Let_def same_core_def set_error_status_def
      split: if_splits prod.splits)

lemma same_core_cleanup_loop: "same_core st (cleanup_loop ip port lp gid st)"
proof (induction ip port lp gid st rule: cleanup_loop.induct)
  case (1 ip port lp gid st)
  then show ?case
    by (subst cleanup_loop.simps)
       (auto split: prod.splits bool.splits dest: same_core_config_one intro: same_core_trans)
qed

lemma same_core_cleanup: "same_core st (cleanup_firewall_redirection port st)"
  unfolding cleanup_firewall_redirection_def Let_def
  by (blast intro: same_core_cleanup_loop same_core_trans)

lemma same_core_setup: "setup_firewall_redirection port st = (ok, st') \<Longrightarrow> same_core st st'"
  by (auto simp: setup_firewall_redirection_def Let_def split: prod.splits bool.splits
      dest!: same_core_config_one intro: same_core_trans)

lemma same_core_attach: "attach_program aya name kind st = (ok, st') \<Longrightarrow> same_core st st'"
  by (auto simp: attach_program_def split: if_splits option.splits)

lemma same_core_attach_cgroup: "attach_cgroup_program aya env path st = (ok, st') \<Longrightarrow> same_core st st'"
  by (auto simp: attach_cgroup_program_def split: option.splits dest: same_core_attach)

lemma same_core_skip: "update_skip_process_map aya env b st = (ok, b', st') \<Longrightarrow> same_core st st'"
  by (auto simp: update_skip_process_map_def split: option.splits sum.splits)

lemma same_core_local_ip: "get_local_ip env st = (ip, st') \<Longrightarrow> same_core st st'"
  by (auto simp: get_local_ip_def split: sum.splits)

lemma same_core_inserts: "policy_inserts aya v eps b st = (ok, b', st') \<Longrightarrow> same_core st st'"
  by (induction eps arbitrary: b) (auto split: sum.splits)

lemma same_core_policy: "update_policy_map aya env port b st = (ok, b', st') \<Longrightarrow> same_core st st'"
  by (auto simp: update_policy_map_def Let_def split: option.splits prod.splits
      dest!: same_core_local_ip same_core_inserts intro: same_core_trans)

section \<open>What the maps hold\<close>

definition bpf_lookup :: "bpf \<Rightarrow> string \<Rightarrow> u32 list \<Rightarrow> u32 list option" where
  "bpf_lookup b name k = (case hm_get (bpf_maps b) name of Some m \<Rightarrow> hm_get m k | None \<Rightarrow> None)"

lemma map_insert_lookup:
  "map_insert aya name k v b = Inr b' \<Longrightarrow>
   bpf_lookup b' n k' = (if n = name \<and> k' = k then Some v else bpf_lookup b n k')"
  by (auto simp: map_insert_def bpf_lookup_def split: option.splits if_splits)

abbreviation endpoint_key :: "u32 \<Rightarrow> u16 \<Rightarrow> u32 list" where
  "endpoint_key ip port \<equiv> destination_entry_to_array (destination_entry_from_ipv4 ip port)"

lemma policy_inserts_lookup:
  "policy_inserts aya v eps b st = (True, b', st') \<Longrightarrow>
   bpf_lookup b' n k = (if n = ''policy_map'' \<and> k \<in> (\<lambda>(e, ip, port). endpoint_key ip port) ` set eps
     then Some v else bpf_lookup b n k)"
proof (induction eps arbitrary: b)
  case (Cons ep eps)
  obtain e ip port where ep: "ep = (e, ip, port)"
    by (cases ep)
  with Cons.prems obtain b1 where "map_insert aya ''policy_map'' (endpoint_key ip port) v b = Inr b1"
    and "policy_inserts aya v eps b1 st = (True, b', st')"
    by (auto split: sum.splits)
  with Cons.IH [of b1] ep show ?case
    by (auto simp: map_insert_lookup)
qed simp

text \<open>The address the endpoints are redirected to: the first suitable interface, else the loopback.\<close>

definition redirect_address :: "linux_env \<Rightarrow> u32" where
  "redirect_address env =
     (case le_ifaddrs env of
        Inl _ \<Rightarrow> string_to_ip PROXY_AGENT_IP
      | Inr nics \<Rightarrow> (case local_ip_loop nics of Some ip \<Rightarrow> string_to_ip ip | None \<Rightarrow> string_to_ip PROXY_AGENT_IP))"

lemma update_policy_map_lookup:
  assumes "update_policy_map aya env port b st = (True, b', st')"
  shows "bpf_lookup b' n k = (if n = ''policy_map'' \<and> k \<in> (\<lambda>(e, ip, port). endpoint_key ip port) ` set policy_endpoints
     then Some (endpoint_key (redirect_address env) port) else bpf_lookup b n k)"
proof -
  obtain st1 where "policy_inserts aya (endpoint_key (redirect_address env) port) policy_endpoints b st1 = (True, b', st')"
    using assms
    by (auto simp: update_policy_map_def Let_def get_local_ip_def redirect_address_def
        split: option.splits prod.splits sum.splits)
  then show ?thesis
    by (rule policy_inserts_lookup)
qed

lemma update_skip_process_map_lookup:
  assumes "update_skip_process_map aya env b st = (True, b', st')"
  shows "bpf_lookup b' n k = (if n = ''skip_process_map'' \<and> k = [le_pid env] then Some [le_pid env] else bpf_lookup b n k)"
  using assms
  by (auto simp: update_skip_process_map_def skip_process_entry_to_array_def map_insert_lookup
      split: option.splits sum.splits)

section \<open>Starting\<close>

lemma linux_attach_core:
  assumes "linux_attach aya env port b st = (ok, st')"
  shows "if ok then IS_STARTED st' \<and> BPF_OBJECT st' = Some b \<and> ready_calls st' = Suc (ready_calls st)
    else same_core st st'"
proof -
  define path where "path = (case le_cgroup2_mount env of Inr path \<Rightarrow> path | Inl _ \<Rightarrow> get_cgroup_root (le_config env))"
  obtain ok1 st2 where cg: "attach_cgroup_program aya env path (cleanup_firewall_redirection port st) = (ok1, st2)"
    by fastforce
  obtain ok3 st3 where su: "setup_firewall_redirection port st2 = (ok3, st3)"
    by fastforce
  have "same_core st st2"
    using same_core_trans [OF same_core_cleanup same_core_attach_cgroup [OF cg]] .
  moreover have "same_core st2 st3"
    by (rule same_core_setup [OF su])
  ultimately show ?thesis
    using assms
    by (cases ok1; cases ok3) (auto simp: linux_attach_def path_def [symmetric] cg su started_def same_core_def
        split: if_splits)
qed

lemma linux_start_failure:
  assumes "linux_start aya env port st = (False, st')"
  shows "same_core st st'"
  using assms
  by (auto simp: linux_start_def open_ebpf_file_def attach_kprobe_program_def
      split: sum.splits option.splits prod.splits bool.splits
      dest!: same_core_skip same_core_policy same_core_attach linux_attach_core)
     (meson same_core_trans)+

lemma linux_start_success:
  assumes "linux_start aya env port st = (True, st')"
  obtains b b1 b2 where "aya_load_file aya (le_ebpf_path env) = Inr b"
    and "\<And>n k. bpf_lookup b1 n k = (if n = ''skip_process_map'' \<and> k = [le_pid env] then Some [le_pid env] else bpf_lookup b n k)"
    and "\<And>n k. bpf_lookup b2 n k = (if n = ''policy_map'' \<and> k \<in> (\<lambda>(e, ip, port). endpoint_key ip port) ` set policy_endpoints
           then Some (endpoint_key (redirect_address env) port) else bpf_lookup b1 n k)"
    and "IS_STARTED st'" and "BPF_OBJECT st' = Some b2" and "ready_calls st' = Suc (ready_calls st)"
proof -
  obtain b b1 b2 st1 st2 st3 where load: "aya_load_file aya (le_ebpf_path env) = Inr b"
    and skip: "update_skip_process_map aya env b st = (True, b1, st1)"
    and policy: "update_policy_map aya env port b1 st1 = (True, b2, st2)"
    and kprobe: "attach_program aya ''tcp_v4_connect'' ''KProbe'' st2 = (True, st3)"
    and attach: "linux_attach aya env port b2 st3 = (True, st')"
    using assms
    by (auto simp: linux_start_def open_ebpf_file_def attach_kprobe_program_def
        split: sum.splits option.splits prod.splits bool.splits)
  have "same_core st st3"
    using same_core_skip [OF skip] same_core_policy [OF policy] same_core_attach [OF kprobe]
    by (blast intro: same_core_trans)
  with linux_attach_core [OF attach] have "IS_STARTED st'" "BPF_OBJECT st' = Some b2"
    "ready_calls st' = Suc (ready_calls st)"
    by (auto simp: same_core_def)
  then show thesis
    using that load update_skip_process_map_lookup [OF skip] update_policy_map_lookup [OF policy] by blast
qed

section \<open>Properties\<close>


definition example_aya :: aya_lib where
  "example_aya = \<lparr>aya_load_file = (\<lambda>_. Inr \<lparr>bpf_maps = [(''skip_process_map'', []), (''policy_map'', []), (''audit_map'', [])]\<rparr>),
     aya_hash_map = (\<lambda>_. None), aya_insert = (\<lambda>_ _. None), aya_has_program = (\<lambda>_. True),
     aya_convert = (\<lambda>_. None), aya_load = (\<lambda>_. None), aya_attach = (\<lambda>_. None)\<rparr>"

definition example_redirector_config :: config where
  "example_redirector_config = \<lparr>logFolder = ''/l'', eventFolder = ''/e'', latchKeyFolder = ''/k'', startRedirector = None,
     monitorIntervalInSeconds = 60, pollKeyStatusIntervalInSeconds = 15, wireServerSupport = 2,
     hostGAPluginSupport = 2, imdsSupport = 2, maxEventFileCount = None, ebpfProgramName = ''ebpf.o'',
     cgroupRoot = None, fallBackWithIpTableRedirect = None\<rparr>"

definition example_linux_env :: linux_env where
  "example_linux_env = \<lparr>le_pid = 7, le_ebpf_path = ''/usr/lib/ebpf.o'',
     le_ifaddrs = Inr [\<lparr>nic_loopback = False, nic_up = True, nic_running = True, nic_broadcast = True,
       nic_is_bridge = False, nic_ipv4 = Some ''10.0.0.4''\<rparr>],
     le_cgroup2_mount = Inr ''/sys/fs/cgroup'', le_open = (\<lambda>_. None), le_config = example_redirector_config,
     le_startup_event = (\<lambda>m. m)\<rparr>"

lemma example_start: "fst (linux_start example_aya example_linux_env 3080 st)"
  by (simp add: linux_start_def open_ebpf_file_def example_aya_def example_linux_env_def update_skip_process_map_def
      map_insert_def update_policy_map_def get_local_ip_def policy_endpoints_def attach_kprobe_program_def
      attach_program_def linux_attach_def attach_cgroup_program_def Let_def)


text \<open>The state before attempt \<open>i\<close>, after the earlier attempts.\<close>

definition attempt_state :: "(nat \<Rightarrow> aya_lib \<times> linux_env) \<Rightarrow> u16 \<Rightarrow> redirector_state \<Rightarrow> nat \<Rightarrow> redirector_state" where
  "attempt_state attempt port st i =
     fold (\<lambda>j s. snd (linux_start (fst (attempt j)) (snd (attempt j)) port s)) [0..<i] st"

lemma redirector_close_core:
  "BPF_OBJECT (redirector_close port st) = None" "IS_STARTED (redirector_close port st) = IS_STARTED st"
  "ready_calls (redirector_close port st) = ready_calls st"
  using same_core_cleanup [of st port] by (simp_all add: redirector_close_def same_core_def)

interpretation linux: redirector_backend "\<lambda>a. linux_start (fst a) (snd a)" redirector_close IS_STARTED ready_calls
    "\<lambda>a. lookup_audit (fst a)"
proof unfold_locales
  fix a port st st'
  show "linux_start (fst a) (snd a) port st = (True, st') \<Longrightarrow> IS_STARTED st' \<and> ready_calls st' = Suc (ready_calls st)"
    by (auto elim: linux_start_success)
  show "linux_start (fst a) (snd a) port st = (False, st') \<Longrightarrow> IS_STARTED st' = IS_STARTED st \<and> ready_calls st' = ready_calls st"
    by (auto dest: linux_start_failure simp: same_core_def)
qed (simp_all add: redirector_close_core lookup_audit_def)

text \<open>The redirector is started with at most five attempts; from a stopped redirector the start
  succeeds exactly when one of the first five attempts does, each made in the state the failed ones
  left, and readiness is signalled exactly once on success and not at all on failure.\<close>

theorem redirector_start_spec:
  assumes "\<not> IS_STARTED st"
  shows "(fst (redirector_start attempt port st) \<longleftrightarrow>
      (\<exists>i < 5. fst (linux_start (fst (attempt i)) (snd (attempt i)) port (attempt_state attempt port st i))))
    \<and> ready_calls (snd (redirector_start attempt port st))
        = ready_calls st + (if fst (redirector_start attempt port st) then 1 else 0)"
proof -
  have "fold (\<lambda>a s. snd (linux_start (fst a) (snd a) port s)) (take i (map attempt [0..<5])) st
      = attempt_state attempt port st i" if "i < 5" for i
    using that by (simp add: attempt_state_def take_map fold_map comp_def)
  then show ?thesis
    using linux.retry_spec [OF assms, of "map attempt [0..<5]" port]
    by (auto simp: redirector_start_def linux.before_attempt_def Let_def cong: conj_cong)
qed

theorem redirector_start_spec_witness:
  "fst (redirector_start (\<lambda>i. (if i = 2 then example_aya else example_aya\<lparr>aya_has_program := (\<lambda>_. False)\<rparr>,
      example_linux_env)) 3080 (redirector_state_new []))"
proof -
  let ?attempt = "\<lambda>i::nat. (if i = 2 then example_aya else example_aya\<lparr>aya_has_program := (\<lambda>_. False)\<rparr>,
    example_linux_env)"
  have "\<not> IS_STARTED (redirector_state_new [])"
    by (simp add: redirector_state_new_def)
  note spec = redirector_start_spec [OF this, of ?attempt 3080]
  have "fst (linux_start (fst (?attempt 2)) (snd (?attempt 2)) 3080 (attempt_state ?attempt 3080 (redirector_state_new []) 2))"
    by (simp add: example_start)
  moreover have "(2 :: nat) < 5"
    by simp
  ultimately show ?thesis
    using spec by blast
qed

text \<open>The audit entry of a redirected connection is found under its source port: what the eBPF program
  stored for the port, and for no other port, is returned with every field; without a running object or
  without an entry the lookup is an error.\<close>

theorem lookup_audit_spec:
  assumes "BPF_OBJECT st = Some b" and "hm_get (bpf_maps b) ''audit_map'' = Some m" and "aya_hash_map aya ''audit_map'' = None"
  shows "lookup_audit aya port (st\<lparr>BPF_OBJECT := Some (b\<lparr>bpf_maps := hm_insert ''audit_map''
           (hm_insert (audit_key_to_array (audit_key_from_source_port port')) (sock_addr_audit_entry_to_array e) m) (bpf_maps b)\<rparr>)\<rparr>)
      = (if port = port'
         then Inr \<lparr>ae_logon_id = ucast (sa_logon_id e), ae_process_id = sa_process_id e, ae_is_admin = sa_is_root e,
                   ae_destination_ipv4 = sa_destination_ipv4 e, ae_destination_port = ucast (sa_destination_port e)\<rparr>
         else lookup_audit aya port st)
    \<and> lookup_audit aya port (redirector_close lp st) = Inl Other"
proof -
  have "audit_key_to_array (audit_key_from_source_port p) = audit_key_to_array (audit_key_from_source_port q) \<longleftrightarrow> p = q" for p q
    by (simp add: audit_key_codec.encode_inj audit_key_from_source_port_def)
  then show ?thesis
    using assms
    by (simp add: lookup_audit_def audit_entry_of_array_def audit_entry_codec.decode_encode Let_def redirector_close_def)
qed

theorem lookup_audit_spec_witness:
  "lookup_audit example_aya 4321 ((redirector_state_new [])\<lparr>BPF_OBJECT := Some \<lparr>bpf_maps = [(''audit_map'',
      [(audit_key_to_array (audit_key_from_source_port 4321),
        sock_addr_audit_entry_to_array \<lparr>sa_logon_id = 1, sa_process_id = 2, sa_is_root = 1,
          sa_destination_ipv4 = 3, sa_destination_port = 4\<rparr>)])]\<rparr>\<rparr>)
   = Inr \<lparr>ae_logon_id = 1, ae_process_id = 2, ae_is_admin = 1, ae_destination_ipv4 = 3, ae_destination_port = 4\<rparr>"
proof -
  let ?b = "\<lparr>bpf_maps = [(''audit_map'', [])]\<rparr>"
  have "BPF_OBJECT ((redirector_state_new [])\<lparr>BPF_OBJECT := Some ?b\<rparr>) = Some ?b"
    "hm_get (bpf_maps ?b) ''audit_map'' = Some []" "aya_hash_map example_aya ''audit_map'' = None"
    by (simp_all add: example_aya_def)
  from lookup_audit_spec [OF this, of 4321 4321 "\<lparr>sa_logon_id = 1, sa_process_id = 2, sa_is_root = 1,
          sa_destination_ipv4 = 3, sa_destination_port = 4\<rparr>"] show ?thesis
    by simp
qed

text \<open>The reported redirector message has at most 1027 bytes. The report fails, by a panic, exactly when
  the message is longer than 1024 bytes and byte 1024 is inside a character; it never does for ASCII
  messages.\<close>

theorem redirector_status_bound:
  "(redirector_get_status st = None \<longleftrightarrow>
      1024 < length (STATUS_MESSAGE st) \<and> is_cont (STATUS_MESSAGE st ! 1024))
   \<and> (redirector_get_status st = Some d \<longrightarrow>
        length (ds_message d) \<le> 1027 \<and> (ds_status d = RUNNING \<longleftrightarrow> IS_STARTED st))
   \<and> (is_ascii (STATUS_MESSAGE st) \<longrightarrow> redirector_get_status st \<noteq> None)"
proof -
  have none: "redirector_get_status st = None \<longleftrightarrow>
      1024 < length (STATUS_MESSAGE st) \<and> is_cont (STATUS_MESSAGE st ! 1024)"
    by (auto simp: redirector_get_status_def Let_def MAX_STATUS_MESSAGE_LENGTH_def is_char_boundary_def)
  moreover have "\<not> is_cont (STATUS_MESSAGE st ! 1024)"
    if "is_ascii (STATUS_MESSAGE st)" "1024 < length (STATUS_MESSAGE st)"
    using that by (auto simp: is_ascii_def is_cont_def list_all_length)
  ultimately show ?thesis
    by (auto simp: redirector_get_status_def Let_def MAX_STATUS_MESSAGE_LENGTH_def agent_defs split: if_splits)
qed

theorem redirector_status_bound_witness:
  "redirector_get_status (redirector_state_new []) \<noteq> None"
proof -
  have "is_ascii (STATUS_MESSAGE (redirector_state_new []))"
    by code_simp
  then show ?thesis
    using redirector_status_bound [of "redirector_state_new []"] by blast
qed

end
