(* ===== verification/Proxy_Listener.thy ===== *)
theory Proxy_Listener
  imports Authorization Http_Stream Redirector
begin

text \<open>
  \<^verbatim>\<open>proxy_agent/src/proxy/proxy_listener.rs\<close>: what happens to one redirected connection, from the
  client's request to the host's answer, and the loop that accepts connections. The handler reads and
  writes two streams, the client's and, once connected, the host's; it does not return when one of
  them ends inside a body, and \<open>None\<close> is that case.
\<close>

section \<open>State and environment\<close>

text \<open>
  What the handler observes of the rest of the program and of the system: the authentication
  environment and the rules in force, the cryptography, the process table, the redirector with its
  audit map, the peer address, the JSON text of the claims (\<open>None\<close> is an error of \<^verbatim>\<open>serde_json\<close>), the
  connection to the host, the clock, and the current key and its guid. The key and the guid are read
  from the key keeper in two calls, so they are two observations.
\<close>

record 'u proxy_env =
  px_auth :: "'u auth_env"
  px_rules :: rule_state
  px_crypto :: crypto_lib
  px_os :: os_lib
  px_aya :: aya_lib
  px_redirector :: redirector_state
  px_peer_addr :: "(string \<times> u16) io_result"
  px_claims_json :: "claims \<Rightarrow> string option"
  px_connect :: "string \<Rightarrow> u16 \<Rightarrow> tcp_stream io_result"
  px_now :: string
  px_elapsed :: u128
  px_key :: string
  px_key_guid :: string

text \<open>\<^verbatim>\<open>Connection\<close>; the start time is read through \<open>px_elapsed\<close>.\<close>

record connection =
  cn_stream :: tcp_stream
  cn_id :: u128
  cn_claims :: "claims option"
  cn_ip :: string
  cn_port :: u16

text \<open>The connection, the stream to the host once there is one, and the tables all connections share.\<close>

record handler_state =
  hs_connection :: connection
  hs_server :: "tcp_stream option"
  hs_status :: status_state
  hs_users :: users_cache

definition client_stream :: "handler_state \<Rightarrow> tcp_stream" where
  "client_stream st = cn_stream (hs_connection st)"

definition set_client :: "tcp_stream \<Rightarrow> handler_state \<Rightarrow> handler_state" where
  "set_client s st = st\<lparr>hs_connection := (hs_connection st)\<lparr>cn_stream := s\<rparr>\<rparr>"

definition set_streams :: "tcp_stream \<Rightarrow> tcp_stream \<Rightarrow> handler_state \<Rightarrow> handler_state" where
  "set_streams client server st = (set_client client st)\<lparr>hs_server := Some server\<rparr>"

section \<open>Answers and summaries\<close>

definition agent_response :: "string \<Rightarrow> response" where
  "agent_response status =
     (let response = from_status status
      in response\<lparr>resp_headers := add_header AUTHORIZATION_HEADER ''value'' (resp_headers response)\<rparr>)"

definition send_response :: "string \<Rightarrow> handler_state \<Rightarrow> handler_state" where
  "send_response status st =
     set_client (snd (write_all (response_to_raw_string (agent_response status)) (client_stream st))) st"

definition summary_of :: "'u proxy_env \<Rightarrow> request \<Rightarrow> string \<Rightarrow> connection \<Rightarrow> proxy_summary" where
  "summary_of env request response_status cn =
     (let c = (case cn_claims cn of Some c \<Rightarrow> c | None \<Rightarrow> claims_empty)
      in \<lparr>ps_method = req_method request, ps_url = req_url request, ps_clientIp = clientIp c, ps_ip = cn_ip cn,
          ps_port = cn_port cn, ps_userId = userId c, ps_userName = userName c, ps_userGroups = userGroups c,
          ps_processFullPath = processFullPath c, ps_processCmdLine = processCmdLine c,
          ps_runAsElevated = runAsElevated c, ps_responseStatus = response_status,
          ps_elapsedTime = px_elapsed env\<rparr>)"

definition log_connection_summary :: "'u proxy_env \<Rightarrow> request \<Rightarrow> string \<Rightarrow> handler_state \<Rightarrow> handler_state" where
  "log_connection_summary env request response_status st =
     st\<lparr>hs_status := add_connection_summary (summary_of env request response_status (hs_connection st)) False
                       (hs_status st)\<rparr>"

text \<open>The pair of calls with which the handler gives up on a connection.\<close>

definition reject :: "'u proxy_env \<Rightarrow> request \<Rightarrow> string \<Rightarrow> handler_state \<Rightarrow> handler_state" where
  "reject env request status st = log_connection_summary env request status (send_response status st)"

section \<open>The request to the host\<close>

definition host_claims :: "bool \<Rightarrow> string" where
  "host_claims elevated = [CHR ''{'', CHR '' '', CHR 0x22] @ CLAIMS_IS_ROOT
     @ [CHR 0x22, CHR '':'', CHR '' '', CHR 0x22] @ (if elevated then ''true'' else ''false'') @ [CHR 0x22, CHR ''}'']"

definition add_required_headers :: "'u proxy_env \<Rightarrow> claims \<Rightarrow> request \<Rightarrow> request" where
  "add_required_headers env c request =
     add_request_header DATE_HEADER (px_now env)
       (add_request_header CLAIMS_HEADER (host_claims (runAsElevated c)) request)"

definition handle_expect_continue_request ::
    "'u proxy_env \<Rightarrow> request \<Rightarrow> handler_state \<Rightarrow> (request \<times> handler_state) option" where
  "handle_expect_continue_request env request st =
     (let st1 = send_response CONTINUE st
      in case get_content_length (req_headers request) of
           Inl e \<Rightarrow> Some (request, reject env request BAD_REQUEST st1)
         | Inr content_length \<Rightarrow>
             (case receive_body (client_stream st1) content_length of
                None \<Rightarrow> None
              | Some (Inl e, s) \<Rightarrow> Some (request, reject env request BAD_REQUEST (set_client s st1))
              | Some (Inr data, s) \<Rightarrow> Some (request\<lparr>req_body := data\<rparr>, set_client s st1)))"

definition sign_request :: "'u proxy_env \<Rightarrow> request \<Rightarrow> request" where
  "sign_request env request =
     (if px_key env \<noteq> []
      then (case compute_signature (px_crypto env) (px_key env) (as_sig_input (ae_urls (px_auth env)) request) of
              Inr sig \<Rightarrow> add_request_header AUTHORIZATION_HEADER (authorization_value (px_key_guid env) sig) request
            | Inl e \<Rightarrow> request)
      else request)"

definition extra_response_headers :: "(string, string) hmap" where
  "extra_response_headers = [(AUTHORIZATION_HEADER, ''value'')]"

definition forward_signed ::
    "'u proxy_env \<Rightarrow> request \<Rightarrow> tcp_stream \<Rightarrow> handler_state \<Rightarrow> handler_state option" where
  "forward_signed env request server st =
     (let server1 = snd (write_all (request_to_raw_string request) server)
      in case forward_response server1 (client_stream st) extra_response_headers of
           None \<Rightarrow> None
         | Some (Inl e, server2, client2) \<Rightarrow> Some (set_streams client2 server2 st)
         | Some (Inr (response, len), server2, client2) \<Rightarrow>
             if is_continue_response response
             then (let server3 = snd (write_all (req_body request) server2)
                   in case forward_response server3 client2 extra_response_headers of
                        None \<Rightarrow> None
                      | Some (Inl e, server4, client4) \<Rightarrow> Some (set_streams client4 server4 st)
                      | Some (Inr (response', len'), server4, client4) \<Rightarrow>
                          Some (log_connection_summary env request (resp_status response')
                                  (set_streams client4 server4 st)))
             else Some (log_connection_summary env request (resp_status response) (set_streams client2 server2 st)))"

definition handle_connection_with_signature ::
    "'u proxy_env \<Rightarrow> request \<Rightarrow> tcp_stream \<Rightarrow> handler_state \<Rightarrow> handler_state option" where
  "handle_connection_with_signature env request server st =
     (case (if expect_continue_request request then handle_expect_continue_request env request st
            else Some (request, st)) of
        None \<Rightarrow> None
      | Some (request1, st1) \<Rightarrow> forward_signed env (sign_request env request1) server st1)"

text \<open>The answer of the host to a request that needs no signature, after any body has been streamed.\<close>

definition answer_client ::
    "'u proxy_env \<Rightarrow> request \<Rightarrow> response \<Rightarrow> tcp_stream \<Rightarrow> handler_state \<Rightarrow> handler_state" where
  "answer_client env request response server st =
     (let response1 = response\<lparr>resp_headers := add_header AUTHORIZATION_HEADER ''value'' (resp_headers response)\<rparr>;
          client1 = snd (write_all (response_to_raw_bytes response1) (client_stream st))
      in log_connection_summary env request (resp_status response1) (set_streams client1 server st))"

definition stream_request_body ::
    "'u proxy_env \<Rightarrow> request \<Rightarrow> tcp_stream \<Rightarrow> handler_state \<Rightarrow> handler_state option" where
  "stream_request_body env request server st =
     (case get_content_length (req_headers request) of
        Inl e \<Rightarrow> Some (reject env request BAD_REQUEST (st\<lparr>hs_server := Some server\<rparr>))
      | Inr content_length \<Rightarrow>
          (let st1 = send_response CONTINUE st
           in case stream_body (client_stream st1) server content_length of
                None \<Rightarrow> None
              | Some (Inl e, client2, server2) \<Rightarrow>
                  Some (reject env request BAD_GATEWAY (set_streams client2 server2 st1))
              | Some (Inr l, client2, server2) \<Rightarrow>
                  if l < content_length
                  then Some (reject env request BAD_REQUEST (set_streams client2 server2 st1))
                  else (case receive_response_data server2 of
                          None \<Rightarrow> None
                        | Some (Inl e, server3) \<Rightarrow>
                            Some (reject env request BAD_GATEWAY (set_streams client2 server3 st1))
                        | Some (Inr response, server3) \<Rightarrow>
                            Some (answer_client env request response server3 (set_streams client2 server3 st1)))))"

definition handle_connection_without_signature ::
    "'u proxy_env \<Rightarrow> request \<Rightarrow> tcp_stream \<Rightarrow> handler_state \<Rightarrow> handler_state option" where
  "handle_connection_without_signature env request server st =
     (let server1 = snd (write_all (request_to_raw_string request) server)
      in case receive_response_data server1 of
           None \<Rightarrow> None
         | Some (Inl e, server2) \<Rightarrow> Some (reject env request BAD_GATEWAY (st\<lparr>hs_server := Some server2\<rparr>))
         | Some (Inr response, server2) \<Rightarrow>
             if is_continue_response response then stream_request_body env request server2 st
             else Some (answer_client env request response server2 st))"

section \<open>One connection\<close>

text \<open>\<^verbatim>\<open>redirector::get_audit_from_stream\<close> of the Linux build.\<close>

definition get_audit_from_stream :: "tcp_stream \<Rightarrow> audit_entry io_result" where
  "get_audit_from_stream s = Inl Unsupported"

definition get_audit_entry :: "'u proxy_env \<Rightarrow> u16 \<Rightarrow> tcp_stream \<Rightarrow> audit_entry io_result" where
  "get_audit_entry env client_source_port s =
     (case lookup_audit (px_aya env) client_source_port (px_redirector env) of
        Inr entry \<Rightarrow> Inr entry
      | Inl e \<Rightarrow> get_audit_from_stream s)"

text \<open>From the claims on: authentication, the connection to the host, and the request.\<close>

definition forward_connection ::
    "'u proxy_env \<Rightarrow> request \<Rightarrow> claims \<Rightarrow> audit_entry \<Rightarrow> handler_state \<Rightarrow> handler_state option" where
  "forward_connection env request c entry st =
     (let ip = ip_to_string (ae_destination_ipv4 entry);
          port = ntohs (ae_destination_port entry);
          st1 = st\<lparr>hs_connection := (hs_connection st)\<lparr>cn_claims := Some c, cn_ip := ip, cn_port := port\<rparr>\<rparr>;
          (authenticated, status) =
            authenticate (px_auth env) (px_rules env) (get_authenticate ip port c) (req_url request) (hs_status st1);
          st2 = st1\<lparr>hs_status := status\<rparr>
      in if \<not> authenticated then Some (reject env request FORBIDDEN st2)
         else (case px_connect env ip port of
                 Inl e \<Rightarrow> Some (reject env request MISDIRECTED st2)
               | Inr server \<Rightarrow>
                   (let request1 = add_required_headers env c request;
                        st3 = st2\<lparr>hs_server := Some server\<rparr>
                    in if need_skip_sig request1
                       then handle_connection_without_signature env request1 server st3
                       else handle_connection_with_signature env request1 server st3)))"

definition handle_connection :: "'u proxy_env \<Rightarrow> handler_state \<Rightarrow> handler_state option" where
  "handle_connection env st =
     (case receive_request_data (client_stream st) of
        None \<Rightarrow> None
      | Some (Inl e, s) \<Rightarrow> Some (set_client s st)
      | Some (Inr request, s) \<Rightarrow>
          (let st1 = set_client s st
           in case px_peer_addr env of
                Inl e \<Rightarrow> Some st1
              | Inr (client_source_ip, client_source_port) \<Rightarrow>
                  (case get_audit_entry env client_source_port s of
                     Inl e \<Rightarrow> Some (reject env request MISDIRECTED st1)
                   | Inr entry \<Rightarrow>
                       (let (c, users) = from_audit_entry (px_os env) entry client_source_ip (hs_users st1);
                            st2 = st1\<lparr>hs_users := users\<rparr>
                        in case px_claims_json env c of
                             None \<Rightarrow> Some (reject env request MISDIRECTED st2)
                           | Some claim_details \<Rightarrow> forward_connection env request c entry st2))))"

section \<open>The accept loop\<close>

text \<open>
  \<^verbatim>\<open>start\<close>: binding the port, announcing the listener, and the loop over \<^verbatim>\<open>listener.incoming()\<close>. An event
  of the loop is the value of the stop flag at that moment and the accepted stream or the error. The
  jobs given to the pool are recorded with the id of their connection. A poisoned counter lock, which
  a panic between two arithmetic instructions would need, is not modelled.
\<close>

record listener_state =
  CONNECTION_COUNT :: u128
  LISTENER_STATUS_MESSAGE :: string
  listener_stopped :: bool
  listener_started_calls :: nat
  executed :: "(u128 \<times> tcp_stream) list"

definition listener_state_new :: listener_state where
  "listener_state_new = \<lparr>CONNECTION_COUNT = 0, LISTENER_STATUS_MESSAGE = ''Proxy listner has not started yet.'',
     listener_stopped = False, listener_started_calls = 0, executed = []\<rparr>"

definition accept_step :: "bool \<times> tcp_stream io_result \<Rightarrow> listener_state \<Rightarrow> listener_state" where
  "accept_step ev st =
     (if listener_stopped st then st
      else if fst ev
      then st\<lparr>LISTENER_STATUS_MESSAGE := ''Stop signal received, stop the listener.'', listener_stopped := True\<rparr>
      else (let count0 = (if CONNECTION_COUNT st = - 1 then 0 else CONNECTION_COUNT st);
                count = count0 + 1;
                st1 = st\<lparr>CONNECTION_COUNT := count\<rparr>
            in case snd ev of
                 Inr stream \<Rightarrow> st1\<lparr>executed := executed st1 @ [(count, stream)]\<rparr>
               | Inl e \<Rightarrow> st1))"

definition listener_start ::
    "(string \<Rightarrow> string) \<Rightarrow> string + unit \<Rightarrow> (bool \<times> tcp_stream io_result) list \<Rightarrow> listener_state \<Rightarrow> listener_state" where
  "listener_start startup_event bind incoming st =
     (case bind of
        Inl message \<Rightarrow> st\<lparr>LISTENER_STATUS_MESSAGE := message\<rparr>
      | Inr _ \<Rightarrow>
          fold accept_step incoming
            (st\<lparr>LISTENER_STATUS_MESSAGE := startup_event ''Started proxy listener, ready to accept request'',
                listener_started_calls := Suc (listener_started_calls st)\<rparr>))"

definition listener_get_status :: "bool \<Rightarrow> listener_state \<Rightarrow> detail_status" where
  "listener_get_status shutdown st =
     \<lparr>ds_status = (if shutdown then STOPPED else RUNNING), ds_message = LISTENER_STATUS_MESSAGE st, ds_states = None\<rparr>"

section \<open>Frames\<close>

lemma set_client_simps [simp]:
  "client_stream (set_client s st) = s" "hs_server (set_client s st) = hs_server st"
  "hs_status (set_client s st) = hs_status st" "hs_users (set_client s st) = hs_users st"
  "cn_claims (hs_connection (set_client s st)) = cn_claims (hs_connection st)"
  "cn_ip (hs_connection (set_client s st)) = cn_ip (hs_connection st)"
  "cn_port (hs_connection (set_client s st)) = cn_port (hs_connection st)"
  by (simp_all add: set_client_def client_stream_def)

lemma set_streams_simps [simp]:
  "client_stream (set_streams c s st) = c" "hs_server (set_streams c s st) = Some s"
  "hs_status (set_streams c s st) = hs_status st"
  by (simp_all add: set_streams_def, simp_all add: set_client_def client_stream_def)

lemma log_simps [simp]:
  "client_stream (log_connection_summary env q r st) = client_stream st"
  "hs_server (log_connection_summary env q r st) = hs_server st"
  "hs_connection (log_connection_summary env q r st) = hs_connection st"
  by (simp_all add: log_connection_summary_def client_stream_def)

lemma send_response_simps [simp]:
  "hs_server (send_response r st) = hs_server st" "hs_status (send_response r st) = hs_status st"
  by (simp_all add: send_response_def)

lemma reject_simps [simp]: "hs_server (reject env q r st) = hs_server st"
  by (simp add: reject_def)

lemma hs_server_update_simps [simp]:
  "client_stream (st\<lparr>hs_server := x\<rparr>) = client_stream st"
  "client_stream (st\<lparr>hs_status := y\<rparr>) = client_stream st"
  "client_stream (st\<lparr>hs_users := z\<rparr>) = client_stream st"
  by (simp_all add: client_stream_def)

text \<open>A summary does not depend on the stream of the connection.\<close>

lemma summary_of_cong:
  "cn_claims cn = cn_claims cn' \<Longrightarrow> cn_ip cn = cn_ip cn' \<Longrightarrow> cn_port cn = cn_port cn' \<Longrightarrow>
   summary_of env q r cn = summary_of env q r cn'"
  by (simp add: summary_of_def)

lemma summary_of_stream [simp]: "summary_of env q r (cn\<lparr>cn_stream := s\<rparr>) = summary_of env q r cn"
  by (rule summary_of_cong) simp_all

section \<open>The host's side of a connection\<close>

text \<open>
  What the host receives: the request, the way \<open>request_to_raw_string\<close> prints it, and possibly the body.
\<close>

definition host_bytes :: "request \<Rightarrow> tcp_stream \<Rightarrow> tcp_stream \<Rightarrow> bool" where
  "host_bytes q server server' \<longleftrightarrow>
     (writes_ok server \<longrightarrow> prefix (tx server @ request_to_raw_string q) (tx server'))"

lemma write_all_same_out:
  assumes "writes_ok s"
  obtains s' where "snd (write_all buf s) = s'" "writes_ok s'" "tx s' = tx s @ buf"
  using write_all_writes_ok [OF assms, of buf] by fastforce

lemma same_out_writes_ok: "same_out s s' \<Longrightarrow> writes_ok s' = writes_ok s"
  by (simp add: same_out_def writes_ok_def)

lemma prefix_write: "prefix p (tx s) \<Longrightarrow> prefix p (tx (snd (write_all buf s)))"
  using write_all_prefix [of buf s "fst (write_all buf s)" "snd (write_all buf s)"] by force

lemma prefix_same_out: "same_out s s' \<Longrightarrow> prefix p (tx s') = prefix p (tx s)"
  by (simp add: same_out_def)

lemma host_bytes_written: "host_bytes q server (snd (write_all (request_to_raw_string q) server))"
  unfolding host_bytes_def by (metis prefix_order.refl write_all_same_out)

lemma host_bytes_same_out: "host_bytes q server s \<Longrightarrow> same_out s s' \<Longrightarrow> host_bytes q server s'"
  by (simp add: host_bytes_def same_out_def)

lemma host_bytes_write: "host_bytes q server s \<Longrightarrow> host_bytes q server (snd (write_all buf s))"
  by (simp add: host_bytes_def prefix_write)

lemma stream_body_dst: "stream_body src dst len = Some (res, src', dst') \<Longrightarrow> \<exists>p. tx dst' = tx dst @ p"
  by (auto simp: stream_body_def stream_body_internal_def stream_ok_def split: option.splits
        dest!: stream_body_loop_safe)

lemma host_bytes_stream:
  "host_bytes q server s \<Longrightarrow> stream_body src s len = Some (res, src', s') \<Longrightarrow> host_bytes q server s'"
  by (auto simp: host_bytes_def dest!: stream_body_dst)

lemma forward_signed_host:
  assumes "forward_signed env q server st = Some st'"
  shows "\<exists>server'. hs_server st' = Some server' \<and> host_bytes q server server'"
proof -
  let ?s1 = "snd (write_all (request_to_raw_string q) server)"
  obtain res s2 c2 where f: "forward_response ?s1 (client_stream st) extra_response_headers = Some (res, s2, c2)"
    using assms by (auto simp: forward_signed_def Let_def split: option.splits)
  have h2: "host_bytes q server s2"
    by (rule host_bytes_same_out [OF host_bytes_written forward_response_same_out [OF f]])
  show ?thesis
  proof (cases "\<exists>resp n. res = Inr (resp, n) \<and> is_continue_response resp")
    case False
    with assms f h2 show ?thesis
      by (cases res) (auto simp: forward_signed_def)
  next
    case True
    then obtain resp n where res: "res = Inr (resp, n)" "is_continue_response resp"
      by blast
    let ?s3 = "snd (write_all (req_body q) s2)"
    obtain res' s4 c4 where g: "forward_response ?s3 c2 extra_response_headers = Some (res', s4, c4)"
      using assms f res by (auto simp: forward_signed_def Let_def split: option.splits)
    have "host_bytes q server s4"
      by (rule host_bytes_same_out [OF host_bytes_write [OF h2] forward_response_same_out [OF g]])
    with assms f g res show ?thesis
      by (cases res') (auto simp: forward_signed_def Let_def)
  qed
qed

lemma stream_request_body_host:
  assumes "stream_request_body env q s2 st = Some st'" and h: "host_bytes q server s2"
  shows "\<exists>server'. hs_server st' = Some server' \<and> host_bytes q server server'"
proof (cases "get_content_length (req_headers q)")
  case (Inl e)
  with assms show ?thesis by (auto simp: stream_request_body_def)
next
  case (Inr len)
  obtain res c3 s3 where sb: "stream_body (client_stream (send_response CONTINUE st)) s2 len = Some (res, c3, s3)"
    using assms(1) Inr by (auto simp: stream_request_body_def Let_def split: option.splits)
  note h3 = host_bytes_stream [OF h sb]
  show ?thesis
  proof (cases "\<exists>l. res = Inr l \<and> \<not> l < len")
    case False
    with assms Inr sb h3 show ?thesis
      by (cases res) (auto simp: stream_request_body_def)
  next
    case True
    obtain res' s4 where rr: "receive_response_data s3 = Some (res', s4)"
      using assms(1) Inr sb True by (auto simp: stream_request_body_def Let_def split: option.splits)
    with assms Inr sb True host_bytes_same_out [OF h3 receive_response_same_out [OF rr]] show ?thesis
      by (cases res') (auto simp: stream_request_body_def Let_def answer_client_def)
  qed
qed

lemma without_signature_host:
  assumes "handle_connection_without_signature env q server st = Some st'"
  shows "\<exists>server'. hs_server st' = Some server' \<and> host_bytes q server server'"
proof -
  obtain res s2 where rr: "receive_response_data (snd (write_all (request_to_raw_string q) server)) = Some (res, s2)"
    using assms by (auto simp: handle_connection_without_signature_def Let_def split: option.splits)
  note h = host_bytes_same_out [OF host_bytes_written receive_response_same_out [OF rr]]
  show ?thesis
  proof (cases "\<exists>resp. res = Inr resp \<and> is_continue_response resp")
    case True
    with assms rr stream_request_body_host [OF _ h] show ?thesis
      by (auto simp: handle_connection_without_signature_def)
  next
    case False
    with assms rr h show ?thesis
      by (cases res) (auto simp: handle_connection_without_signature_def answer_client_def Let_def)
  qed
qed

text \<open>The request the host must see: the claims and the date are the agent's, and it is signed.\<close>

definition host_request :: "'u proxy_env \<Rightarrow> claims \<Rightarrow> request \<Rightarrow> request \<Rightarrow> bool" where
  "host_request env c request q \<longleftrightarrow>
     req_method q = req_method request \<and> req_url q = req_url request \<and> req_version q = req_version request
     \<and> hm_get (req_headers q) CLAIMS_HEADER = Some (CLAIMS_HEADER, host_claims (runAsElevated c))
     \<and> hm_get (req_headers q) DATE_HEADER = Some (DATE_HEADER, px_now env)
     \<and> hm_get (req_headers q) AUTHORIZATION_HEADER =
         (case (px_key env, hex_decode (px_crypto env) (px_key env)) of
            (Cons _ _, Some k) \<Rightarrow>
              if need_skip_sig request then hm_get (req_headers request) AUTHORIZATION_HEADER
              else Some (AUTHORIZATION_HEADER, authorization_value (px_key_guid env)
                     (hex_encode (px_crypto env) (hmac_sha256 (px_crypto env) k (as_sig_input (ae_urls (px_auth env)) q))))
          | _ \<Rightarrow> hm_get (req_headers request) AUTHORIZATION_HEADER)"

lemma add_required_headers_simps [simp]:
  "req_method (add_required_headers env c q) = req_method q" "req_url (add_required_headers env c q) = req_url q"
  "req_version (add_required_headers env c q) = req_version q"
  "hm_get (req_headers (add_required_headers env c q)) CLAIMS_HEADER = Some (CLAIMS_HEADER, host_claims (runAsElevated c))"
  "hm_get (req_headers (add_required_headers env c q)) DATE_HEADER = Some (DATE_HEADER, px_now env)"
  "hm_get (req_headers (add_required_headers env c q)) AUTHORIZATION_HEADER = hm_get (req_headers q) AUTHORIZATION_HEADER"
  "need_skip_sig (add_required_headers env c q) = need_skip_sig q"
  by (simp_all add: add_required_headers_def hm_get_add_header need_skip_sig_def)

lemma sign_request_simps [simp]:
  "req_method (sign_request env q) = req_method q" "req_url (sign_request env q) = req_url q"
  "req_version (sign_request env q) = req_version q" "req_body (sign_request env q) = req_body q"
  "k \<noteq> AUTHORIZATION_HEADER \<Longrightarrow> hm_get (req_headers (sign_request env q)) k = hm_get (req_headers q) k"
  "as_sig_input U (sign_request env q) = as_sig_input U q"
  by (simp_all add: sign_request_def hm_get_add_header as_sig_input_add_authorization split: sum.splits)

lemma sign_request_authorization:
  "hm_get (req_headers (sign_request env q)) AUTHORIZATION_HEADER =
     (case (px_key env, hex_decode (px_crypto env) (px_key env)) of
        (Cons _ _, Some k) \<Rightarrow> Some (AUTHORIZATION_HEADER, authorization_value (px_key_guid env)
           (hex_encode (px_crypto env) (hmac_sha256 (px_crypto env) k (as_sig_input (ae_urls (px_auth env)) q))))
      | _ \<Rightarrow> hm_get (req_headers q) AUTHORIZATION_HEADER)"
  by (cases "px_key env")
     (auto simp: sign_request_def compute_signature_def hm_get_add_header split: option.splits)

lemma host_request_signed:
  assumes "req_headers q1 = req_headers (add_required_headers env c q)" and "req_method q1 = req_method q"
    and "req_url q1 = req_url q" and "req_version q1 = req_version q" and "\<not> need_skip_sig q"
  shows "host_request env c q (sign_request env q1)"
  using assms
  by (simp add: host_request_def sign_request_authorization split: list.splits option.splits)

lemma host_request_skipped:
  "need_skip_sig q \<Longrightarrow> host_request env c q (add_required_headers env c q)"
  by (simp add: host_request_def split: list.splits option.splits)

lemma expect_continue_keeps:
  assumes "handle_expect_continue_request env q st = Some (q1, st1)"
  shows "req_headers q1 = req_headers q \<and> req_method q1 = req_method q \<and> req_url q1 = req_url q
    \<and> req_version q1 = req_version q \<and> hs_server st1 = hs_server st"
  using assms by (auto simp: handle_expect_continue_request_def Let_def split: sum.splits option.splits)

lemma with_signature_host:
  assumes "handle_connection_with_signature env (add_required_headers env c q) server st = Some st'"
    and ns: "\<not> need_skip_sig q"
  shows "\<exists>q' server'. hs_server st' = Some server' \<and> host_request env c q q' \<and> host_bytes q' server server'"
proof -
  let ?q = "add_required_headers env c q"
  obtain q1 st1 where run: "forward_signed env (sign_request env q1) server st1 = Some st'"
    and src: "(q1, st1) = (?q, st) \<or> handle_expect_continue_request env ?q st = Some (q1, st1)"
    using assms(1) by (auto simp: handle_connection_with_signature_def split: option.splits if_splits)
  have "req_headers q1 = req_headers ?q \<and> req_method q1 = req_method q \<and> req_url q1 = req_url q
      \<and> req_version q1 = req_version q"
    using src expect_continue_keeps [of env ?q st q1 st1] by auto
  then have "host_request env c q (sign_request env q1)"
    using host_request_signed [of q1 env c q] ns by blast
  with forward_signed_host [OF run] show ?thesis by blast
qed

section \<open>What a contact with the host requires\<close>

text \<open>
  The reasons for which a received request is refused, in the order the handler looks at them, with
  the status the client is told.
\<close>

definition conn_claims :: "'u proxy_env \<Rightarrow> string \<Rightarrow> audit_entry \<Rightarrow> handler_state \<Rightarrow> claims" where
  "conn_claims env client_ip entry st = fst (from_audit_entry (px_os env) entry client_ip (hs_users st))"

definition conn_authenticated :: "'u proxy_env \<Rightarrow> string \<Rightarrow> audit_entry \<Rightarrow> claims \<Rightarrow> handler_state \<Rightarrow> bool" where
  "conn_authenticated env request_url entry c st =
     fst (authenticate (px_auth env) (px_rules env)
       (get_authenticate (ip_to_string (ae_destination_ipv4 entry)) (ntohs (ae_destination_port entry)) c)
       request_url (hs_status st))"

definition conn_host :: "'u proxy_env \<Rightarrow> audit_entry \<Rightarrow> tcp_stream io_result" where
  "conn_host env entry = px_connect env (ip_to_string (ae_destination_ipv4 entry)) (ntohs (ae_destination_port entry))"

definition refusal :: "'u proxy_env \<Rightarrow> string \<Rightarrow> string \<Rightarrow> u16 \<Rightarrow> handler_state \<Rightarrow> string option" where
  "refusal env request_url client_ip client_port st =
     (case lookup_audit (px_aya env) client_port (px_redirector env) of
        Inl e \<Rightarrow> Some MISDIRECTED
      | Inr entry \<Rightarrow>
          (let c = conn_claims env client_ip entry st
           in if px_claims_json env c = None then Some MISDIRECTED
              else if \<not> conn_authenticated env request_url entry c st then Some FORBIDDEN
              else (case conn_host env entry of Inl e \<Rightarrow> Some MISDIRECTED | Inr server \<Rightarrow> None)))"

text \<open>The state after the authentication.\<close>

definition after_auth :: "'u proxy_env \<Rightarrow> request \<Rightarrow> claims \<Rightarrow> audit_entry \<Rightarrow> handler_state \<Rightarrow> handler_state" where
  "after_auth env q c entry st =
     (let ip = ip_to_string (ae_destination_ipv4 entry); port = ntohs (ae_destination_port entry)
      in st\<lparr>hs_connection := (hs_connection st)\<lparr>cn_claims := Some c, cn_ip := ip, cn_port := port\<rparr>,
            hs_status := snd (authenticate (px_auth env) (px_rules env) (get_authenticate ip port c) (req_url q) (hs_status st))\<rparr>)"

lemma after_auth_simps [simp]:
  "client_stream (after_auth env q c entry st) = client_stream st"
  "hs_server (after_auth env q c entry st) = hs_server st"
  "SUMMARY_MAP (hs_status (after_auth env q c entry st)) = SUMMARY_MAP (hs_status st)"
  by (simp_all add: after_auth_def Let_def authn.keeps_summaries client_stream_def)

lemma forward_connection_cases:
  "forward_connection env q c entry st =
     (if \<not> conn_authenticated env (req_url q) entry c st
      then Some (reject env q FORBIDDEN (after_auth env q c entry st))
      else (case conn_host env entry of
              Inl e \<Rightarrow> Some (reject env q MISDIRECTED (after_auth env q c entry st))
            | Inr server \<Rightarrow>
                (if need_skip_sig q then handle_connection_without_signature else handle_connection_with_signature)
                  env (add_required_headers env c q) server ((after_auth env q c entry st)\<lparr>hs_server := Some server\<rparr>)))"
  by (simp add: forward_connection_def after_auth_def conn_authenticated_def conn_host_def Let_def case_prod_beta
        split: sum.split)

lemma handle_connection_received:
  assumes "receive_request_data (client_stream st) = Some (Inr q, s)" and "px_peer_addr env = Inr (cip, port)"
  shows "handle_connection env st =
     (case lookup_audit (px_aya env) port (px_redirector env) of
        Inl e \<Rightarrow> Some (reject env q MISDIRECTED (set_client s st))
      | Inr entry \<Rightarrow>
          (let c = conn_claims env cip entry st;
               st2 = (set_client s st)\<lparr>hs_users := snd (from_audit_entry (px_os env) entry cip (hs_users st))\<rparr>
           in if px_claims_json env c = None then Some (reject env q MISDIRECTED st2)
              else forward_connection env q c entry st2))"
  using assms
  by (simp add: handle_connection_def get_audit_entry_def get_audit_from_stream_def conn_claims_def Let_def
        case_prod_beta split: sum.split option.split)

text \<open>A rejection: the answer on the client's stream and one summary.\<close>

lemma reject_spec:
  "hs_server (reject env q status st) = hs_server st"
  "writes_ok (client_stream st) \<Longrightarrow>
     tx (client_stream (reject env q status st)) = tx (client_stream st) @ response_to_raw_string (agent_response status)"
  "SUMMARY_MAP (hs_status (reject env q status st)) =
     add_to_summary_map (summary_of env q status (hs_connection (reject env q status st))) (SUMMARY_MAP (hs_status st))"
  by (auto simp: reject_def send_response_def log_connection_summary_def add_connection_summary_def
        elim: write_all_same_out)

lemma conn_authenticated_cong [simp]:
  "conn_authenticated env u entry c (set_client s st) = conn_authenticated env u entry c st"
  "conn_authenticated env u entry c (st\<lparr>hs_users := us\<rparr>) = conn_authenticated env u entry c st"
  by (simp_all add: conn_authenticated_def)

text \<open>A refused request is answered by a rejection from a state with the same streams and summaries.\<close>

lemma refused_rejects:
  assumes recv: "receive_request_data (client_stream st) = Some (Inr q, s)" and peer: "px_peer_addr env = Inr (cip, port)"
    and ref: "refusal env (req_url q) cip port st = Some status"
  obtains st1 where "handle_connection env st = Some (reject env q status st1)" "client_stream st1 = s"
    "hs_server st1 = hs_server st" "SUMMARY_MAP (hs_status st1) = SUMMARY_MAP (hs_status st)"
proof (cases "lookup_audit (px_aya env) port (px_redirector env)")
  case (Inl e)
  with ref handle_connection_received [OF recv peer] that [of "set_client s st"] show ?thesis
    by (simp add: refusal_def)
next
  case (Inr entry)
  let ?c = "conn_claims env cip entry st"
  let ?st2 = "(set_client s st)\<lparr>hs_users := snd (from_audit_entry (px_os env) entry cip (hs_users st))\<rparr>"
  show ?thesis
  proof (cases "px_claims_json env ?c = None")
    case True
    with Inr ref handle_connection_received [OF recv peer] that [of ?st2] show ?thesis
      by (simp add: refusal_def Let_def)
  next
    case False
    with Inr handle_connection_received [OF recv peer]
    have hc: "handle_connection env st = forward_connection env q ?c entry ?st2"
      by simp
    from Inr False ref have "\<not> conn_authenticated env (req_url q) entry ?c st \<and> status = FORBIDDEN
        \<or> conn_authenticated env (req_url q) entry ?c st \<and> (\<exists>e. conn_host env entry = Inl e) \<and> status = MISDIRECTED"
      by (auto simp: refusal_def Let_def split: sum.splits if_splits)
    then have "forward_connection env q ?c entry ?st2 = Some (reject env q status (after_auth env q ?c entry ?st2))"
      by (auto simp: forward_connection_cases)
    with hc that show ?thesis by simp
  qed
qed

section \<open>The shared tables\<close>

text \<open>The invariant of the tables that all connections share.\<close>

definition tables_inv :: "os_lib \<Rightarrow> handler_state \<Rightarrow> bool" where
  "tables_inv os st \<longleftrightarrow> status_inv (hs_status st) \<and> users_inv os (hs_users st)"

lemma tables_inv_simps [simp]:
  "tables_inv os (set_client s st) = tables_inv os st"
  "tables_inv os (set_streams c s st) = tables_inv os st"
  "tables_inv os (st\<lparr>hs_server := x\<rparr>) = tables_inv os st"
  "tables_inv os (send_response r st) = tables_inv os st"
  by (simp_all add: tables_inv_def set_client_def set_streams_def send_response_def)

lemma tables_inv_log [simp]: "tables_inv os st \<Longrightarrow> tables_inv os (log_connection_summary env q r st)"
  by (simp add: tables_inv_def log_connection_summary_def add_failed_frame)

lemma tables_inv_reject [simp]: "tables_inv os st \<Longrightarrow> tables_inv os (reject env q r st)"
  by (simp add: reject_def)

lemma tables_inv_answer [simp]: "tables_inv os st \<Longrightarrow> tables_inv os (answer_client env q r s st)"
  by (simp add: answer_client_def Let_def)

lemma tables_inv_after_auth: "tables_inv os st \<Longrightarrow> tables_inv os (after_auth env q c entry st)"
  by (simp add: tables_inv_def after_auth_def Let_def authn.keeps_inv)

lemma forward_signed_inv: "forward_signed env q server st = Some st' \<Longrightarrow> tables_inv os st \<Longrightarrow> tables_inv os st'"
  by (auto simp: forward_signed_def Let_def split: option.splits sum.splits if_splits)

lemma with_signature_inv:
  assumes "handle_connection_with_signature env q server st = Some st'" and "tables_inv os st"
  shows "tables_inv os st'"
proof -
  obtain q1 st1 where run: "forward_signed env (sign_request env q1) server st1 = Some st'"
    and src: "st1 = st \<or> handle_expect_continue_request env q st = Some (q1, st1)"
    using assms(1) by (auto simp: handle_connection_with_signature_def split: option.splits if_splits)
  have "tables_inv os st1"
    using src assms(2) by (auto simp: handle_expect_continue_request_def Let_def split: sum.splits option.splits)
  with forward_signed_inv [OF run] show ?thesis .
qed

lemma without_signature_inv:
  "handle_connection_without_signature env q server st = Some st' \<Longrightarrow> tables_inv os st \<Longrightarrow> tables_inv os st'"
  by (auto simp: handle_connection_without_signature_def stream_request_body_def Let_def
        split: option.splits sum.splits if_splits)

lemma forward_connection_inv:
  assumes "forward_connection env q c entry st = Some st'" and "tables_inv os st"
  shows "tables_inv os st'"
  using assms tables_inv_after_auth [OF assms(2), of env q c entry]
  by (auto simp: forward_connection_cases split: if_splits sum.splits
        dest: with_signature_inv without_signature_inv)

text \<open>The path of an accepted request that is signed.\<close>

lemma handle_connection_signed:
  assumes "receive_request_data (client_stream st) = Some (Inr q, s)" and "px_peer_addr env = Inr (cip, port)"
    and "lookup_audit (px_aya env) port (px_redirector env) = Inr entry" and "c = conn_claims env cip entry st"
    and "px_claims_json env c \<noteq> None" and "conn_authenticated env (req_url q) entry c st"
    and "conn_host env entry = Inr server" and "\<not> need_skip_sig q"
    and "\<not> expect_continue_request (add_required_headers env c q)"
  shows "\<exists>st3. handle_connection env st = forward_signed env (sign_request env (add_required_headers env c q)) server st3"
  using assms handle_connection_received [OF assms(1,2)]
  by (auto simp: forward_connection_cases handle_connection_with_signature_def Let_def)

lemma host_contact:
  assumes "handle_connection env st = Some st'" and "hs_server st = None" and "hs_server st' = Some server'"
  shows "\<exists>q s cip port entry server q'.
    receive_request_data (client_stream st) = Some (Inr q, s) \<and> px_peer_addr env = Inr (cip, port)
    \<and> lookup_audit (px_aya env) port (px_redirector env) = Inr entry
    \<and> conn_authenticated env (req_url q) entry (conn_claims env cip entry st) st
    \<and> conn_host env entry = Inr server
    \<and> host_request env (conn_claims env cip entry st) q q' \<and> host_bytes q' server server'"
proof -
  obtain q s where recv: "receive_request_data (client_stream st) = Some (Inr q, s)"
    using assms by (auto simp: handle_connection_def split: option.splits prod.splits sum.splits)
  obtain cip port where peer: "px_peer_addr env = Inr (cip, port)"
    using assms recv by (cases "px_peer_addr env") (auto simp: handle_connection_def)
  have nref: "refusal env (req_url q) cip port st = None"
  proof (rule ccontr)
    assume "refusal env (req_url q) cip port st \<noteq> None"
    then obtain status where "refusal env (req_url q) cip port st = Some status"
      by blast
    from refused_rejects [OF recv peer this] assms show False
      by (metis not_None_eq option.inject reject_simps)
  qed
  then obtain entry where entry: "lookup_audit (px_aya env) port (px_redirector env) = Inr entry"
    by (auto simp: refusal_def split: sum.splits)
  let ?c = "conn_claims env cip entry st"
  let ?st2 = "(set_client s st)\<lparr>hs_users := snd (from_audit_entry (px_os env) entry cip (hs_users st))\<rparr>"
  from nref entry obtain server where ok: "px_claims_json env ?c \<noteq> None"
    "conn_authenticated env (req_url q) entry ?c st" "conn_host env entry = Inr server"
    by (auto simp: refusal_def Let_def split: sum.splits if_splits)
  from handle_connection_received [OF recv peer] entry ok(1) assms(1)
  have "forward_connection env q ?c entry ?st2 = Some st'"
    by simp
  with ok(2,3) obtain st3 where
    "(if need_skip_sig q then handle_connection_without_signature else handle_connection_with_signature)
       env (add_required_headers env ?c q) server st3 = Some st'"
    by (auto simp: forward_connection_cases)
  then have "\<exists>q'. host_request env ?c q q' \<and> host_bytes q' server server'"
    using with_signature_host [of env ?c q server st3 st'] host_request_skipped [of q env ?c]
      without_signature_host [of env "add_required_headers env ?c q" server st3 st'] assms(3)
    by (cases "need_skip_sig q") auto
  with recv peer entry ok show ?thesis by blast
qed

section \<open>Connection ids\<close>

text \<open>The id of the connection accepted as number \<open>i\<close>, counting from zero: ids go round from the largest number to 1.\<close>

definition conn_id :: "nat \<Rightarrow> u128" where
  "conn_id i = word_of_nat (i mod (2 ^ 128 - 1) + 1)"

definition conn_jobs :: "nat \<Rightarrow> (bool \<times> tcp_stream io_result) list \<Rightarrow> (u128 \<times> tcp_stream) list" where
  "conn_jobs k evs = concat (map (\<lambda>(i, ev). case snd ev of Inr s \<Rightarrow> [(conn_id i, s)] | Inl e \<Rightarrow> []) (enumerate k evs))"

lemma unat_conn_id: "unat (conn_id i) = i mod (2 ^ 128 - 1) + 1"
proof -
  have "i mod (2 ^ 128 - 1) < 2 ^ 128 - 1"
    by (rule mod_less_divisor) simp
  then have "(i mod (2 ^ 128 - 1) + 1) mod 2 ^ 128 = i mod (2 ^ 128 - 1) + 1"
    by (intro mod_less) simp
  then show ?thesis
    unfolding conn_id_def unat_of_nat by simp
qed

lemma conn_id_inj: "conn_id i = conn_id j \<longleftrightarrow> i mod (2 ^ 128 - 1) = j mod (2 ^ 128 - 1)"
  using unat_conn_id [of i] unat_conn_id [of j] by (metis add_right_cancel conn_id_def)

text \<open>The next id, as the code computes it.\<close>

lemma next_conn_id: "(if conn_id i = - 1 then 0 else conn_id i) + 1 = conn_id (Suc i)"
proof -
  let ?m = "2 ^ 128 - 1 :: nat"
  have max: "unat (- 1 :: u128) = ?m"
    by (simp add: unsigned_minus_1_eq_mask mask_eq_exp_minus_1)
  show ?thesis
  proof (cases "i mod ?m + 1 = ?m")
    case True
    then have "conn_id i = - 1"
      using unat_conn_id [of i] max by (metis unsigned_word_eqI)
    moreover have "Suc i mod ?m = 0"
      using True by (metis Suc_eq_plus1 mod_Suc)
    ultimately show ?thesis by (simp add: conn_id_def)
  next
    case False
    then have "conn_id i \<noteq> - 1"
      using unat_conn_id [of i] max by metis
    moreover have "Suc i mod ?m = Suc (i mod ?m)"
      using False by (metis Suc_eq_plus1 mod_Suc)
    ultimately show ?thesis by (simp add: conn_id_def)
  qed
qed

text \<open>A run that is not stopped.\<close>

lemma conn_jobs_snoc:
  "conn_jobs k (evs @ [ev]) = conn_jobs k evs @ (case snd ev of Inr s \<Rightarrow> [(conn_id (k + length evs), s)] | Inl e \<Rightarrow> [])"
  by (simp add: conn_jobs_def enumerate_append_eq)

lemma accept_step_go:
  assumes "\<not> listener_stopped s" and "\<not> fst ev"
    and "(if CONNECTION_COUNT s = - 1 then 0 else CONNECTION_COUNT s) + 1 = c"
  shows "accept_step ev s = (let s1 = s\<lparr>CONNECTION_COUNT := c\<rparr>
     in case snd ev of Inr x \<Rightarrow> s1\<lparr>executed := executed s @ [(c, x)]\<rparr> | Inl e \<Rightarrow> s1)"
  unfolding assms(3) [symmetric] using assms(1,2) by (simp add: accept_step_def Let_def split: sum.split)

lemma accept_run:
  assumes "\<forall>ev \<in> set evs. \<not> fst ev" and "\<not> listener_stopped st" and "CONNECTION_COUNT st = 0"
  shows "CONNECTION_COUNT (fold accept_step evs st) = (if evs = [] then 0 else conn_id (length evs - 1))
    \<and> executed (fold accept_step evs st) = executed st @ conn_jobs 0 evs
    \<and> \<not> listener_stopped (fold accept_step evs st)"
  using assms(1)
proof (induction evs rule: rev_induct)
  case Nil
  with assms show ?case by (simp add: conn_jobs_def)
next
  case (snoc ev evs)
  let ?s = "fold accept_step evs st"
  have "(if CONNECTION_COUNT ?s = - 1 then 0 else CONNECTION_COUNT ?s) + 1 = conn_id (length evs)"
  proof (cases "evs = []")
    case True
    with snoc show ?thesis by (simp add: conn_id_def)
  next
    case False
    then have "Suc (length evs - 1) = length evs"
      by (cases evs) simp_all
    moreover have "CONNECTION_COUNT ?s = conn_id (length evs - 1)"
      using snoc False by simp
    ultimately show ?thesis
      using next_conn_id [of "length evs - 1"] by presburger
  qed
  with snoc have "accept_step ev ?s = (let s1 = ?s\<lparr>CONNECTION_COUNT := conn_id (length evs)\<rparr>
      in case snd ev of Inr s \<Rightarrow> s1\<lparr>executed := executed ?s @ [(conn_id (length evs), s)]\<rparr> | Inl e \<Rightarrow> s1)"
    by (intro accept_step_go) simp_all
  with snoc show ?case
    by (simp add: conn_jobs_snoc Let_def split: sum.split)
qed

lemma accept_stopped: "listener_stopped st \<Longrightarrow> fold accept_step evs st = st"
  by (induction evs) (simp_all add: accept_step_def)

lemma accept_after_stop:
  assumes "\<not> listener_stopped st" and "fst ev"
  shows "executed (fold accept_step (ev # evs) st) = executed st
    \<and> CONNECTION_COUNT (fold accept_step (ev # evs) st) = CONNECTION_COUNT st"
  using assms by (simp add: accept_step_def accept_stopped)

section \<open>Properties\<close>

text \<open>C4: A request that arrives without a recorded audit entry, whose claims cannot be printed, that is not
  authenticated or whose host cannot be reached is refused: the handler returns, no stream to the host
  is opened, the client gets exactly the agent's answer with the status of the first of these reasons
  (421, 421, 403, 421), and exactly one summary is recorded, with that status.\<close>

theorem refused_connection:
  assumes "receive_request_data (client_stream st) = Some (Inr q, s)" and "px_peer_addr env = Inr (cip, port)"
    and "refusal env (req_url q) cip port st = Some status" and "writes_ok s"
  shows "\<exists>st'. handle_connection env st = Some st' \<and> hs_server st' = hs_server st
    \<and> tx (client_stream st') = tx s @ response_to_raw_string (agent_response status)
    \<and> SUMMARY_MAP (hs_status st') =
        add_to_summary_map (summary_of env q status (hs_connection st')) (SUMMARY_MAP (hs_status st))"
proof -
  obtain st1 where "handle_connection env st = Some (reject env q status st1)" "client_stream st1 = s"
    "hs_server st1 = hs_server st" "SUMMARY_MAP (hs_status st1) = SUMMARY_MAP (hs_status st)"
    using refused_rejects [OF assms(1-3)] by blast
  with reject_spec [where st = st1 and env = env and q = q and status = status] assms(4) show ?thesis
    by auto
qed

text \<open>C1: A stream to the host is opened only for a request that was received in full, for a source port
  with an audit entry, and that the authentication accepts with the claims of that entry, and it goes to
  the destination of the entry. The first bytes the host gets are a request with the client's method,
  URL and version in which the claims header and the date header are the agent's, whatever the client
  sent; when a key is in use and the request needs a signature, the authorization header carries the
  HMAC of the signing input of this very request under the key; in all other cases an authorization
  header of the client goes through.\<close>

theorem host_contact_justified:
  assumes "handle_connection env st = Some st'" and "hs_server st = None" and "hs_server st' = Some server'"
  shows "\<exists>q s cip port entry server q'.
    receive_request_data (client_stream st) = Some (Inr q, s) \<and> px_peer_addr env = Inr (cip, port)
    \<and> lookup_audit (px_aya env) port (px_redirector env) = Inr entry
    \<and> conn_authenticated env (req_url q) entry (conn_claims env cip entry st) st
    \<and> conn_host env entry = Inr server
    \<and> host_request env (conn_claims env cip entry st) q q' \<and> host_bytes q' server server'"
  using host_contact [OF assms] .

text \<open>When the content length of a request with Expect: 100-continue cannot be read, the client is told
  100 Continue and then 400 Bad Request, and the request is signed and forwarded to the host all the
  same.\<close>

theorem bad_expect_continue_forwarded:
  assumes "expect_continue_request q" and "get_content_length (req_headers q) = Inl e"
    and "writes_ok (client_stream st)"
  shows "\<exists>st1. handle_connection_with_signature env q server st = forward_signed env (sign_request env q) server st1
    \<and> tx (client_stream st1) = tx (client_stream st)
        @ response_to_raw_string (agent_response CONTINUE) @ response_to_raw_string (agent_response BAD_REQUEST)"
proof -
  let ?st = "send_response CONTINUE st"
  obtain s' where s': "snd (write_all (response_to_raw_string (agent_response CONTINUE)) (client_stream st)) = s'"
    "writes_ok s'" "tx s' = tx (client_stream st) @ response_to_raw_string (agent_response CONTINUE)"
    using write_all_same_out [OF assms(3)] by blast
  then have "client_stream ?st = s'"
    by (simp add: send_response_def)
  with s' reject_spec(2) [where st = ?st and env = env and q = q and status = BAD_REQUEST] assms(1,2) show ?thesis
    by (auto simp: handle_connection_with_signature_def handle_expect_continue_request_def)
qed

text \<open>A connection on which the properties above can be followed: a process asks for \<^verbatim>\<open>http://127.0.0.1\<close>.\<close>

definition example_entry :: "u32 \<Rightarrow> u32 \<Rightarrow> u32 \<Rightarrow> u32 list" where
  "example_entry admin ip port = [1, 2, admin, ip, port]"

definition example_redirector :: "u32 \<Rightarrow> u32 \<Rightarrow> u32 \<Rightarrow> redirector_state" where
  "example_redirector admin ip port = (redirector_state_new [])\<lparr>BPF_OBJECT := Some \<lparr>bpf_maps = [(''audit_map'',
      [([6, 4321], example_entry admin ip port)])]\<rparr>\<rparr>"

definition example_host :: tcp_stream where
  "example_host = \<lparr>rx = [Chunk (''HTTP/1.1 200 OK'' @ CRLF @ CRLF)], wr = [], tx = []\<rparr>"

definition example_proxy_env :: "u32 \<Rightarrow> u32 \<Rightarrow> u32 \<Rightarrow> (string \<times> (string \<times> string) list) proxy_env" where
  "example_proxy_env admin ip port = \<lparr>px_auth = example_env, px_rules = rule_state_new, px_crypto = example_crypto,
     px_os = \<lparr>os_process = Map.empty, os_user_by_uid = Map.empty, os_user_groups = Map.empty\<rparr>, px_aya = example_aya,
     px_redirector = example_redirector admin ip port, px_peer_addr = Inr (''10.0.0.4'', 4321),
     px_claims_json = Some \<circ> userName, px_connect = (\<lambda>_ _. Inr example_host), px_now = ''now'', px_elapsed = 1,
     px_key = ''ab'', px_key_guid = ''guid''\<rparr>"

definition example_conn :: handler_state where
  "example_conn = \<lparr>hs_connection = \<lparr>cn_stream = \<lparr>rx = [Chunk (''GET http://127.0.0.1 HTTP/1.1'' @ CRLF @ CRLF)], wr = [], tx = []\<rparr>,
     cn_id = 1, cn_claims = None, cn_ip = [], cn_port = 0\<rparr>, hs_server = None, hs_status = status_state_new, hs_users = []\<rparr>"

lemma example_digits:
  "show_nat 129 = ''129''" "show_nat 168 = ''168''" "show_nat 63 = ''63''" "show_nat 16 = ''16''"
  "show_nat 127 = ''127''" "show_nat 0 = ''0''" "show_nat 1 = ''1''" "show_nat (Suc 0) = ''1''"
  by code_simp+

lemma example_received:
  "receive_request_data (client_stream example_conn)
   = Some (Inr \<lparr>req_method = ''GET'', req_url = ''http://127.0.0.1'', req_version = ''HTTP/1.1'', req_headers = [], req_body = []\<rparr>,
       \<lparr>rx = [], wr = [], tx = []\<rparr>)"
proof -
  let ?s = "\<lparr>rx = [Chunk (''GET http://127.0.0.1 HTTP/1.1'' @ CRLF @ CRLF)], wr = [], tx = []\<rparr>"
  let ?r = "\<lparr>rbuf = CRLF, rstream = \<lparr>rx = [], wr = [], tx = []\<rparr>\<rparr>"
  have "read_line (buf_reader_new ?s) = (Inr (''GET http://127.0.0.1 HTTP/1.1'' @ CRLF), ?r)"
    and "from_first_line (''GET http://127.0.0.1 HTTP/1.1'' @ CRLF)
       = Inr \<lparr>req_method = ''GET'', req_url = ''http://127.0.0.1'', req_version = ''HTTP/1.1'', req_headers = [], req_body = []\<rparr>"
    and "read_header_lines ?r = (Inr CRLF, \<lparr>rbuf = [], rstream = \<lparr>rx = [], wr = [], tx = []\<rparr>\<rparr>)"
    and "headers_from_raw_data CRLF = []"
    by code_simp+
  then show ?thesis
    by (simp add: receive_request_data_def example_conn_def client_stream_def expect_continue_request_def
        has_expect_continue_def get_content_length_def receive_body_internal_def receive_body_loop.simps Let_def)
qed

lemma example_lookup:
  "lookup_audit example_aya 4321 (example_redirector admin ip port) = Inr (audit_entry_of_array (example_entry admin ip port))"
  by (simp add: lookup_audit_def example_redirector_def example_aya_def audit_key_to_array_def
        audit_key_from_source_port_def IPPROTO_TCP_def)

lemma example_refusal: "refusal (example_proxy_env 0 0x10813FA8 0x5000) ''http://127.0.0.1'' ''10.0.0.4'' 4321 example_conn = Some FORBIDDEN"
proof -
  have "ip_to_string 0x10813FA8 = WIRE_SERVER_IP" "ntohs 0x5000 = WIRE_SERVER_PORT"
    by (simp_all add: ip_to_string_def WIRE_SERVER_IP_def ntohs_def swap16_def WIRE_SERVER_PORT_def example_digits)
  then show ?thesis
    by (simp add: refusal_def example_proxy_env_def example_lookup Let_def conn_authenticated_def conn_claims_def
        audit_entry_of_array_def sock_addr_audit_entry_from_array_def example_entry_def from_audit_entry_def
        get_authenticate_def authenticate_defs case_prod_beta)
qed

theorem refused_connection_witness:
  "\<exists>st'. handle_connection (example_proxy_env 0 0x10813FA8 0x5000) example_conn = Some st' \<and> hs_server st' = None
    \<and> tx (client_stream st') = response_to_raw_string (agent_response FORBIDDEN)"
proof -
  let ?env = "example_proxy_env 0 0x10813FA8 0x5000"
  show ?thesis
    using example_refusal refused_connection [OF example_received, of ?env "''10.0.0.4''" 4321 FORBIDDEN]
    by (auto simp: example_proxy_env_def writes_ok_def example_conn_def)
qed

lemma example_answer:
  "read_response_without_body (buf_reader_new (example_host\<lparr>tx := t\<rparr>))
   = (Inr \<lparr>resp_version = ''HTTP/1.1'', resp_status = ''200 OK'', resp_headers = [], resp_body = []\<rparr>,
       \<lparr>rbuf = [], rstream = \<lparr>rx = [], wr = [], tx = t\<rparr>\<rparr>)"
  unfolding example_host_def by code_simp

lemma example_forwarded:
  "\<exists>st'. forward_signed env q example_host st = Some st'"
proof -
  let ?s1 = "snd (write_all (request_to_raw_string q) example_host)"
  have s1: "?s1 = example_host\<lparr>tx := request_to_raw_string q\<rparr>"
    by (simp add: write_all_def example_host_def)
  have "get_content_length (add_header AUTHORIZATION_HEADER ''value'' []) = Inr 0"
    by (simp add: get_content_length_def hm_get_add_header CONTENT_LENGTH_HEADER_NAME_def agent_defs to_lowercase_def
        ascii_lower_def)
  moreover have "\<not> is_continue_response \<lparr>resp_version = ''HTTP/1.1'', resp_status = ''200 OK'', resp_headers = h, resp_body = []\<rparr>" for h
    by (simp add: is_continue_response_def CONTINUE_def)
  ultimately have "\<exists>res. forward_response ?s1 c extra_response_headers = Some res
      \<and> (\<forall>resp n. fst res = Inr (resp, n) \<longrightarrow> \<not> is_continue_response resp)" for c
    unfolding forward_response_def s1 example_answer
    by (simp add: extra_response_headers_def stream_body_internal_def stream_body_loop.simps Let_def
        split: prod.split sum.split)
  then obtain res server' client' where "forward_response ?s1 (client_stream st) extra_response_headers = Some (res, server', client')"
    "\<forall>resp n. res = Inr (resp, n) \<longrightarrow> \<not> is_continue_response resp"
    by fastforce
  then show ?thesis
    by (cases res) (auto simp: forward_signed_def)
qed

text \<open>The example forwards whenever the destination authenticates.\<close>

lemma example_contact:
  assumes "conn_authenticated env ''http://127.0.0.1'' (audit_entry_of_array (example_entry admin ip port)) c example_conn"
    and c: "c = conn_claims env ''10.0.0.4'' (audit_entry_of_array (example_entry admin ip port)) example_conn"
    and env: "env = (example_proxy_env admin ip port)\<lparr>px_rules := rs, px_key := k, px_key_guid := g\<rparr>"
  obtains st' server' where "handle_connection env example_conn = Some st'" "hs_server st' = Some server'"
proof -
  let ?q = "\<lparr>req_method = ''GET'', req_url = ''http://127.0.0.1'', req_version = ''HTTP/1.1'', req_headers = [], req_body = []\<rparr>"
  have "to_lowercase EXPECT_HEADER_NAME \<notin> {CLAIMS_HEADER, DATE_HEADER}"
    by code_simp
  then have ns: "\<not> need_skip_sig ?q" and ne: "\<not> expect_continue_request (add_required_headers env c ?q)"
    by (auto simp: need_skip_sig_def to_uppercase_def ascii_upper_def expect_continue_request_def has_expect_continue_def
        add_required_headers_def hm_get_add_header)
  have "px_peer_addr env = Inr (''10.0.0.4'', 4321)" "px_claims_json env c \<noteq> None"
    "lookup_audit (px_aya env) 4321 (px_redirector env) = Inr (audit_entry_of_array (example_entry admin ip port))"
    "conn_host env (audit_entry_of_array (example_entry admin ip port)) = Inr example_host"
    by (simp_all add: env example_proxy_env_def conn_host_def example_lookup)
  then obtain st3 where run: "handle_connection env example_conn
      = forward_signed env (sign_request env (add_required_headers env c ?q)) example_host st3"
    using handle_connection_signed [OF example_received _ _ c] assms(1) ns ne by fastforce
  then show ?thesis
    using example_forwarded forward_signed_host that by metis
qed

theorem host_contact_justified_witness:
  "\<exists>server' q' st'. handle_connection (example_proxy_env 0 0x100007F 0x901F) example_conn = Some st'
    \<and> hs_server st' = Some server' \<and> prefix (request_to_raw_string q') (tx server')
    \<and> hm_get (req_headers q') CLAIMS_HEADER = Some (CLAIMS_HEADER, host_claims False)
    \<and> hm_get (req_headers q') AUTHORIZATION_HEADER = Some (AUTHORIZATION_HEADER,
         authorization_value ''guid'' (''ab'' @ as_sig_input example_urls q'))"
proof -
  let ?env = "example_proxy_env 0 0x100007F 0x901F"
  let ?e = "audit_entry_of_array (example_entry 0 0x100007F 0x901F)"
  let ?q = "\<lparr>req_method = ''GET'', req_url = ''http://127.0.0.1'', req_version = ''HTTP/1.1'', req_headers = [], req_body = []\<rparr>"
  have dst: "ip_to_string 0x100007F = PROXY_AGENT_IP" "ntohs 0x901F = 8080"
    by (simp_all add: ip_to_string_def PROXY_AGENT_IP_def ntohs_def swap16_def example_digits)
  have auth: "conn_authenticated ?env u ?e c st" for u c st
    using dst by (simp add: conn_authenticated_def get_authenticate_def authenticate_def audit_entry_of_array_def
        sock_addr_audit_entry_from_array_def example_entry_def agent_defs)
  obtain st' server' where run: "handle_connection ?env example_conn = Some st'" and server': "hs_server st' = Some server'"
    by (rule example_contact [where env = ?env and rs = rule_state_new and k = "''ab''" and g = "''guid''", OF auth refl])
       (simp add: example_proxy_env_def)
  have "hs_server example_conn = None"
    by (simp add: example_conn_def)
  from host_contact_justified [OF run this server'] obtain q s cip port entry server q' where
    h: "receive_request_data (client_stream example_conn) = Some (Inr q, s)" "px_peer_addr ?env = Inr (cip, port)"
      "lookup_audit (px_aya ?env) port (px_redirector ?env) = Inr entry" "conn_host ?env entry = Inr server"
      "host_request ?env (conn_claims ?env cip entry example_conn) q q'" "host_bytes q' server server'"
    by blast
  from h(1-4) have eq: "q = ?q" "cip = ''10.0.0.4''" "entry = ?e" "server = example_host"
    by (auto simp: example_received example_proxy_env_def example_lookup conn_host_def)
  have "runAsElevated (conn_claims ?env cip entry example_conn) = False"
    by (simp add: eq conn_claims_def from_audit_entry_def case_prod_beta audit_entry_of_array_def
        sock_addr_audit_entry_from_array_def example_entry_def Let_def)
  moreover have "\<not> need_skip_sig ?q"
    by (simp add: need_skip_sig_def to_uppercase_def ascii_upper_def)
  ultimately show ?thesis
    using h(5,6) run server'
    by (simp add: host_request_def host_bytes_def eq example_host_def writes_ok_def)
       (simp add: example_proxy_env_def example_crypto_def example_env_def, blast)
qed

theorem bad_expect_continue_forwarded_witness:
  "\<exists>st1. handle_connection_with_signature (example_proxy_env 0 0 0)
       \<lparr>req_method = ''PUT'', req_url = ''/'', req_version = ''HTTP/1.1'',
        req_headers = [(''expect'', (''Expect'', EXPECT_HEADER_VALUE)), (''content-length'', (''Content-Length'', ''x''))], req_body = []\<rparr>
       example_host example_conn
     = forward_signed (example_proxy_env 0 0 0) (sign_request (example_proxy_env 0 0 0)
         \<lparr>req_method = ''PUT'', req_url = ''/'', req_version = ''HTTP/1.1'',
          req_headers = [(''expect'', (''Expect'', EXPECT_HEADER_VALUE)), (''content-length'', (''Content-Length'', ''x''))],
          req_body = []\<rparr>) example_host st1"
proof -
  let ?q = "\<lparr>req_method = ''PUT'', req_url = ''/'', req_version = ''HTTP/1.1'',
      req_headers = [(''expect'', (''Expect'', EXPECT_HEADER_VALUE)), (''content-length'', (''Content-Length'', ''x''))], req_body = []\<rparr>"
  have "to_lowercase EXPECT_HEADER_NAME = ''expect''" "to_lowercase CONTENT_LENGTH_HEADER_NAME = ''content-length''"
    by code_simp+
  then have "expect_continue_request ?q" "get_content_length (req_headers ?q) = Inl InvalidData"
    by (simp_all add: expect_continue_request_def has_expect_continue_def get_content_length_def
        parse_uint_def digit_val_def)
  from bad_expect_continue_forwarded [OF this] show ?thesis
    by (force simp: example_conn_def client_stream_def writes_ok_def)
qed

text \<open>C35: The listener hands every stream accepted before the first stop signal to the pool, in order and with
  the id of its position; ids run from 1 to the largest 128-bit number and start again at 1, so they are
  never 0 and two connections share an id only when they are a multiple of 2^128 - 1 connections apart;
  nothing is handed over after the stop signal.\<close>

theorem connection_ids:
  "executed (listener_start f (Inr ()) evs listener_state_new) = conn_jobs 0 (takeWhile (Not \<circ> fst) evs)
   \<and> unat (conn_id i) = i mod (2 ^ 128 - 1) + 1
   \<and> (conn_id i = conn_id j \<longleftrightarrow> i mod (2 ^ 128 - 1) = j mod (2 ^ 128 - 1))"
proof (intro conjI)
  let ?st = "listener_state_new\<lparr>LISTENER_STATUS_MESSAGE := f ''Started proxy listener, ready to accept request'',
      listener_started_calls := Suc (listener_started_calls listener_state_new)\<rparr>"
  have st: "\<not> listener_stopped ?st" "CONNECTION_COUNT ?st = 0" "executed ?st = []"
    by (simp_all add: listener_state_new_def)
  have "\<forall>ev \<in> set (takeWhile (Not \<circ> fst) evs). \<not> fst ev"
    by (auto dest: set_takeWhileD)
  note run = accept_run [OF this st(1,2)]
  have "executed (fold accept_step evs ?st) = conn_jobs 0 (takeWhile (Not \<circ> fst) evs)"
  proof (cases "dropWhile (Not \<circ> fst) evs")
    case Nil
    then have "evs = takeWhile (Not \<circ> fst) evs"
      by (metis append_Nil2 takeWhile_dropWhile_id)
    with run st(3) show ?thesis by simp
  next
    case (Cons ev rest)
    then have "evs = takeWhile (Not \<circ> fst) evs @ ev # rest" and "fst ev"
      using hd_dropWhile [of "Not \<circ> fst" evs] by (metis takeWhile_dropWhile_id, simp)
    then have "fold accept_step evs ?st = fold accept_step (ev # rest) (fold accept_step (takeWhile (Not \<circ> fst) evs) ?st)"
      by (metis fold_append comp_apply)
    with run st(3) accept_after_stop [OF _ \<open>fst ev\<close>] show ?thesis
      by simp
  qed
  then show "executed (listener_start f (Inr ()) evs listener_state_new) = conn_jobs 0 (takeWhile (Not \<circ> fst) evs)"
    by (simp add: listener_start_def)
qed (rule unat_conn_id, rule conn_id_inj)



end
