(* ===== verification/Proxy_Pool.thy ===== *)
theory Proxy_Pool
  imports Prelude
begin

text \<open>
  \<^verbatim>\<open>proxy_agent/src/proxy/proxy_pool.rs\<close>: the worker threads that run the connection handlers. The
  threads interleave freely, so the pool is a step relation. The channel is a queue: \<^verbatim>\<open>recv\<close> takes its
  head and fails only when the queue is empty and the sender is gone; \<^verbatim>\<open>send\<close> fails, and the job is
  lost, when every worker and with them the receiver is gone.
\<close>

section \<open>State and steps\<close>

datatype 'j worker = Idle | Busy 'j | Exited

record 'j proxy_pool =
  pp_workers :: "'j worker list"
  pp_queue :: "'j list"
  pp_sender :: bool
  pp_submitted :: "'j list"
  pp_started :: "'j list"
  pp_finished :: "'j list"
  pp_panicked :: "'j list"

text \<open>\<^verbatim>\<open>ProxyPool::new\<close>: a pool of size zero fails the assertion.\<close>

definition pool_new :: "nat \<Rightarrow> 'j proxy_pool option" where
  "pool_new n =
     (if n > 0
      then Some \<lparr>pp_workers = replicate n Idle, pp_queue = [], pp_sender = True, pp_submitted = [], pp_started = [],
             pp_finished = [], pp_panicked = []\<rparr>
      else None)"

definition pool_execute :: "'j \<Rightarrow> 'j proxy_pool \<Rightarrow> 'j proxy_pool" where
  "pool_execute j p =
     (if \<forall>w \<in> set (pp_workers p). w = Exited then p
      else p\<lparr>pp_queue := pp_queue p @ [j], pp_submitted := pp_submitted p @ [j]\<rparr>)"

text \<open>
  The steps: \<^verbatim>\<open>execute\<close> by the listener; a worker receives a job, runs it to its end, or dies in it; a
  worker finds the channel disconnected and leaves its loop; the pool is dropped.
\<close>

inductive pool_step :: "'j proxy_pool \<Rightarrow> 'j proxy_pool \<Rightarrow> bool" where
  execute: "pp_sender p \<Longrightarrow> pool_step p (pool_execute j p)"
| receive: "i < length (pp_workers p) \<Longrightarrow> pp_workers p ! i = Idle \<Longrightarrow> pp_queue p = j # js \<Longrightarrow>
    pool_step p (p\<lparr>pp_workers := (pp_workers p)[i := Busy j], pp_queue := js, pp_started := pp_started p @ [j]\<rparr>)"
| finish: "i < length (pp_workers p) \<Longrightarrow> pp_workers p ! i = Busy j \<Longrightarrow>
    pool_step p (p\<lparr>pp_workers := (pp_workers p)[i := Idle], pp_finished := pp_finished p @ [j]\<rparr>)"
| panic: "i < length (pp_workers p) \<Longrightarrow> pp_workers p ! i = Busy j \<Longrightarrow>
    pool_step p (p\<lparr>pp_workers := (pp_workers p)[i := Exited], pp_panicked := pp_panicked p @ [j]\<rparr>)"
| disconnect: "i < length (pp_workers p) \<Longrightarrow> pp_workers p ! i = Idle \<Longrightarrow> pp_queue p = [] \<Longrightarrow> \<not> pp_sender p \<Longrightarrow>
    pool_step p (p\<lparr>pp_workers := (pp_workers p)[i := Exited]\<rparr>)"
| drop: "pp_sender p \<Longrightarrow> pool_step p (p\<lparr>pp_sender := False\<rparr>)"

inductive_cases pool_stepE: "pool_step p q"

inductive pool_reachable :: "nat \<Rightarrow> 'j proxy_pool \<Rightarrow> bool" for n where
  init: "pool_new n = Some p \<Longrightarrow> pool_reachable n p"
| step: "pool_reachable n p \<Longrightarrow> pool_step p q \<Longrightarrow> pool_reachable n q"

section \<open>Invariant\<close>

definition running :: "'j proxy_pool \<Rightarrow> 'j list" where
  "running p = concat (map (\<lambda>w. case w of Busy j \<Rightarrow> [j] | _ \<Rightarrow> []) (pp_workers p))"

definition pool_inv :: "nat \<Rightarrow> 'j proxy_pool \<Rightarrow> bool" where
  "pool_inv n p \<longleftrightarrow>
     length (pp_workers p) = n \<and> pp_started p @ pp_queue p = pp_submitted p
     \<and> mset (pp_started p) = mset (running p) + mset (pp_finished p) + mset (pp_panicked p)
     \<and> (Exited \<in> set (pp_workers p) \<longrightarrow> pp_panicked p \<noteq> [] \<or> (\<not> pp_sender p \<and> pp_queue p = []))"

lemma mset_concat_update:
  "i < length ws \<Longrightarrow> mset (concat (map f (ws[i := w]))) + mset (f (ws ! i)) = mset (concat (map f ws)) + mset (f w)"
  by (induction ws arbitrary: i) (auto split: nat.splits simp: nth_Cons')

lemma mset_running_update:
  assumes "i < length (pp_workers p)"
  shows "mset (running (p\<lparr>pp_workers := (pp_workers p)[i := w]\<rparr>)) + mset (case pp_workers p ! i of Busy j \<Rightarrow> [j] | _ \<Rightarrow> [])
    = mset (running p) + mset (case w of Busy j \<Rightarrow> [j] | _ \<Rightarrow> [])"
  using mset_concat_update [OF assms] by (simp add: running_def)

lemma running_frame [simp]:
  "running (p\<lparr>pp_queue := q\<rparr>) = running p" "running (p\<lparr>pp_submitted := s\<rparr>) = running p"
  "running (p\<lparr>pp_started := s\<rparr>) = running p" "running (p\<lparr>pp_finished := s\<rparr>) = running p"
  "running (p\<lparr>pp_panicked := s\<rparr>) = running p" "running (p\<lparr>pp_sender := b\<rparr>) = running p"
  by (simp_all add: running_def)

lemma pool_inv_new: "pool_new n = Some p \<Longrightarrow> pool_inv n p"
  by (auto simp: pool_new_def pool_inv_def running_def split: if_splits)

lemma pool_inv_execute:
  assumes inv: "pool_inv n p" and "pp_sender p"
  shows "pool_inv n (pool_execute j p)"
  using assms by (auto simp: pool_inv_def pool_execute_def)

lemma Exited_update: "Exited \<in> set (ws[i := w]) \<Longrightarrow> w \<noteq> Exited \<Longrightarrow> Exited \<in> set ws"
  using set_update_subset_insert [of ws i w] by blast

lemma pool_inv_step:
  assumes "pool_step p q" and inv: "pool_inv n p"
  shows "pool_inv n q"
  using assms(1)
proof cases
  case (execute j)
  with inv show ?thesis by (simp add: pool_inv_execute)
next
  case (receive i j js)
  have "mset (running (p\<lparr>pp_workers := (pp_workers p)[i := Busy j]\<rparr>)) = add_mset j (mset (running p))"
    using mset_running_update [of i p "Busy j"] receive by simp
  with inv receive show ?thesis
    by (auto simp: pool_inv_def dest: Exited_update)
next
  case (finish i j)
  have "add_mset j (mset (running (p\<lparr>pp_workers := (pp_workers p)[i := Idle]\<rparr>))) = mset (running p)"
    using mset_running_update [of i p Idle] finish by simp
  with inv finish show ?thesis
    by (auto simp: pool_inv_def dest: Exited_update)
next
  case (panic i j)
  have "add_mset j (mset (running (p\<lparr>pp_workers := (pp_workers p)[i := Exited]\<rparr>))) = mset (running p)"
    using mset_running_update [of i p Exited] panic by simp
  with inv panic show ?thesis
    by (auto simp: pool_inv_def)
next
  case (disconnect i)
  have "mset (running (p\<lparr>pp_workers := (pp_workers p)[i := Exited]\<rparr>)) = mset (running p)"
    using mset_running_update [of i p Exited] disconnect by simp
  with inv disconnect show ?thesis
    by (auto simp: pool_inv_def)
next
  case drop
  with inv show ?thesis by (auto simp: pool_inv_def)
qed

lemma pool_reachable_inv: "pool_reachable n p \<Longrightarrow> pool_inv n p"
  by (induction rule: pool_reachable.induct) (auto intro: pool_inv_new pool_inv_step)

lemma pool_reachable_size: "pool_reachable n p \<Longrightarrow> 0 < n"
  by (induction rule: pool_reachable.induct) (auto simp: pool_new_def split: if_splits)

text \<open>With all workers gone and none of them lost to a panic, nothing is running and nothing is queued.\<close>

lemma running_exited: "set (pp_workers p) \<subseteq> {Exited} \<Longrightarrow> running p = []"
  by (auto simp: running_def)

lemma length_busy: "length (concat (map (\<lambda>w. case w of Busy j \<Rightarrow> [j] | _ \<Rightarrow> []) ws)) \<le> length ws"
  by (induction ws) (auto split: worker.splits)

text \<open>What is left to do: each step of a dropped pool uses some of it up.\<close>

definition pool_work :: "'j proxy_pool \<Rightarrow> nat" where
  "pool_work p = 2 * length (pp_queue p) + length (running p) + length (filter (\<lambda>w. w \<noteq> Exited) (pp_workers p))"

lemma filter_update:
  "i < length ws \<Longrightarrow> length (filter P (ws[i := w])) + (if P (ws ! i) then 1 else 0)
     = length (filter P ws) + (if P w then 1 else 0)"
proof (induction ws arbitrary: i)
  case (Cons a ws)
  show ?case
  proof (cases i)
    case (Suc k)
    with Cons.prems Cons.IH [of k] show ?thesis by simp
  qed simp
qed simp

lemma length_running_update:
  assumes "i < length (pp_workers p)"
  shows "length (running (p\<lparr>pp_workers := (pp_workers p)[i := w]\<rparr>)) + length (case pp_workers p ! i of Busy j \<Rightarrow> [j] | _ \<Rightarrow> [])
    = length (running p) + length (case w of Busy j \<Rightarrow> [j] | _ \<Rightarrow> [])"
  using arg_cong [OF mset_running_update [OF assms, of w], of size] by simp

lemma pool_work_step:
  assumes "pool_step p q" and "\<not> pp_sender p"
  shows "pool_work q < pool_work p \<and> \<not> pp_sender q"
  using assms(1)
proof cases
  case (receive i j js)
  with assms(2) length_running_update [of i p "Busy j"] filter_update [of i "pp_workers p" "\<lambda>w. w \<noteq> Exited" "Busy j"]
  show ?thesis by (simp add: pool_work_def)
next
  case (finish i j)
  with assms(2) length_running_update [of i p Idle] filter_update [of i "pp_workers p" "\<lambda>w. w \<noteq> Exited" Idle]
  show ?thesis by (simp add: pool_work_def)
next
  case (panic i j)
  with assms(2) length_running_update [of i p Exited] filter_update [of i "pp_workers p" "\<lambda>w. w \<noteq> Exited" Exited]
  show ?thesis by (simp add: pool_work_def)
next
  case (disconnect i)
  with assms(2) length_running_update [of i p Exited] filter_update [of i "pp_workers p" "\<lambda>w. w \<noteq> Exited" Exited]
  show ?thesis by (simp add: pool_work_def)
qed (use assms(2) in simp_all)

lemma pool_not_stuck:
  assumes "w \<in> set (pp_workers p)" and "w \<noteq> Exited" and "\<not> pp_sender p"
  shows "\<exists>q. pool_step p q"
proof -
  from assms(1) obtain i where i: "i < length (pp_workers p)" "pp_workers p ! i = w"
    by (auto simp: in_set_conv_nth)
  show ?thesis
  proof (cases w)
    case Idle
    with i assms(3) show ?thesis
      by (cases "pp_queue p") (blast intro: pool_step.receive pool_step.disconnect)+
  next
    case (Busy j)
    with i show ?thesis by (blast intro: pool_step.finish)
  qed (use assms(2) in simp)
qed

section \<open>Properties\<close>


definition example_pool :: "string proxy_pool" where
  "example_pool = \<lparr>pp_workers = [Exited], pp_queue = [], pp_sender = False, pp_submitted = [''job''],
     pp_started = [''job''], pp_finished = [''job''], pp_panicked = []\<rparr>"

lemma example_pool_reachable: "pool_reachable 1 example_pool"
proof -
  let ?p0 = "\<lparr>pp_workers = [Idle], pp_queue = [], pp_sender = True, pp_submitted = [], pp_started = [],
      pp_finished = [], pp_panicked = []\<rparr> :: string proxy_pool"
  have "pool_reachable 1 ?p0"
    by (rule pool_reachable.init) (simp add: pool_new_def)
  from pool_reachable.step [OF this pool_step.execute [of ?p0 "''job''"]]
  have "pool_reachable 1 (?p0\<lparr>pp_queue := [''job''], pp_submitted := [''job'']\<rparr>)" (is "pool_reachable 1 ?p1")
    by (simp add: pool_execute_def)
  from pool_reachable.step [OF this pool_step.receive [of 0 ?p1]]
  have "pool_reachable 1 (?p1\<lparr>pp_workers := [Busy ''job''], pp_queue := [], pp_started := [''job'']\<rparr>)" (is "pool_reachable 1 ?p2")
    by simp
  from pool_reachable.step [OF this pool_step.finish [of 0 ?p2]]
  have "pool_reachable 1 (?p2\<lparr>pp_workers := [Idle], pp_finished := [''job'']\<rparr>)" (is "pool_reachable 1 ?p3")
    by simp
  from pool_reachable.step [OF this pool_step.drop [of ?p3]]
  have "pool_reachable 1 (?p3\<lparr>pp_sender := False\<rparr>)" (is "pool_reachable 1 ?p4")
    by simp
  from pool_reachable.step [OF this pool_step.disconnect [of 0 ?p4]]
  show ?thesis by (simp add: example_pool_def)
qed




end
