(* ===== verification/Rolling_Logger.thy ===== *)
theory Rolling_Logger
  imports Rust_Path
begin

text \<open>
  \<^verbatim>\<open>proxy_agent_shared/src/rolling_logger.rs\<close>: the log files. All paths are inside the log directory, so
  a path is represented by its file name. The directory maps a name to the content of a file, or to
  \<^const>\<open>None\<close> for a directory. Every call of the file system consumes one entry of a list that says
  whether it fails; of a failing write nothing reaches the file.
\<close>

section \<open>The log directory\<close>

record log_fs =
  lf_files :: "(string, string option) hmap"
  lf_faults :: "error_kind option list"

definition next_fault :: "log_fs \<Rightarrow> error_kind option \<times> log_fs" where
  "next_fault fs = (case lf_faults fs of [] \<Rightarrow> (None, fs) | f # r \<Rightarrow> (f, fs\<lparr>lf_faults := r\<rparr>))"

text \<open>Opening, renaming over or removing a directory as a file fails with this error.\<close>

definition IS_DIR :: error_kind where "IS_DIR = OsError 21"

section \<open>The logger\<close>

record rolling_logger =
  log_file_name :: string
  log_file_extension :: string
  max_log_file_size :: u64
  max_log_file_count :: u16
  initialized :: bool
  log_writer :: "string option"

text \<open>\<^verbatim>\<open>PathBuf::set_extension\<close> on a file name.\<close>

definition with_extension :: "string \<Rightarrow> string \<Rightarrow> string" where
  "with_extension ext f = file_stem f @ ''.'' @ ext"

definition dots_for_colons :: "string \<Rightarrow> string" where
  "dots_for_colons t = map (\<lambda>c. if c = CHR '':'' then CHR ''.'' else c) t"

definition get_current_file_full_path :: "rolling_logger \<Rightarrow> string option \<Rightarrow> string" where
  "get_current_file_full_path L timestamp =
     with_extension (log_file_extension L)
       (log_file_name L @ (case timestamp of Some time \<Rightarrow> ''.'' @ dots_for_colons time @ ''.log'' | None \<Rightarrow> []))"

definition open_file :: "rolling_logger \<Rightarrow> log_fs \<Rightarrow> unit io_result \<times> rolling_logger \<times> log_fs" where
  "open_file L fs =
     (case next_fault fs of
        (Some e, fs) \<Rightarrow> (Inl e, L, fs)
      | (None, fs) \<Rightarrow>
          (let f = get_current_file_full_path L None
           in case next_fault fs of
                (Some e, fs) \<Rightarrow> (Inl e, L, fs)
              | (None, fs) \<Rightarrow>
                  (case hm_get (lf_files fs) f of
                     Some None \<Rightarrow> (Inl IS_DIR, L, fs)
                   | Some (Some c) \<Rightarrow> (Inr (), L\<lparr>log_writer := Some f\<rparr>, fs)
                   | None \<Rightarrow> (Inr (), L\<lparr>log_writer := Some f\<rparr>, fs\<lparr>lf_files := hm_insert f (Some []) (lf_files fs)\<rparr>))))"

definition logger_file_init :: "rolling_logger \<Rightarrow> log_fs \<Rightarrow> unit io_result \<times> rolling_logger \<times> log_fs" where
  "logger_file_init L fs =
     (if initialized L then (Inr (), L, fs)
      else (case open_file L fs of
              (Inl e, L', fs') \<Rightarrow> (Inl e, L', fs')
            | (Inr _, L', fs') \<Rightarrow> (Inr (), L'\<lparr>initialized := True\<rparr>, fs')))"

text \<open>\<^const>\<open>None\<close>: the \<^verbatim>\<open>unwrap\<close> of the initialisation panics.\<close>

definition create_new :: "string \<Rightarrow> u64 \<Rightarrow> u16 \<Rightarrow> log_fs \<Rightarrow> (rolling_logger \<times> log_fs) option" where
  "create_new file_name log_size log_count fs =
     (case logger_file_init \<lparr>log_file_name = file_name, log_file_extension = ''log'', max_log_file_size = log_size,
             max_log_file_count = log_count, initialized = False, log_writer = None\<rparr> fs of
        (Inr _, L, fs') \<Rightarrow> Some (L, fs')
      | (Inl e, L, fs') \<Rightarrow> None)"

text \<open>
  The condition of \<^verbatim>\<open>get_log_files\<close> as it is written: an entry is skipped when it is not a file and its
  last component is the extension itself (\<^verbatim>\<open>Path::ends_with\<close> compares whole components).
\<close>

definition is_log_entry :: "rolling_logger \<Rightarrow> string \<times> string option \<Rightarrow> bool" where
  "is_log_entry L e \<longleftrightarrow> \<not> (snd e = None \<and> fst e = log_file_extension L) \<and> starts_with (fst e) (log_file_name L)"

definition log_names :: "rolling_logger \<Rightarrow> (string, string option) hmap \<Rightarrow> string list" where
  "log_names L files = sort (map fst (filter (is_log_entry L) files))"

definition get_log_files :: "rolling_logger \<Rightarrow> log_fs \<Rightarrow> string list io_result \<times> log_fs" where
  "get_log_files L fs =
     (case next_fault fs of
        (Some e, fs) \<Rightarrow> (Inl e, fs)
      | (None, fs) \<Rightarrow> (Inr (log_names L (lf_files fs)), fs))"

definition remove_file :: "string \<Rightarrow> log_fs \<Rightarrow> unit io_result \<times> log_fs" where
  "remove_file f fs =
     (case next_fault fs of
        (Some e, fs) \<Rightarrow> (Inl e, fs)
      | (None, fs) \<Rightarrow>
          (case hm_get (lf_files fs) f of
             None \<Rightarrow> (Inl NotFound, fs)
           | Some None \<Rightarrow> (Inl IS_DIR, fs)
           | Some (Some _) \<Rightarrow> (Inr (), fs\<lparr>lf_files := AList.delete f (lf_files fs)\<rparr>)))"

fun remove_oldest :: "nat \<Rightarrow> nat \<Rightarrow> string list \<Rightarrow> log_fs \<Rightarrow> unit io_result \<times> log_fs" where
  "remove_oldest file_count cnt [] fs = (Inr (), fs)"
| "remove_oldest file_count cnt (log # logs) fs =
     (case remove_file log fs of
        (Inl e, fs') \<Rightarrow> (Inl e, fs')
      | (Inr _, fs') \<Rightarrow> if file_count < cnt + 1 then (Inr (), fs') else remove_oldest file_count (cnt + 1) logs fs')"

text \<open>The open writer follows the renamed file.\<close>

definition rename_current :: "string \<Rightarrow> rolling_logger \<Rightarrow> log_fs \<Rightarrow> unit io_result \<times> rolling_logger \<times> log_fs" where
  "rename_current new_file_name L fs =
     (let current_name = get_current_file_full_path L None
      in case next_fault fs of
           (Some e, fs) \<Rightarrow> (Inl e, L, fs)
         | (None, fs) \<Rightarrow>
             (case (hm_get (lf_files fs) current_name, hm_get (lf_files fs) new_file_name) of
                (None, _) \<Rightarrow> (Inl NotFound, L, fs)
              | (_, Some None) \<Rightarrow> (Inl IS_DIR, L, fs)
              | (Some n, _) \<Rightarrow>
                  (Inr (), L\<lparr>log_writer := (if log_writer L = Some current_name then Some new_file_name else log_writer L)\<rparr>,
                   fs\<lparr>lf_files := hm_insert new_file_name n (AList.delete current_name (lf_files fs))\<rparr>)))"

definition archive_file :: "string \<Rightarrow> rolling_logger \<Rightarrow> log_fs \<Rightarrow> unit io_result \<times> rolling_logger \<times> log_fs" where
  "archive_file time L fs =
     (case rename_current (get_current_file_full_path L (Some time)) L fs of
        (Inl e, L, fs) \<Rightarrow> (Inl e, L, fs)
      | (Inr _, L, fs) \<Rightarrow>
          (case get_log_files L fs of
             (Inl e, fs) \<Rightarrow> (Inl e, L, fs)
           | (Inr log_files, fs) \<Rightarrow>
               (let max_count = unat (max_log_file_count L); file_count = length log_files
                in if max_count \<le> file_count
                   then (case remove_oldest file_count max_count log_files fs of (r, fs) \<Rightarrow> (r, L, fs))
                   else (Inr (), L, fs))))"

definition roll_if_needed :: "string \<Rightarrow> rolling_logger \<Rightarrow> log_fs \<Rightarrow> unit io_result \<times> rolling_logger \<times> log_fs" where
  "roll_if_needed time L fs =
     (case logger_file_init L fs of
        (Inl e, L, fs) \<Rightarrow> (Inl e, L, fs)
      | (Inr _, L, fs) \<Rightarrow>
          (case next_fault fs of
             (Some e, fs) \<Rightarrow> (Inl e, L, fs)
           | (None, fs) \<Rightarrow>
               (case hm_get (lf_files fs) (get_current_file_full_path L None) of
                  None \<Rightarrow> (Inl NotFound, L, fs)
                | Some n \<Rightarrow>
                    (let file_length = (case n of Some c \<Rightarrow> length c | None \<Rightarrow> 0)
                     in if unat (max_log_file_size L) \<le> file_length
                        then (case archive_file time L fs of
                                (Inl e, L, fs) \<Rightarrow> (Inl e, L, fs)
                              | (Inr _, L, fs) \<Rightarrow> open_file L fs)
                        else (Inr (), L, fs)))))"

definition append_to :: "string \<Rightarrow> string \<Rightarrow> log_fs \<Rightarrow> log_fs" where
  "append_to f data fs =
     (case hm_get (lf_files fs) f of
        Some (Some c) \<Rightarrow> fs\<lparr>lf_files := hm_insert f (Some (c @ data)) (lf_files fs)\<rparr>
      | _ \<Rightarrow> fs)"

text \<open>
  \<^verbatim>\<open>write_line\<close>; the outer \<^const>\<open>None\<close> is the panic of \<^verbatim>\<open>unwrap\<close> on a missing writer.
\<close>

definition write_line :: "string \<Rightarrow> string \<Rightarrow> rolling_logger \<Rightarrow> log_fs \<Rightarrow> unit io_result option \<times> rolling_logger \<times> log_fs" where
  "write_line time message L fs =
     (case roll_if_needed time L fs of
        (Inl e, L, fs) \<Rightarrow> (Some (Inl e), L, fs)
      | (Inr _, L, fs) \<Rightarrow>
          (case log_writer L of
             None \<Rightarrow> (None, L, fs)
           | Some f \<Rightarrow>
               (case next_fault fs of
                  (Some e, fs) \<Rightarrow> (Some (Inl e), L, fs)
                | (None, fs) \<Rightarrow>
                    (case next_fault (append_to f message fs) of
                       (Some e, fs) \<Rightarrow> (Some (Inl e), L, fs)
                     | (None, fs) \<Rightarrow> (Some (Inr ()), L, append_to f LF fs)))))"

definition get_log_header :: "string \<Rightarrow> string \<Rightarrow> string \<Rightarrow> string" where
  "get_log_header thread_id now severity = thread_id @ '' '' @ now @ '' '' @ severity"

definition VERB :: string where "VERB = ''[VERB]    ''"
definition INFO :: string where "INFO = ''[INFO]    ''"
definition WARN :: string where "WARN = ''[WARN]    ''"
definition ERR :: string where "ERR = ''[ERROR]   ''"

text \<open>\<^verbatim>\<open>write\<close>, \<^verbatim>\<open>write_information\<close>, \<^verbatim>\<open>write_warning\<close> and \<^verbatim>\<open>write_error\<close>: the severity differs.\<close>

definition log_write ::
    "string \<Rightarrow> string \<Rightarrow> string \<Rightarrow> string \<Rightarrow> string \<Rightarrow> rolling_logger \<Rightarrow> log_fs \<Rightarrow> unit io_result option \<times> rolling_logger \<times> log_fs" where
  "log_write severity thread_id now time message L fs =
     write_line time (get_log_header thread_id now severity @ message) L fs"

section \<open>The logger manager\<close>

text \<open>
  \<^verbatim>\<open>logger_manager.rs\<close>: the loggers by key with their folder, the first key, and the folders. The mutexes
  serialise the calls. \<^const>\<open>None\<close> is a panic of the caller.
\<close>

record logger_manager =
  LOGGERS :: "(string, string \<times> rolling_logger) hmap"
  FIRST_LOGGER_KEY :: "string option"
  lm_folders :: "string \<Rightarrow> log_fs"

definition init_logger :: "string \<Rightarrow> string \<Rightarrow> string \<Rightarrow> u64 \<Rightarrow> u16 \<Rightarrow> logger_manager \<Rightarrow> logger_manager option" where
  "init_logger logger_key log_folder log_name log_size log_count m =
     (if hm_get (LOGGERS m) logger_key \<noteq> None then Some m
      else (case create_new log_name log_size log_count (lm_folders m log_folder) of
              None \<Rightarrow> None
            | Some (L, fs) \<Rightarrow>
                Some (m\<lparr>LOGGERS := hm_insert logger_key (log_folder, L) (LOGGERS m),
                        lm_folders := (lm_folders m)(log_folder := fs),
                        FIRST_LOGGER_KEY := (case FIRST_LOGGER_KEY m of None \<Rightarrow> Some logger_key | Some k \<Rightarrow> Some k)\<rparr>)))"

text \<open>
  \<^verbatim>\<open>write\<close>, \<^verbatim>\<open>write_information\<close>, \<^verbatim>\<open>write_warning\<close>, \<^verbatim>\<open>write_error\<close>: an unknown key panics, an error of
  writing is printed and forgotten.
\<close>

definition manager_write ::
    "string \<Rightarrow> string \<Rightarrow> string \<Rightarrow> string \<Rightarrow> string \<Rightarrow> string \<Rightarrow> logger_manager \<Rightarrow> logger_manager option" where
  "manager_write severity thread_id now time logger_key message m =
     (case hm_get (LOGGERS m) logger_key of
        None \<Rightarrow> None
      | Some (folder, L) \<Rightarrow>
          (case log_write severity thread_id now time message L (lm_folders m folder) of
             (None, _) \<Rightarrow> None
           | (Some _, L', fs) \<Rightarrow>
               Some (m\<lparr>LOGGERS := hm_insert logger_key (folder, L') (LOGGERS m),
                       lm_folders := (lm_folders m)(folder := fs)\<rparr>)))"

text \<open>\<^verbatim>\<open>write_info\<close>, \<^verbatim>\<open>write_warn\<close>, \<^verbatim>\<open>write_err\<close>: to the first logger, if there is one.\<close>

definition manager_write_first ::
    "string \<Rightarrow> string \<Rightarrow> string \<Rightarrow> string \<Rightarrow> string \<Rightarrow> logger_manager \<Rightarrow> logger_manager option" where
  "manager_write_first severity thread_id now time message m =
     (case FIRST_LOGGER_KEY m of
        Some logger_key \<Rightarrow> manager_write severity thread_id now time logger_key message m
      | None \<Rightarrow> Some m)"

section \<open>Names\<close>

lemma file_stem_log: "s \<noteq> [] \<Longrightarrow> file_stem (s @ ''.log'') = s"
  by (cases s) (simp_all add: file_stem_def last_dot_def)

lemma archive_name:
  "log_file_extension L = ''log'' \<Longrightarrow>
   get_current_file_full_path L (Some time) = log_file_name L @ ''.'' @ dots_for_colons time @ ''.log''"
  using file_stem_log [of "log_file_name L @ ''.'' @ dots_for_colons time"]
  by (simp add: get_current_file_full_path_def with_extension_def)

lemma file_stem_length: "length (file_stem f) \<le> length f"
  by (auto simp: file_stem_def split: option.split nat.split)

abbreviation current :: "rolling_logger \<Rightarrow> string" where
  "current L \<equiv> get_current_file_full_path L None"

abbreviation archived :: "rolling_logger \<Rightarrow> string \<Rightarrow> string" where
  "archived L time \<equiv> get_current_file_full_path L (Some time)"

lemma current_not_archived: "log_file_extension L = ''log'' \<Longrightarrow> current L \<noteq> archived L time"
proof -
  assume e: "log_file_extension L = ''log''"
  have "length (current L) < length (archived L time)"
    using e file_stem_length [of "log_file_name L"]
    by (simp add: archive_name [OF e]) (simp add: get_current_file_full_path_def with_extension_def)
  then show ?thesis by auto
qed

lemma names_of_writer [simp]:
  "get_current_file_full_path (L\<lparr>log_writer := w\<rparr>) ts = get_current_file_full_path L ts"
  "is_log_entry (L\<lparr>log_writer := w\<rparr>) = is_log_entry L"
  "log_names (L\<lparr>log_writer := w\<rparr>) = log_names L"
  by (simp_all add: get_current_file_full_path_def is_log_entry_def [abs_def] log_names_def [abs_def])

section \<open>The set of log files\<close>

definition log_set :: "rolling_logger \<Rightarrow> (string, string option) hmap \<Rightarrow> string set" where
  "log_set L files = {n \<in> dom (hm_get files). starts_with n (log_file_name L)}"

text \<open>No directory bears the name of a log file.\<close>

definition plain_logs :: "rolling_logger \<Rightarrow> (string, string option) hmap \<Rightarrow> bool" where
  "plain_logs L files \<longleftrightarrow> hm_inv files \<and> (\<forall>n. starts_with n (log_file_name L) \<longrightarrow> hm_get files n \<noteq> Some None)"

lemma log_set_writer [simp]:
  "log_set (L\<lparr>log_writer := w\<rparr>) = log_set L" "plain_logs (L\<lparr>log_writer := w\<rparr>) = plain_logs L"
  by (simp_all add: log_set_def plain_logs_def fun_eq_iff)

lemma finite_log_set [simp]: "finite (log_set L files)"
  by (rule finite_subset [of _ "dom (hm_get files)"]) (auto simp: log_set_def finite_dom_map_of)

lemma log_names_set:
  assumes "plain_logs L files"
  shows "set (log_names L files) = log_set L files" and "distinct (log_names L files)"
proof -
  have d: "distinct (map fst files)"
    using assms by (simp add: plain_logs_def hm_inv_def)
  show "set (log_names L files) = log_set L files"
    using assms d
    by (auto simp: log_names_def log_set_def is_log_entry_def plain_logs_def dom_map_of_conv_image_fst
        map_of_eq_Some_iff image_iff)
  show "distinct (log_names L files)"
    using d by (simp add: log_names_def distinct_map_filter)
qed

lemma length_log_names: "plain_logs L files \<Longrightarrow> length (log_names L files) = card (log_set L files)"
  using log_names_set [of L files] by (metis distinct_card)

lemma hm_delete_get: "hm_get (AList.delete k m) k' = (if k' = k then None else hm_get m k')"
  by (simp add: delete_conv')

lemma hm_delete_inv: "hm_inv m \<Longrightarrow> hm_inv (AList.delete k m)"
  by (simp add: hm_inv_def distinct_delete)

lemma next_fault_files: "next_fault fs = (r, fs') \<Longrightarrow> lf_files fs' = lf_files fs"
  by (auto simp: next_fault_def split: list.splits)

lemma remove_file_ok:
  assumes "remove_file f fs = (Inr u, fs')"
  shows "lf_files fs' = AList.delete f (lf_files fs)" and "hm_get (lf_files fs) f \<noteq> None"
  using assms next_fault_files [of fs]
  by (fastforce simp: remove_file_def split: prod.splits option.splits)+

lemma remove_oldest_ok:
  assumes "remove_oldest file_count cnt logs fs = (Inr u, fs')" and "cnt \<le> file_count"
  shows "(\<forall>n. hm_get (lf_files fs') n
           = (if n \<in> set (take (file_count + 1 - cnt) logs) then None else hm_get (lf_files fs) n))
       \<and> (hm_inv (lf_files fs) \<longrightarrow> hm_inv (lf_files fs'))"
  using assms
proof (induction logs arbitrary: cnt fs)
  case Nil
  then show ?case by simp
next
  case (Cons log logs)
  obtain r fs1 where rm: "remove_file log fs = (r, fs1)"
    by fastforce
  with Cons.prems obtain u1 where r: "remove_file log fs = (Inr u1, fs1)"
    by (cases r) auto
  note del = remove_file_ok(1) [OF r]
  have take: "take (file_count + 1 - cnt) (log # logs) = log # take (file_count - cnt) logs"
    using Cons.prems(2) by (simp add: Suc_diff_le)
  show ?case
  proof (cases "file_count < cnt + 1")
    case True
    with Cons.prems r have "fs' = fs1" by simp
    moreover have "file_count - cnt = 0"
      using True by simp
    ultimately show ?thesis
      unfolding take by (simp add: del hm_delete_get hm_delete_inv)
  next
    case False
    with Cons.prems r have "remove_oldest file_count (cnt + 1) logs fs1 = (Inr u, fs')" "cnt + 1 \<le> file_count"
      by simp_all
    from Cons.IH [OF this] show ?thesis
      unfolding take by (simp add: del hm_delete_get hm_delete_inv)
  qed
qed

section \<open>Rolling\<close>

definition rolling_inv :: "rolling_logger \<Rightarrow> log_fs \<Rightarrow> bool" where
  "rolling_inv L fs \<longleftrightarrow> initialized L \<and> log_file_extension L = ''log'' \<and> starts_with (current L) (log_file_name L)
     \<and> log_writer L = Some (current L) \<and> plain_logs L (lf_files fs)
     \<and> (\<exists>c. hm_get (lf_files fs) (current L) = Some (Some c))"

text \<open>Only the writer of the logger changes.\<close>

definition same_logger :: "rolling_logger \<Rightarrow> rolling_logger \<Rightarrow> bool" where
  "same_logger L L' \<longleftrightarrow> (\<exists>w. L' = L\<lparr>log_writer := w\<rparr>)"

definition log_limit :: "rolling_logger \<Rightarrow> nat" where
  "log_limit L = max 1 (unat (max_log_file_count L))"

definition others_kept :: "rolling_logger \<Rightarrow> log_fs \<Rightarrow> log_fs \<Rightarrow> bool" where
  "others_kept L fs fs' \<longleftrightarrow> (\<forall>n. \<not> starts_with n (log_file_name L) \<longrightarrow> hm_get (lf_files fs') n = hm_get (lf_files fs) n)"

lemma archived_prefix: "log_file_extension L = ''log'' \<Longrightarrow> starts_with (archived L time) (log_file_name L)"
  by (simp add: archive_name)

lemma rename_current_ok:
  assumes "rename_current new L fs = (Inr u, L', fs')"
  obtains n w where "hm_get (lf_files fs) (current L) = Some n" "L' = L\<lparr>log_writer := w\<rparr>"
    "lf_files fs' = hm_insert new n (AList.delete (current L) (lf_files fs))"
  using assms next_fault_files [of fs]
  by (fastforce simp: rename_current_def Let_def split: prod.splits option.splits)

lemma archive_file_ok:
  assumes "archive_file time L fs = (Inr u, L', fs')" and "rolling_inv L fs"
  shows "same_logger L L'" and "plain_logs L (lf_files fs')" and "hm_get (lf_files fs') (current L) = None"
    and "card (log_set L (lf_files fs')) < log_limit L" and "others_kept L fs fs'"
proof -
  let ?new = "archived L time"
  from assms(1) obtain r1 L1 fs1 where ren: "rename_current ?new L fs = (Inr r1, L1, fs1)"
    by (auto simp: archive_file_def split: prod.splits sum.splits)
  from assms(2) obtain c where inv: "log_file_extension L = ''log''" "starts_with (current L) (log_file_name L)"
    "plain_logs L (lf_files fs)" "hm_get (lf_files fs) (current L) = Some (Some c)"
    by (auto simp: rolling_inv_def)
  from rename_current_ok [OF ren] inv(4) obtain w where L1: "L1 = L\<lparr>log_writer := w\<rparr>"
    and f1: "lf_files fs1 = hm_insert ?new (Some c) (AList.delete (current L) (lf_files fs))"
    by (metis option.inject)
  have pl1: "plain_logs L (lf_files fs1)"
    using inv(3) by (auto simp: plain_logs_def f1 hm_delete_inv hm_delete_get)
  have cur1: "hm_get (lf_files fs1) (current L) = None"
    using current_not_archived [OF inv(1), of time] by (simp add: f1 hm_delete_get)
  have oth1: "others_kept L fs fs1"
    using archived_prefix [OF inv(1), of time] inv(2) by (auto simp: others_kept_def f1 hm_delete_get)
  from assms(1) ren obtain logs fs2 where g: "get_log_files L1 fs1 = (Inr logs, fs2)"
    by (auto simp: archive_file_def split: prod.splits sum.splits)
  have logs: "logs = log_names L (lf_files fs1)" and f2: "lf_files fs2 = lf_files fs1"
    using g next_fault_files [of fs1] by (auto simp: get_log_files_def L1 split: prod.splits option.splits)
  let ?m = "unat (max_log_file_count L)"
  note ln = log_names_set [OF pl1] length_log_names [OF pl1]
  show "same_logger L L'"
    using assms(1) ren g by (auto simp: archive_file_def L1 same_logger_def Let_def split: prod.splits if_splits)
  have main: "plain_logs L (lf_files fs') \<and> hm_get (lf_files fs') (current L) = None
      \<and> card (log_set L (lf_files fs')) < log_limit L \<and> others_kept L fs fs'"
  proof (cases "?m \<le> length logs")
    case False
    with assms(1) ren g have "fs' = fs2"
      by (auto simp: archive_file_def L1 Let_def)
    with False pl1 cur1 oth1 ln show ?thesis
      by (simp add: f2 others_kept_def log_limit_def logs)
  next
    case True
    with assms(1) ren g have rm: "remove_oldest (length logs) ?m logs fs2 = (Inr u, fs')"
      by (auto simp: archive_file_def L1 Let_def split: prod.splits)
    let ?k = "length logs + 1 - ?m"
    from remove_oldest_ok [OF rm True] have
      get: "\<And>n. hm_get (lf_files fs') n = (if n \<in> set (take ?k logs) then None else hm_get (lf_files fs1) n)"
      and hi: "hm_inv (lf_files fs')"
      using pl1 by (auto simp: f2 plain_logs_def)
    have sub: "set (take ?k logs) \<subseteq> log_set L (lf_files fs1)"
      using ln(1) set_take_subset [of ?k logs] by (simp add: logs)
    have "log_set L (lf_files fs') = log_set L (lf_files fs1) - set (take ?k logs)"
      by (auto simp: log_set_def dom_def get split: if_splits)
    then have "card (log_set L (lf_files fs')) = length logs - card (set (take ?k logs))"
      using sub ln(3) by (simp add: card_Diff_subset logs)
    also have "card (set (take ?k logs)) = min ?k (length logs)"
      using ln(2) distinct_card [of "take ?k logs"] by (simp add: logs min.commute)
    finally have "card (log_set L (lf_files fs')) < log_limit L"
      using True by (simp add: log_limit_def)
    moreover have "plain_logs L (lf_files fs')"
      using pl1 hi by (simp add: plain_logs_def get)
    moreover have "others_kept L fs fs'"
      using oth1 sub by (auto simp: others_kept_def get log_set_def)
    ultimately show ?thesis
      using cur1 by (simp add: get)
  qed
  then show "plain_logs L (lf_files fs')" and "hm_get (lf_files fs') (current L) = None"
    and "card (log_set L (lf_files fs')) < log_limit L" and "others_kept L fs fs'"
    by simp_all
qed

lemma open_file_ok:
  assumes "open_file L fs = (Inr u, L', fs')"
  shows "L' = L\<lparr>log_writer := Some (current L)\<rparr>"
    and "lf_files fs' = lf_files fs \<and> (\<exists>c. hm_get (lf_files fs) (current L) = Some (Some c))
       \<or> hm_get (lf_files fs) (current L) = None \<and> lf_files fs' = hm_insert (current L) (Some []) (lf_files fs)"
  using assms next_fault_files
  by (fastforce simp: open_file_def Let_def split: prod.splits option.splits)+

lemma log_set_insert:
  "starts_with f (log_file_name L) \<Longrightarrow> log_set L (hm_insert f x files) = insert f (log_set L files)"
  by (auto simp: log_set_def)

text \<open>What a successful check of the size leaves: the old files, or a fresh file within the limit.\<close>

lemma roll_if_needed_ok:
  assumes "roll_if_needed time L fs = (Inr u, L', fs')" and "rolling_inv L fs"
  shows "same_logger L L' \<and> rolling_inv L' fs' \<and> others_kept L fs fs'
     \<and> (lf_files fs' = lf_files fs
        \<or> hm_get (lf_files fs') (current L) = Some (Some []) \<and> card (log_set L (lf_files fs')) \<le> log_limit L)"
proof -
  from assms(2) obtain c where inv: "initialized L" "hm_get (lf_files fs) (current L) = Some (Some c)"
    by (auto simp: rolling_inv_def)
  then have init: "logger_file_init L fs = (Inr (), L, fs)"
    by (simp add: logger_file_init_def)
  obtain r1 fs1 where nf: "next_fault fs = (r1, fs1)" by fastforce
  note f1 = next_fault_files [OF nf]
  have r1: "r1 = None"
    using assms(1) init nf by (cases r1) (auto simp: roll_if_needed_def)
  have inv1: "rolling_inv L fs1"
    using assms(2) f1 by (simp add: rolling_inv_def)
  show ?thesis
  proof (cases "unat (max_log_file_size L) \<le> length c")
    case False
    with assms(1) init nf r1 inv(2) f1 have "L' = L" "fs' = fs1"
      by (auto simp: roll_if_needed_def Let_def)
    with inv1 f1 show ?thesis
      by (auto simp: same_logger_def others_kept_def intro: exI [of _ "log_writer L"])
  next
    case True
    with assms(1) init nf r1 inv(2) f1 obtain u1 L1 fs2 where ar: "archive_file time L fs1 = (Inr u1, L1, fs2)"
      and op: "open_file L1 fs2 = (Inr u, L', fs')"
      by (auto simp: roll_if_needed_def Let_def split: prod.splits sum.splits)
    note a = archive_file_ok [OF ar inv1]
    from a(1) obtain w where L1: "L1 = L\<lparr>log_writer := w\<rparr>"
      by (auto simp: same_logger_def)
    note o = open_file_ok [OF op]
    have L': "L' = L\<lparr>log_writer := Some (current L)\<rparr>"
      using o(1) by (simp add: L1)
    have f': "lf_files fs' = hm_insert (current L) (Some []) (lf_files fs2)"
      using o(2) a(3) by (simp add: L1)
    have pre: "starts_with (current L) (log_file_name L)"
      using inv1 by (simp add: rolling_inv_def)
    have "card (log_set L (lf_files fs')) \<le> Suc (card (log_set L (lf_files fs2)))"
      using pre by (simp add: f' log_set_insert card_insert_le_m1 card_insert_if)
    with a(4) have "card (log_set L (lf_files fs')) \<le> log_limit L" by simp
    moreover have "rolling_inv L' fs'"
      using inv1 a(2) by (auto simp: rolling_inv_def L' f' plain_logs_def)
    moreover have "others_kept L fs fs'"
      using a(5) pre by (auto simp: others_kept_def f' f1)
    ultimately show ?thesis
      by (auto simp: L' same_logger_def f')
  qed
qed

lemma append_to_ok:
  assumes "hm_get (lf_files fs) f = Some (Some c)"
  shows "lf_files (append_to f d fs) = hm_insert f (Some (c @ d)) (lf_files fs)"
  using assms by (simp add: append_to_def)

lemma write_line_files:
  assumes "write_line time message L fs = (Some (Inr u), L', fs')" and "rolling_inv L fs"
  obtains fs1 c where "roll_if_needed time L fs = (Inr (), L', fs1)" "hm_get (lf_files fs1) (current L') = Some (Some c)"
    "\<And>n. hm_get (lf_files fs') n = (if n = current L' then Some (Some (c @ message @ LF)) else hm_get (lf_files fs1) n)"
    "hm_inv (lf_files fs')"
proof -
  obtain r L1 fs1 where roll: "roll_if_needed time L fs = (r, L1, fs1)"
    by (metis surj_pair)
  with assms(1) have r: "r = Inr ()"
    by (cases r) (auto simp: write_line_def)
  from roll_if_needed_ok [OF roll [unfolded r] assms(2)] have inv: "rolling_inv L1 fs1" by simp
  then obtain c where c: "hm_get (lf_files fs1) (current L1) = Some (Some c)" and w: "log_writer L1 = Some (current L1)"
    and hi: "hm_inv (lf_files fs1)"
    by (auto simp: rolling_inv_def plain_logs_def)
  obtain e2 fs2 where n2: "next_fault fs1 = (e2, fs2)" by fastforce
  obtain e3 fs3 where n3: "next_fault (append_to (current L1) message fs2) = (e3, fs3)" by fastforce
  note f2 = next_fault_files [OF n2] and f3 = next_fault_files [OF n3]
  have e: "L' = L1" "fs' = append_to (current L1) LF fs3"
    using assms(1) roll r w n2 n3 by (auto simp: write_line_def split: option.splits)
  have g3: "lf_files fs3 = hm_insert (current L1) (Some (c @ message)) (lf_files fs1)"
    using f3 c f2 by (simp add: append_to_ok)
  have "lf_files fs' = hm_insert (current L1) (Some (c @ message @ LF)) (hm_insert (current L1) (Some (c @ message)) (lf_files fs1))"
    using append_to_ok [of fs3 "current L1" "c @ message" LF] g3 e(2) by simp
  then show thesis
    using that [of fs1 c] roll r c hi by (simp add: e(1))
qed

text \<open>An initialised logger keeps its writer, whatever fails.\<close>

definition has_writer :: "rolling_logger \<Rightarrow> bool" where
  "has_writer L \<longleftrightarrow> initialized L \<and> log_writer L \<noteq> None"

lemma open_file_writer: "has_writer L \<Longrightarrow> has_writer (fst (snd (open_file L fs)))"
  by (auto simp: open_file_def has_writer_def Let_def split: prod.split option.split)

lemma archive_file_writer: "has_writer L \<Longrightarrow> has_writer (fst (snd (archive_file time L fs)))"
proof -
  assume h: "has_writer L"
  then have "has_writer (fst (snd (rename_current new L fs)))" for new
    by (auto simp: rename_current_def has_writer_def Let_def split: prod.split option.split)
  moreover obtain r L1 fs1 where "rename_current (archived L time) L fs = (r, L1, fs1)"
    by (metis surj_pair)
  ultimately have "has_writer L1" and "rename_current (archived L time) L fs = (r, L1, fs1)"
    by (metis fst_conv snd_conv, simp)
  then show ?thesis
    by (auto simp: archive_file_def Let_def split: prod.split sum.split)
qed

lemma roll_if_needed_writer:
  assumes "has_writer L"
  shows "has_writer (fst (snd (roll_if_needed time L fs)))"
proof -
  have init: "logger_file_init L fs = (Inr (), L, fs)"
    using assms by (simp add: logger_file_init_def has_writer_def)
  have "has_writer (fst (snd (open_file L1 fs1)))" if "archive_file time L fs2 = (r, L1, fs1)" for r L1 fs1 fs2
    using archive_file_writer [OF assms, of time fs2] that by (simp add: open_file_writer)
  moreover have "has_writer L1" if "archive_file time L fs2 = (r, L1, fs1)" for r L1 fs1 fs2
    using archive_file_writer [OF assms, of time fs2] that by simp
  ultimately show ?thesis
    using assms by (auto simp: roll_if_needed_def init Let_def split: prod.split option.split sum.split)
qed

lemma write_line_writer:
  assumes "initialized L \<and> log_writer L \<noteq> None"
  shows "case write_line time message L fs of (r, L', _) \<Rightarrow> initialized L' \<and> log_writer L' \<noteq> None \<and> r \<noteq> None"
proof -
  obtain r L1 fs1 where "roll_if_needed time L fs = (r, L1, fs1)"
    by (metis surj_pair)
  moreover from this have "has_writer L1"
    using roll_if_needed_writer [of L time fs] assms by (simp add: has_writer_def)
  ultimately show ?thesis
    by (auto simp: write_line_def has_writer_def split: prod.split option.split sum.split)
qed

section \<open>Properties\<close>



text \<open>Once a logger exists under a key, initialising it again changes nothing and writing to it never panics; the
  first key stays, and a write touches only the folder of its logger. A write to an unknown key panics.\<close>

theorem logger_manager_spec:
  "(hm_get (LOGGERS m) k = None \<longrightarrow> manager_write sv tid now time k msg m = None)
   \<and> (hm_get (LOGGERS m) k = Some (folder, L) \<longrightarrow> init_logger k fo n sz c m = Some m)
   \<and> (hm_get (LOGGERS m) k = Some (folder, L) \<and> initialized L \<and> log_writer L \<noteq> None \<longrightarrow>
        (\<exists>m' L'. manager_write sv tid now time k msg m = Some m' \<and> hm_get (LOGGERS m') k = Some (folder, L')
           \<and> initialized L' \<and> log_writer L' \<noteq> None \<and> FIRST_LOGGER_KEY m' = FIRST_LOGGER_KEY m
           \<and> (\<forall>k'. k' \<noteq> k \<longrightarrow> hm_get (LOGGERS m') k' = hm_get (LOGGERS m) k')
           \<and> (\<forall>f. f \<noteq> folder \<longrightarrow> lm_folders m' f = lm_folders m f)))"
proof (intro conjI impI)
  assume a: "hm_get (LOGGERS m) k = Some (folder, L) \<and> initialized L \<and> log_writer L \<noteq> None"
  obtain r L' fs where w: "log_write sv tid now time msg L (lm_folders m folder) = (r, L', fs)"
    by (metis surj_pair)
  have "initialized L' \<and> log_writer L' \<noteq> None \<and> r \<noteq> None"
    using write_line_writer [of L time "get_log_header tid now sv @ msg" "lm_folders m folder"] a w
    by (simp add: log_write_def)
  with a w show "\<exists>m' L'. manager_write sv tid now time k msg m = Some m' \<and> hm_get (LOGGERS m') k = Some (folder, L')
           \<and> initialized L' \<and> log_writer L' \<noteq> None \<and> FIRST_LOGGER_KEY m' = FIRST_LOGGER_KEY m
           \<and> (\<forall>k'. k' \<noteq> k \<longrightarrow> hm_get (LOGGERS m') k' = hm_get (LOGGERS m) k')
           \<and> (\<forall>f. f \<noteq> folder \<longrightarrow> lm_folders m' f = lm_folders m f)"
    by (auto simp: manager_write_def)
qed (simp_all add: manager_write_def init_logger_def)

end
