(* ===== verification/Telemetry_Event.thy ===== *)
theory Telemetry_Event
  imports Agent_Status
begin

text \<open>
  \<^verbatim>\<open>proxy_agent_shared/src/telemetry.rs\<close>, \<^verbatim>\<open>proxy_agent/src/telemetry/telemetry_event.rs\<close> and \<^verbatim>\<open>xml_escape\<close> of
  \<^verbatim>\<open>common/helpers.rs\<close>: events, the virtual machine metadata, and the XML document that is sent to the
  wire server. What the operating system tells about the machine is a parameter.
\<close>

section \<open>Events\<close>

record event =
  EventLevel :: string
  Message :: string
  Version :: string
  TaskName :: string
  EventPid :: string
  EventTid :: string
  OperationId :: string
  TimeStamp :: string

text \<open>The version of the crate, the process, the thread and the clock.\<close>

record event_env =
  ev_version :: string
  ev_pid :: u32
  ev_tid :: string
  ev_time :: string

definition event_new :: "event_env \<Rightarrow> string \<Rightarrow> string \<Rightarrow> string \<Rightarrow> string \<Rightarrow> event" where
  "event_new env level message task_name operation_id =
     \<lparr>EventLevel = level, Message = message, Version = ev_version env, TaskName = task_name,
      EventPid = show_nat (unat (ev_pid env)), EventTid = ev_tid env, OperationId = operation_id,
      TimeStamp = ev_time env\<rparr>"

section \<open>Metadata\<close>

record vm_meta_data =
  vm_container_id :: string
  vm_tenant_name :: string
  vm_role_name :: string
  vm_role_instance_name :: string
  vm_subscription_id :: string
  vm_resource_group_name :: string
  vm_vm_id :: string
  vm_image_origin :: u64

definition vm_meta_data_default :: vm_meta_data where
  "vm_meta_data_default = \<lparr>vm_container_id = EMPTY_GUID, vm_tenant_name = EMPTY_GUID, vm_role_name = EMPTY_GUID,
     vm_role_instance_name = EMPTY_GUID, vm_subscription_id = EMPTY_GUID, vm_resource_group_name = EMPTY_GUID,
     vm_vm_id = EMPTY_GUID, vm_image_origin = 3\<rparr>"

definition vm_meta_data_copy :: "vm_meta_data \<Rightarrow> vm_meta_data" where
  "vm_meta_data_copy m = \<lparr>vm_container_id = vm_container_id m, vm_tenant_name = vm_tenant_name m,
     vm_role_name = vm_role_name m, vm_role_instance_name = vm_role_instance_name m,
     vm_subscription_id = vm_subscription_id m, vm_resource_group_name = vm_resource_group_name m,
     vm_vm_id = vm_vm_id m, vm_image_origin = vm_image_origin m\<rparr>"

definition get_vm_meta_data :: "vm_meta_data option \<Rightarrow> vm_meta_data" where
  "get_vm_meta_data VM_META_DATA =
     (case VM_META_DATA of Some meta_data \<Rightarrow> vm_meta_data_copy meta_data | None \<Rightarrow> vm_meta_data_default)"

section \<open>Telemetry events\<close>

record telemetry_event =
  te_event_pid :: u64
  te_event_tid :: u64
  te_ga_version :: string
  te_container_id :: string
  te_task_name :: string
  te_opcode_name :: string
  te_keyword_name :: string
  te_os_version :: string
  te_execution_mode :: string
  te_ram :: u64
  te_processors :: u64
  te_tenant_name :: string
  te_role_name :: string
  te_role_instance_name :: string
  te_subscription_id :: string
  te_resource_group_name :: string
  te_vm_id :: string
  te_image_origin :: u64
  te_event_name :: string
  te_capability_used :: string
  te_context1 :: string
  te_context2 :: string
  te_context3 :: string

record sys_info =
  si_os_version :: string
  si_keyword_name :: string
  si_ram_in_mb :: u64
  si_cpu_count :: u64

definition parse_u64_or_0 :: "string \<Rightarrow> u64" where
  "parse_u64_or_0 s = (case parse_uint 64 s of Some n \<Rightarrow> word_of_nat n | None \<Rightarrow> 0)"

definition from_event_log :: "sys_info \<Rightarrow> vm_meta_data option \<Rightarrow> event \<Rightarrow> telemetry_event" where
  "from_event_log sys VM_META_DATA event_log =
     (let m = get_vm_meta_data VM_META_DATA
      in \<lparr>te_event_pid = parse_u64_or_0 (EventPid event_log), te_event_tid = parse_u64_or_0 (EventTid event_log),
          te_ga_version = Version event_log, te_container_id = vm_container_id m, te_task_name = TaskName event_log,
          te_opcode_name = TimeStamp event_log, te_keyword_name = si_keyword_name sys,
          te_os_version = si_os_version sys, te_execution_mode = ''ProxyAgent'', te_ram = si_ram_in_mb sys,
          te_processors = si_cpu_count sys, te_tenant_name = vm_tenant_name m, te_role_name = vm_role_name m,
          te_role_instance_name = vm_role_instance_name m, te_subscription_id = vm_subscription_id m,
          te_resource_group_name = vm_resource_group_name m, te_vm_id = vm_vm_id m,
          te_image_origin = vm_image_origin m, te_event_name = ''MicrosoftAzureGuestProxyAgent'',
          te_capability_used = EventLevel event_log, te_context1 = Message event_log,
          te_context2 = TimeStamp event_log, te_context3 = OperationId event_log\<rparr>)"

section \<open>XML\<close>

text \<open>\<^verbatim>\<open>str::replace\<close> with a pattern of one character.\<close>

definition replace_char :: "char \<Rightarrow> string \<Rightarrow> string \<Rightarrow> string" where
  "replace_char c r s = concat (map (\<lambda>x. if x = c then r else [x]) s)"

definition xml_escape :: "string \<Rightarrow> string" where
  "xml_escape s =
     replace_char CHR ''>'' ''&gt;''
       (replace_char CHR ''<'' ''&lt;''
         (replace_char CHR 0x22 ''&quot;''
           (replace_char (CHR 0x27) ''&apos;''
             (replace_char CHR ''&'' ''&amp;'' s))))"

text \<open>The parameter elements, with the type of their value.\<close>

definition param :: "string \<Rightarrow> string \<Rightarrow> string \<Rightarrow> string" where
  "param name v ty = ''<Param Name='' @ [CHR 0x22] @ name @ [CHR 0x22] @ '' Value='' @ [CHR 0x22] @ v @ [CHR 0x22]
     @ '' T='' @ [CHR 0x22] @ ty @ [CHR 0x22] @ '' />''"

definition wstr :: "string \<Rightarrow> string \<Rightarrow> string" where
  "wstr name v = param name (xml_escape v) ''mt:wstr''"

definition uint64 :: "string \<Rightarrow> u64 \<Rightarrow> string" where
  "uint64 name v = param name (show_nat (unat v)) ''mt:uint64''"

definition event_params :: "telemetry_event \<Rightarrow> string list" where
  "event_params e =
     [wstr ''OpcodeName'' (te_opcode_name e), wstr ''KeywordName'' (te_keyword_name e),
      wstr ''TaskName'' (te_task_name e), wstr ''TenantName'' (te_tenant_name e), wstr ''RoleName'' (te_role_name e),
      wstr ''RoleInstanceName'' (te_role_instance_name e), wstr ''ContainerId'' (te_container_id e),
      wstr ''ResourceGroupName'' (te_resource_group_name e), wstr ''SubscriptionId'' (te_subscription_id e),
      wstr ''VMId'' (te_vm_id e), uint64 ''EventPid'' (te_event_pid e), uint64 ''EventTid'' (te_event_tid e),
      uint64 ''ImageOrigin'' (te_image_origin e), wstr ''ExecutionMode'' (te_execution_mode e),
      wstr ''OSVersion'' (te_os_version e), wstr ''GAVersion'' (te_ga_version e), uint64 ''RAM'' (te_ram e),
      uint64 ''Processors'' (te_processors e), wstr ''EventName'' (te_event_name e),
      wstr ''CapabilityUsed'' (te_capability_used e), wstr ''Context1'' (te_context1 e),
      wstr ''Context2'' (te_context2 e), wstr ''Context3'' (te_context3 e)]"

definition to_xml_event :: "telemetry_event \<Rightarrow> string" where
  "to_xml_event e = ''<Event id='' @ [CHR 0x22] @ ''7'' @ [CHR 0x22] @ ''><![CDATA['' @ concat (event_params e) @ '']]></Event>''"

text \<open>\<^verbatim>\<open>TelemetryData\<close> is its vector of events.\<close>

definition to_xml :: "telemetry_event list \<Rightarrow> string" where
  "to_xml es =
     ''<?xml version='' @ [CHR 0x22] @ ''1.0'' @ [CHR 0x22] @ ''?><TelemetryData version='' @ [CHR 0x22] @ ''1.0'' @ [CHR 0x22]
     @ ''><Provider id='' @ [CHR 0x22] @ ''FFF0196F-EE4C-4EAF-9AA5-776F622DEB4F'' @ [CHR 0x22] @ ''>''
     @ concat (map to_xml_event es) @ ''</Provider></TelemetryData>''"

definition get_size :: "telemetry_event list \<Rightarrow> nat" where
  "get_size es = length (to_xml es)"

definition add_event :: "telemetry_event list \<Rightarrow> telemetry_event \<Rightarrow> telemetry_event list" where
  "add_event es e = es @ [e]"

definition remove_last_event :: "telemetry_event list \<Rightarrow> telemetry_event option \<times> telemetry_event list" where
  "remove_last_event es = (if es = [] then (None, []) else (Some (last es), butlast es))"

definition event_count :: "telemetry_event list \<Rightarrow> nat" where
  "event_count es = length es"

section \<open>Escaping\<close>

text \<open>Done one after the other, ampersand first, the replacements are one pass over the characters.\<close>

definition esc :: "char \<Rightarrow> string" where
  "esc c = (if c = CHR ''&'' then ''&amp;'' else if c = CHR 0x27 then ''&apos;''
            else if c = CHR 0x22 then ''&quot;'' else if c = CHR ''<'' then ''&lt;''
            else if c = CHR ''>'' then ''&gt;'' else [c])"

lemma replace_char_append: "replace_char c r (s @ t) = replace_char c r s @ replace_char c r t"
  by (simp add: replace_char_def)

lemma replace_char_concat: "replace_char c r (concat (map f s)) = concat (map (\<lambda>x. replace_char c r (f x)) s)"
  by (induction s) (simp_all add: replace_char_append, simp add: replace_char_def)

lemma xml_escape_one_pass: "xml_escape s = concat (map esc s)"
proof -
  let ?amp = "\<lambda>x. if x = CHR ''&'' then ''&amp;'' else [x]"
  have "xml_escape s = concat (map (\<lambda>x. xml_escape [x]) s)"
    unfolding xml_escape_def replace_char_def [of "CHR ''&''" _ s] replace_char_concat
    by (simp add: replace_char_def)
  moreover have "xml_escape [x] = esc x" for x
    by (auto simp: xml_escape_def replace_char_def esc_def)
  ultimately show ?thesis by simp
qed

lemma esc_special: "c \<in> set (esc x) \<Longrightarrow> c \<notin> {CHR ''<'', CHR ''>'', CHR 0x22, CHR 0x27}"
  by (auto simp: esc_def split: if_splits)

lemma xml_escape_special: "c \<in> set (xml_escape s) \<Longrightarrow> c \<notin> {CHR ''<'', CHR ''>'', CHR 0x22, CHR 0x27}"
  unfolding xml_escape_one_pass using esc_special by fastforce

lemma esc_prefix_free: "esc x @ a = esc y @ b \<Longrightarrow> x = y"
  by (auto simp: esc_def split: if_splits)

lemma esc_nonempty [simp]: "esc x \<noteq> []"
  by (simp add: esc_def)

lemma xml_escape_inj: "xml_escape s = xml_escape t \<Longrightarrow> s = t"
  unfolding xml_escape_one_pass
proof (induction s arbitrary: t)
  case Nil
  then show ?case by (cases t) auto
next
  case (Cons x s)
  then obtain y t' where t: "t = y # t'"
    by (cases t) auto
  with Cons.prems have eq: "esc x @ concat (map esc s) = esc y @ concat (map esc t')"
    by simp
  then have "x = y" by (rule esc_prefix_free)
  with eq Cons.IH t show ?case by simp
qed

section \<open>The CDATA section\<close>

text \<open>Every closing bracket follows a slash: then the end mark of a CDATA section cannot occur.\<close>

definition gt_after_slash :: "string \<Rightarrow> bool" where
  "gt_after_slash s \<longleftrightarrow> (\<forall>xs ys. s = xs @ CHR ''>'' # ys \<longrightarrow> (\<exists>zs. xs = zs @ ''/''))"

lemma gt_after_slash_no_gt: "CHR ''>'' \<notin> set s \<Longrightarrow> gt_after_slash s"
  by (auto simp: gt_after_slash_def)

lemma gt_after_slash_append:
  assumes "gt_after_slash s" and "gt_after_slash t"
  shows "gt_after_slash (s @ t)"
  unfolding gt_after_slash_def
proof (intro allI impI)
  fix xs ys
  assume "s @ t = xs @ CHR ''>'' # ys"
  then consider us where "s = xs @ us" "us @ t = CHR ''>'' # ys" | us where "xs = s @ us" "t = us @ CHR ''>'' # ys"
    by (auto simp: append_eq_append_conv2)
  then show "\<exists>zs. xs = zs @ ''/''"
  proof cases
    case 1
    show ?thesis
    proof (cases us)
      case Nil
      with 1 assms(2) have "t = [] @ CHR ''>'' # ys"
        by simp
      with assms(2) show ?thesis unfolding gt_after_slash_def by blast
    next
      case (Cons u us')
      with 1 have "s = xs @ CHR ''>'' # us'"
        by simp
      with assms(1) show ?thesis unfolding gt_after_slash_def by blast
    qed
  next
    case 2
    with assms(2) obtain zs where "us = zs @ ''/''"
      unfolding gt_after_slash_def by blast
    with 2 show ?thesis by (intro exI [of _ "s @ zs"]) simp
  qed
qed

lemma gt_after_slash_concat: "(\<And>x. x \<in> set xs \<Longrightarrow> gt_after_slash x) \<Longrightarrow> gt_after_slash (concat xs)"
  by (induction xs) (simp_all add: gt_after_slash_append gt_after_slash_no_gt)

lemma gt_after_slash_close: "gt_after_slash ''/>''"
  by (auto simp: gt_after_slash_def append_eq_Cons_conv Cons_eq_append_conv)

lemma gt_after_slash_param:
  assumes "CHR ''>'' \<notin> set name" and "CHR ''>'' \<notin> set v" and "CHR ''>'' \<notin> set ty"
  shows "gt_after_slash (param name v ty)"
proof -
  let ?p = "''<Param Name='' @ [CHR 0x22] @ name @ [CHR 0x22] @ '' Value='' @ [CHR 0x22] @ v @ [CHR 0x22]
     @ '' T='' @ [CHR 0x22] @ ty @ [CHR 0x22] @ '' ''"
  have "param name v ty = ?p @ ''/>''"
    by (simp add: param_def)
  moreover have "gt_after_slash ?p"
    using assms by (intro gt_after_slash_no_gt) simp
  ultimately show ?thesis
    by (simp only: gt_after_slash_append gt_after_slash_close)
qed

lemma show_nat_no_gt: "CHR ''>'' \<notin> set (show_nat n)"
  using show_nat_digits by fastforce

lemma gt_after_slash_wstr: "CHR ''>'' \<notin> set name \<Longrightarrow> gt_after_slash (wstr name v)"
  unfolding wstr_def by (rule gt_after_slash_param) (use xml_escape_special in auto)

lemma gt_after_slash_uint64: "CHR ''>'' \<notin> set name \<Longrightarrow> gt_after_slash (uint64 name v)"
  unfolding uint64_def by (rule gt_after_slash_param) (auto simp: show_nat_no_gt)

lemma event_params_no_end: "\<not> sublist '']]>'' (concat (event_params e))"
proof
  assume "sublist '']]>'' (concat (event_params e))"
  then obtain a b where "concat (event_params e) = (a @ '']]'') @ CHR ''>'' # b"
    by (auto simp: sublist_def)
  moreover have "gt_after_slash (concat (event_params e))"
    by (rule gt_after_slash_concat) (auto simp: event_params_def intro: gt_after_slash_wstr gt_after_slash_uint64)
  ultimately obtain zs where "a @ '']]'' = zs @ ''/''"
    unfolding gt_after_slash_def by blast
  then show False by simp
qed

section \<open>Properties\<close>

text \<open>Whatever the event, the metadata and the machine contain, the text inside the CDATA section of an
  event does not contain the end mark of the section, so the section ends where the document says; and
  escaping loses nothing: it is a one-to-one map into strings without markup characters.\<close>

theorem telemetry_xml_framed:
  "(\<exists>p. to_xml_event e = ''<Event id='' @ [CHR 0x22] @ ''7'' @ [CHR 0x22] @ ''><![CDATA['' @ p @ '']]></Event>''
      \<and> \<not> sublist '']]>'' p)
   \<and> set (xml_escape s) \<inter> {CHR ''<'', CHR ''>'', CHR 0x22, CHR 0x27} = {}
   \<and> (xml_escape s = xml_escape t \<longleftrightarrow> s = t)"
  using event_params_no_end [of e] xml_escape_special xml_escape_inj unfolding to_xml_event_def by blast

end
