(* ===== verification/Event_Logger.thy ===== *)
theory Event_Logger
  imports Telemetry_Event
begin

text \<open>
  \<^verbatim>\<open>proxy_agent_shared/src/telemetry/event_logger.rs\<close>: the bounded queue every thread writes events to,
  the throttling of repeated state events, and the thread that moves the queue to files. The statics of
  the module are one record. The callers and the logger thread interleave: a call of \<^verbatim>\<open>write_event\<close>,
  \<^verbatim>\<open>write_state_event\<close> or \<^verbatim>\<open>stop\<close> is one step, and the thread takes one step for each operation on
  the shared queue. The lines of the file log are recorded with their severity; the loggers are assumed to
  be initialised before the first call, as the services do.
\<close>

section \<open>State\<close>

definition INFO_LEVEL :: string where [agent_defs]: "INFO_LEVEL = ''Informational''"
definition WARN_LEVEL :: string where [agent_defs]: "WARN_LEVEL = ''Warning''"
definition ERROR_LEVEL :: string where [agent_defs]: "ERROR_LEVEL = ''Error''"
definition CRITICAL_LEVEL :: string where [agent_defs]: "CRITICAL_LEVEL = ''Critical''"
definition MAX_STATE_COUNT :: u32 where [agent_defs]: "MAX_STATE_COUNT = 120"
definition MAX_MESSAGE_LENGTH :: nat where [agent_defs]: "MAX_MESSAGE_LENGTH = 1024 * 4"
definition EVENT_QUEUE_BOUND :: nat where [agent_defs]: "EVENT_QUEUE_BOUND = 1000"

datatype severity = Verbose | Information | Warn | Err

text \<open>The messages of the logger's own diagnostics carry no information beyond their place.\<close>

datatype log_entry =
    EventLine severity string
  | PushFailed
  | PopFailed
  | StatusLine severity string
  | TooManyFiles
  | ListFailed
  | FileWritten string
  | FileFailed string

text \<open>Where the logger thread is.\<close>

datatype logger_pc =
    NotStarted
  | LoopHead
  | Slept
  | Popping nat "event list"
  | Popped "event list"
  | Returned "unit io_result"

text \<open>What became of a batch of popped events.\<close>

datatype fate = OnDisk string | DroppedFilesFull | DroppedWriteFailed string

record logger_state =
  lg_queue :: "event list"
  lg_closed :: bool
  SHUT_DOWN :: bool
  STATE_MAP :: "(string, string \<times> u32) hmap"
  lg_status :: string
  lg_log :: "log_entry list"
  lg_pc :: logger_pc
  lg_batches :: "(fate \<times> event list) list"

definition logger_init :: logger_state where
  "logger_init = \<lparr>lg_queue = [], lg_closed = False, SHUT_DOWN = False, STATE_MAP = [],
     lg_status = ''Telemetry event logger thread has not started yet.'', lg_log = [], lg_pc = NotStarted,
     lg_batches = []\<rparr>"

section \<open>Writing events\<close>

text \<open>\<^verbatim>\<open>ConcurrentQueue::push\<close> of a bounded queue refuses an element when the queue is closed or full.\<close>

definition queue_push :: "event \<Rightarrow> logger_state \<Rightarrow> logger_state option" where
  "queue_push e s = (if lg_closed s \<or> EVENT_QUEUE_BOUND \<le> length (lg_queue s) then None
                     else Some (s\<lparr>lg_queue := lg_queue s @ [e]\<rparr>))"

definition log_line :: "log_entry \<Rightarrow> logger_state \<Rightarrow> logger_state" where
  "log_line l s = s\<lparr>lg_log := lg_log s @ [l]\<rparr>"

definition level_severity :: "string \<Rightarrow> severity" where
  "level_severity level = (if level = INFO_LEVEL then Information else if level = WARN_LEVEL then Warn else Err)"

text \<open>\<^verbatim>\<open>message[..MAX_MESSAGE_LENGTH]\<close> panics when the cut falls inside a character: \<^const>\<open>None\<close>.\<close>

definition event_message :: "string \<Rightarrow> string option" where
  "event_message message =
     (if MAX_MESSAGE_LENGTH < length message
      then (if is_char_boundary MAX_MESSAGE_LENGTH message then Some (take MAX_MESSAGE_LENGTH message) else None)
      else Some message)"

text \<open>The first component is \<^const>\<open>False\<close> when the call panics in the calling thread.\<close>

definition write_event ::
    "event_env \<Rightarrow> string \<Rightarrow> string \<Rightarrow> string \<Rightarrow> string \<Rightarrow> logger_state \<Rightarrow> bool \<times> logger_state" where
  "write_event env level message method_name module_name s =
     (case event_message message of
        None \<Rightarrow> (False, s)
      | Some m \<Rightarrow>
          (case queue_push (event_new env level m method_name module_name) s of
             Some s' \<Rightarrow> (True, log_line (EventLine (level_severity level) message) s')
           | None \<Rightarrow> (True, log_line PushFailed s)))"

definition write_state_event ::
    "event_env \<Rightarrow> string \<Rightarrow> string \<Rightarrow> string \<Rightarrow> string \<Rightarrow> string \<Rightarrow> string \<Rightarrow> logger_state
       \<Rightarrow> bool \<times> logger_state" where
  "write_state_event env state_key state_value level message method_name module_name s =
     (case hm_get (STATE_MAP s) state_key of
        Some (v, cnt) \<Rightarrow>
          if v \<noteq> state_value \<or> MAX_STATE_COUNT \<le> cnt
          then write_event env level message method_name module_name
                 (s\<lparr>STATE_MAP := hm_insert state_key (state_value, 1) (STATE_MAP s)\<rparr>)
          else (True, s\<lparr>STATE_MAP := hm_insert state_key (state_value, cnt + 1) (STATE_MAP s)\<rparr>)
      | None \<Rightarrow>
          write_event env level message method_name module_name
            (s\<lparr>STATE_MAP := hm_insert state_key (state_value, 1) (STATE_MAP s)\<rparr>))"

definition logger_stop :: "logger_state \<Rightarrow> logger_state" where
  "logger_stop s = s\<lparr>SHUT_DOWN := True\<rparr>"

definition logger_get_status :: "logger_state \<Rightarrow> detail_status" where
  "logger_get_status s = \<lparr>ds_status = (if SHUT_DOWN s then STOPPED else RUNNING), ds_message = lg_status s,
     ds_states = None\<rparr>"

section \<open>The logger thread\<close>

text \<open>
  What the thread observes: whether the directory could be created (the panic of \<^verbatim>\<open>try_create_folder\<close>
  ends the thread like an error), the number of files in it, the name of the new file and whether writing it
  succeeded.
\<close>

record logger_obs =
  lo_created :: "unit io_result"
  lo_files :: "nat io_result"
  lo_name :: string
  lo_written :: "unit io_result"

definition set_status :: "string \<Rightarrow> logger_state \<Rightarrow> logger_state" where
  "set_status m s = s\<lparr>lg_status := m\<rparr>"

text \<open>From the start of the thread to the loop.\<close>

definition logger_start :: "logger_obs \<Rightarrow> logger_state \<Rightarrow> logger_state" where
  "logger_start obs s =
     (let message = ''Telemetry event logger thread started.'';
          s = log_line (StatusLine Verbose message) (set_status message s)
      in case lo_created obs of Inl e \<Rightarrow> s\<lparr>lg_pc := Returned (Inl e)\<rparr> | Inr _ \<Rightarrow> s\<lparr>lg_pc := LoopHead\<rparr>)"

text \<open>The test before the sleep.\<close>

definition logger_head :: "logger_state \<Rightarrow> logger_state" where
  "logger_head s =
     (if lg_closed s
      then (let message = ''Event queue already closed, stop processing events.''
            in (log_line (StatusLine Information message) (set_status message s))\<lparr>lg_pc := Returned (Inr ())\<rparr>)
      else s\<lparr>lg_pc := Slept\<rparr>)"

text \<open>After the sleep: the stop signal closes the queue; then its length is read.\<close>

definition logger_wake :: "logger_state \<Rightarrow> logger_state" where
  "logger_wake s =
     (let message = ''Stop signal received, exiting the event logger thread.'';
          s = (if SHUT_DOWN s
               then (log_line (StatusLine Information message) (set_status message s))\<lparr>lg_closed := True\<rparr> else s);
          len = length (lg_queue s)
      in s\<lparr>lg_pc := (if len = 0 then LoopHead else Popping len [])\<rparr>)"

definition logger_pop :: "nat \<Rightarrow> event list \<Rightarrow> logger_state \<Rightarrow> logger_state" where
  "logger_pop n events s =
     (case n of
        0 \<Rightarrow> s\<lparr>lg_pc := Popped events\<rparr>
      | Suc m \<Rightarrow>
          (case lg_queue s of
             e # q \<Rightarrow> s\<lparr>lg_queue := q, lg_pc := Popping m (events @ [e])\<rparr>
           | [] \<Rightarrow> (log_line PopFailed s)\<lparr>lg_pc := Popping m events\<rparr>))"

definition logger_flush :: "nat \<Rightarrow> logger_obs \<Rightarrow> event list \<Rightarrow> logger_state \<Rightarrow> logger_state" where
  "logger_flush max_event_file_count obs events s =
     (let finish = (\<lambda>f l s. (log_line l s)\<lparr>lg_pc := LoopHead, lg_batches := lg_batches s @ [(f, events)]\<rparr>);
          write_file = (\<lambda>s. case lo_written obs of
              Inr _ \<Rightarrow> finish (OnDisk (lo_name obs)) (FileWritten (lo_name obs)) s
            | Inl e \<Rightarrow> finish (DroppedWriteFailed (lo_name obs)) (FileFailed (lo_name obs)) s)
      in case lo_files obs of
           Inr files \<Rightarrow> if max_event_file_count \<le> files then finish DroppedFilesFull TooManyFiles s else write_file s
         | Inl e \<Rightarrow> write_file (log_line ListFailed s))"

definition logger_step :: "nat \<Rightarrow> logger_obs \<Rightarrow> logger_state \<Rightarrow> logger_state" where
  "logger_step max_event_file_count obs s =
     (case lg_pc s of
        NotStarted \<Rightarrow> logger_start obs s
      | LoopHead \<Rightarrow> logger_head s
      | Slept \<Rightarrow> logger_wake s
      | Popping n events \<Rightarrow> logger_pop n events s
      | Popped events \<Rightarrow> logger_flush max_event_file_count obs events s
      | Returned r \<Rightarrow> s)"

section \<open>Runs\<close>

datatype logger_act =
    Write event_env string string string string
  | Write_State event_env string string string string string string
  | Stop_Logger
  | Thread logger_obs

definition logger_act_step :: "nat \<Rightarrow> logger_act \<Rightarrow> logger_state \<Rightarrow> logger_state" where
  "logger_act_step max_count a s =
     (case a of
        Write env level message method_name module_name \<Rightarrow> snd (write_event env level message method_name module_name s)
      | Write_State env k v level message method_name module_name \<Rightarrow>
          snd (write_state_event env k v level message method_name module_name s)
      | Stop_Logger \<Rightarrow> logger_stop s
      | Thread obs \<Rightarrow> logger_step max_count obs s)"

section \<open>Invariant\<close>

text \<open>The events accepted so far, oldest first: those disposed of, those in the hands of the thread, those queued.\<close>

fun in_flight :: "logger_pc \<Rightarrow> event list" where
  "in_flight (Popping n events) = events"
| "in_flight (Popped events) = events"
| "in_flight _ = []"

definition accepted :: "logger_state \<Rightarrow> event list" where
  "accepted s = concat (map snd (lg_batches s)) @ in_flight (lg_pc s) @ lg_queue s"

fun event_lines :: "log_entry list \<Rightarrow> (severity \<times> string) list" where
  "event_lines [] = []"
| "event_lines (EventLine sv m # ls) = (sv, m) # event_lines ls"
| "event_lines (_ # ls) = event_lines ls"

lemma event_lines_append [simp]: "event_lines (a @ b) = event_lines a @ event_lines b"
  by (induction a rule: event_lines.induct) simp_all

text \<open>The event a line of the file log stands for.\<close>

definition line_of :: "severity \<times> string \<Rightarrow> event \<Rightarrow> bool" where
  "line_of l e \<longleftrightarrow> fst l = level_severity (EventLevel e) \<and> event_message (snd l) = Some (Message e)"

lemma event_message_length: "event_message m = Some m' \<Longrightarrow> length m' \<le> MAX_MESSAGE_LENGTH"
  by (auto simp: event_message_def split: if_splits)

text \<open>Once the queue is closed the thread empties it before it returns.\<close>

definition pc_inv :: "logger_state \<Rightarrow> bool" where
  "pc_inv s =
     (case lg_pc s of
        NotStarted \<Rightarrow> \<not> lg_closed s
      | LoopHead \<Rightarrow> lg_closed s \<longrightarrow> lg_queue s = []
      | Slept \<Rightarrow> \<not> lg_closed s
      | Popping n events \<Rightarrow> n \<le> length (lg_queue s) \<and> (lg_closed s \<longrightarrow> n = length (lg_queue s))
      | Popped events \<Rightarrow> lg_closed s \<longrightarrow> lg_queue s = []
      | Returned r \<Rightarrow> (case r of Inr _ \<Rightarrow> lg_closed s \<and> lg_queue s = [] | Inl _ \<Rightarrow> \<not> lg_closed s))"

definition logger_inv :: "logger_state \<Rightarrow> bool" where
  "logger_inv s \<longleftrightarrow> list_all2 line_of (event_lines (lg_log s)) (accepted s)
     \<and> length (lg_queue s) \<le> EVENT_QUEUE_BOUND \<and> pc_inv s"

lemmas logger_defs = logger_inv_def accepted_def pc_inv_def log_line_def set_status_def

lemma logger_inv_init: "logger_inv logger_init"
  by (simp add: logger_defs logger_init_def)

lemma write_event_inv:
  assumes "logger_inv s"
  shows "logger_inv (snd (write_event env level message method_name module_name s))"
proof (cases "event_message message")
  case None
  with assms show ?thesis by (simp add: write_event_def)
next
  case (Some m)
  let ?e = "event_new env level m method_name module_name"
  have l: "line_of (level_severity level, message) ?e"
    using Some by (simp add: line_of_def event_new_def)
  show ?thesis
  proof (cases "lg_closed s \<or> EVENT_QUEUE_BOUND \<le> length (lg_queue s)")
    case True
    with Some assms show ?thesis
      by (auto simp: write_event_def queue_push_def logger_defs split: logger_pc.splits sum.splits)
  next
    case False
    then have "snd (write_event env level message method_name module_name s) =
        s\<lparr>lg_queue := lg_queue s @ [?e], lg_log := lg_log s @ [EventLine (level_severity level) message]\<rparr>"
      using Some by (simp add: write_event_def queue_push_def log_line_def)
    moreover have "pc_inv (s\<lparr>lg_queue := lg_queue s @ [?e], lg_log := lg_log s @ [EventLine (level_severity level) message]\<rparr>)"
      using assms False by (auto simp: logger_defs split: logger_pc.splits sum.splits)
    ultimately show ?thesis
      using assms l False by (simp add: logger_inv_def accepted_def list_all2_appendI flip: append_assoc)
  qed
qed

lemma logger_inv_STATE_MAP [simp]: "logger_inv (s\<lparr>STATE_MAP := m\<rparr>) = logger_inv s"
  by (simp add: logger_defs split: logger_pc.split sum.split)

lemma logger_inv_SHUT_DOWN [simp]: "logger_inv (s\<lparr>SHUT_DOWN := b\<rparr>) = logger_inv s"
  by (simp add: logger_defs split: logger_pc.split sum.split)

lemma write_state_event_inv:
  assumes "logger_inv s"
  shows "logger_inv (snd (write_state_event env k v level message method_name module_name s))"
  using assms by (simp add: write_state_event_def write_event_inv split: option.splits prod.splits)

lemma logger_start_inv: "logger_inv s \<Longrightarrow> lg_pc s = NotStarted \<Longrightarrow> logger_inv (logger_start obs s)"
  by (auto simp: logger_start_def logger_defs Let_def split: sum.splits)

lemma logger_head_inv: "logger_inv s \<Longrightarrow> lg_pc s = LoopHead \<Longrightarrow> logger_inv (logger_head s)"
  by (auto simp: logger_head_def logger_defs Let_def)

lemma logger_wake_inv: "logger_inv s \<Longrightarrow> lg_pc s = Slept \<Longrightarrow> logger_inv (logger_wake s)"
  by (auto simp: logger_wake_def logger_defs Let_def)

lemma logger_pop_inv: "logger_inv s \<Longrightarrow> lg_pc s = Popping n events \<Longrightarrow> logger_inv (logger_pop n events s)"
  by (auto simp: logger_pop_def logger_defs split: nat.splits list.splits)

lemma logger_flush_inv:
  "logger_inv s \<Longrightarrow> lg_pc s = Popped events \<Longrightarrow> logger_inv (logger_flush m obs events s)"
  by (auto simp: logger_flush_def logger_defs Let_def split: sum.splits)

lemma logger_step_inv: "logger_inv s \<Longrightarrow> logger_inv (logger_step m obs s)"
  unfolding logger_step_def
  by (cases "lg_pc s")
    (simp_all add: logger_start_inv logger_head_inv logger_wake_inv logger_pop_inv logger_flush_inv)

interpretation logger: step_system "logger_act_step max_count" logger_inv for max_count
  by unfold_locales
    (auto simp: logger_act_step_def logger_stop_def write_event_inv write_state_event_inv logger_step_inv
      split: logger_act.splits)

section \<open>Stopping\<close>

text \<open>The number of steps the thread still takes once the stop signal is set.\<close>

definition from_head :: "bool \<Rightarrow> nat \<Rightarrow> nat" where
  "from_head closed q = (if closed then 1 else if q = 0 then 3 else q + 5)"

definition steps_left :: "logger_state \<Rightarrow> nat" where
  "steps_left s =
     (let q = length (lg_queue s); c = lg_closed s
      in case lg_pc s of
           NotStarted \<Rightarrow> 1 + from_head c q
         | LoopHead \<Rightarrow> from_head c q
         | Slept \<Rightarrow> (if q = 0 then 2 else q + 4)
         | Popping n events \<Rightarrow> n + 2 + from_head c (q - n)
         | Popped events \<Rightarrow> 1 + from_head c q
         | Returned r \<Rightarrow> 0)"

lemma thread_step_progress:
  assumes "logger_inv s" and "SHUT_DOWN s"
  shows "SHUT_DOWN (logger_step m obs s)" and "steps_left (logger_step m obs s) \<le> steps_left s - 1"
proof -
  from assms(1) have pc: "pc_inv s" by (simp add: logger_inv_def)
  show "SHUT_DOWN (logger_step m obs s)"
    using assms(2)
    by (simp add: logger_step_def logger_start_def logger_head_def logger_wake_def logger_pop_def logger_flush_def
        log_line_def set_status_def Let_def split: logger_pc.split sum.split nat.split list.split)
  show "steps_left (logger_step m obs s) \<le> steps_left s - 1"
  proof (cases "lg_pc s")
    case NotStarted
    with pc show ?thesis
      by (auto simp: pc_inv_def logger_step_def logger_start_def steps_left_def from_head_def log_line_def
          set_status_def Let_def split: sum.split)
  next
    case LoopHead
    with pc show ?thesis
      by (auto simp: pc_inv_def logger_step_def logger_head_def steps_left_def from_head_def log_line_def
          set_status_def Let_def)
  next
    case Slept
    with pc assms(2) show ?thesis
      by (auto simp: pc_inv_def logger_step_def logger_wake_def steps_left_def from_head_def log_line_def
          set_status_def Let_def)
  next
    case (Popping n events)
    with pc show ?thesis
      by (cases n; cases "lg_queue s")
        (auto simp: pc_inv_def logger_step_def logger_pop_def steps_left_def from_head_def Let_def)
  next
    case (Popped events)
    with pc show ?thesis
      by (auto simp: pc_inv_def logger_step_def logger_flush_def steps_left_def from_head_def log_line_def
          Let_def split: sum.split)
  next
    case (Returned r)
    then show ?thesis by (simp add: logger_step_def steps_left_def)
  qed
qed

lemma thread_run_progress:
  assumes "logger_inv s" and "SHUT_DOWN s"
  shows "steps_left (fold (logger_step m) obs s) \<le> steps_left s - length obs"
  using assms
proof (induction obs arbitrary: s)
  case Nil
  show ?case by simp
next
  case (Cons ob obs)
  let ?s = "logger_step m ob s"
  from Cons.prems have "steps_left (fold (logger_step m) obs ?s) \<le> steps_left ?s - length obs"
    by (intro Cons.IH) (simp_all add: thread_step_progress logger_step_inv)
  also have "\<dots> \<le> steps_left s - 1 - length obs"
    using thread_step_progress(2) [OF Cons.prems] by (rule diff_le_mono)
  finally show ?case by simp
qed

lemma steps_left_bound: "logger_inv s \<Longrightarrow> steps_left s \<le> EVENT_QUEUE_BOUND + 7"
  by (auto simp: logger_inv_def pc_inv_def steps_left_def from_head_def Let_def agent_defs split: logger_pc.splits)

lemma steps_left_0: "steps_left s = 0 \<Longrightarrow> \<exists>r. lg_pc s = Returned r"
  by (auto simp: steps_left_def from_head_def Let_def split: logger_pc.splits if_splits)

section \<open>Throttling\<close>

text \<open>A state event with its environment and texts, for one key and value.\<close>

type_synonym state_call = "event_env \<times> string \<times> string \<times> string \<times> string"

definition repeat_state :: "string \<Rightarrow> string \<Rightarrow> state_call list \<Rightarrow> logger_state \<Rightarrow> logger_state" where
  "repeat_state k v calls s =
     fold (\<lambda>(env, level, message, method_name, module_name) s.
             snd (write_state_event env k v level message method_name module_name s)) calls s"

lemma write_event_log:
  assumes "event_message message \<noteq> None"
  shows "length (lg_log (snd (write_event env level message method_name module_name s))) = Suc (length (lg_log s))"
    and "STATE_MAP (snd (write_event env level message method_name module_name s)) = STATE_MAP s"
  using assms by (auto simp: write_event_def queue_push_def log_line_def split: option.split)

lemma repeat_state_counts:
  assumes "\<forall>(env, level, message, method_name, module_name) \<in> set calls. event_message message \<noteq> None"
    and "hm_get (STATE_MAP s) k = Some (v, word_of_nat c)" and "1 \<le> c" and "c \<le> 120"
  shows "length (lg_log (repeat_state k v calls s)) = length (lg_log s) + (length calls + c - 1) div 120"
  using assms
proof (induction calls arbitrary: s c)
  case Nil
  then show ?case by (simp add: repeat_state_def)
next
  case (Cons a calls)
  obtain env level message me mo where a: "a = (env, level, message, me, mo)"
    by (cases a) auto
  from Cons.prems(1) have m: "event_message message \<noteq> None" and
    rest: "\<forall>(env, level, message, method_name, module_name) \<in> set calls. event_message message \<noteq> None"
    by (auto simp: a)
  let ?s = "snd (write_state_event env k v level message me mo s)"
  have u: "unat (word_of_nat c :: u32) = c"
    using Cons.prems(4) by (simp add: unat_of_nat)
  have le: "MAX_STATE_COUNT \<le> (word_of_nat c :: u32) \<longleftrightarrow> c = 120"
    using Cons.prems(4) by (auto simp: word_le_nat_alt u agent_defs)
  have run: "repeat_state k v (a # calls) s = repeat_state k v calls ?s"
    by (simp add: repeat_state_def a)
  show ?case
  proof (cases "c = 120")
    case True
    then have s: "?s = snd (write_event env level message me mo (s\<lparr>STATE_MAP := hm_insert k (v, 1) (STATE_MAP s)\<rparr>))"
      using Cons.prems(2) le by (simp add: write_state_event_def)
    have "hm_get (STATE_MAP ?s) k = Some (v, word_of_nat 1)"
      by (simp add: s write_event_log(2) [OF m])
    then have "length (lg_log (repeat_state k v calls ?s)) = length (lg_log ?s) + (length calls + 1 - 1) div 120"
      by (intro Cons.IH [OF rest]) auto
    moreover have "length (lg_log ?s) = Suc (length (lg_log s))"
      by (simp add: s write_event_log(1) [OF m])
    ultimately show ?thesis
      using True by (simp add: run)
  next
    case False
    then have s: "?s = s\<lparr>STATE_MAP := hm_insert k (v, word_of_nat c + 1) (STATE_MAP s)\<rparr>"
      using Cons.prems(2) le by (simp add: write_state_event_def)
    then have "hm_get (STATE_MAP ?s) k = Some (v, word_of_nat (c + 1))"
      by (simp add: add.commute)
    then have "length (lg_log (repeat_state k v calls ?s)) = length (lg_log ?s) + (length calls + (c + 1) - 1) div 120"
      using Cons.prems(3,4) False by (intro Cons.IH [OF rest]) auto
    then show ?thesis
      by (simp add: run s)
  qed
qed

section \<open>Properties\<close>


text \<open>After the stop signal the logger thread returns within 1007 of its own steps, whatever it observes.\<close>

theorem event_logger_stops:
  assumes "s = fold (logger_act_step max_count) acts logger_init" and "SHUT_DOWN s" and "1007 \<le> length obs"
  shows "\<exists>r. lg_pc (fold (logger_step max_count) obs s) = Returned r"
proof -
  have inv: "logger_inv s"
    unfolding assms(1) by (rule logger.run_inv [OF logger_inv_init])
  have "steps_left (fold (logger_step max_count) obs s) = 0"
    using thread_run_progress [OF inv assms(2), of max_count obs] steps_left_bound [OF inv] assms(3)
    by (simp add: agent_defs)
  then show ?thesis by (rule steps_left_0)
qed

theorem event_logger_stops_witness:
  "\<exists>r. lg_pc (fold (logger_step 5) (replicate 1007 \<lparr>lo_created = Inr (), lo_files = Inr 0, lo_name = ''1.json'',
     lo_written = Inr ()\<rparr>) (logger_stop logger_init)) = Returned r"
  by (rule event_logger_stops [of _ 5 "[Stop_Logger]"]) (simp_all add: logger_act_step_def logger_stop_def)

text \<open>Repeating one state value, an event is written for the first report and then once per 120 reports:
  \<open>n\<close> reports of the same key and value, the key being new or having another value before, write
  \<open>\<lceil>n / 120\<rceil>\<close> events.\<close>

theorem state_events_throttled:
  assumes "\<forall>(env, level, message, method_name, module_name) \<in> set calls. event_message message \<noteq> None"
    and "\<forall>cnt. hm_get (STATE_MAP s) k \<noteq> Some (v, cnt)"
  shows "length (lg_log (repeat_state k v calls s)) = length (lg_log s) + (length calls + 119) div 120"
proof (cases calls)
  case Nil
  then show ?thesis by (simp add: repeat_state_def)
next
  case (Cons a rest)
  obtain env level message me mo where a: "a = (env, level, message, me, mo)"
    by (cases a) auto
  let ?s = "snd (write_state_event env k v level message me mo s)"
  from assms(1) have m: "event_message message \<noteq> None"
    by (auto simp: a Cons)
  from assms(2) have s: "?s = snd (write_event env level message me mo (s\<lparr>STATE_MAP := hm_insert k (v, 1) (STATE_MAP s)\<rparr>))"
    by (auto simp: write_state_event_def split: option.splits)
  have "hm_get (STATE_MAP ?s) k = Some (v, word_of_nat 1)"
    by (simp add: s write_event_log(2) [OF m])
  then have "length (lg_log (repeat_state k v rest ?s)) = length (lg_log ?s) + (length rest + 1 - 1) div 120"
    by (intro repeat_state_counts) (use assms(1) in \<open>auto simp: Cons\<close>)
  moreover have "length (lg_log ?s) = Suc (length (lg_log s))"
    by (simp add: s write_event_log(1) [OF m])
  moreover have "repeat_state k v calls s = repeat_state k v rest ?s"
    by (simp add: repeat_state_def Cons a)
  ultimately show ?thesis by (simp add: Cons)
qed

theorem state_events_throttled_witness:
  "length (lg_log (repeat_state ''k'' ''v''
     (replicate 241 (\<lparr>ev_version = ''1.0'', ev_pid = 1, ev_tid = ''1'', ev_time = ''t''\<rparr>, ''Warning'', ''m'', ''f'', ''o''))
     logger_init)) = 3"
  by (subst state_events_throttled) (auto simp: logger_init_def event_message_def agent_defs)

end
