(* ===== verification/Misc_Helpers.thy ===== *)
theory Misc_Helpers
  imports Rolling_Logger Event_Logger
begin

text \<open>
  The helpers of the agent: \<^verbatim>\<open>proxy_agent_shared/src/misc_helpers.rs\<close> (running commands, listing files),
  \<^verbatim>\<open>proxy_agent_shared/src/linux.rs\<close> (system information, the cgroup2 mount), \<^verbatim>\<open>proxy_agent/src/acl.rs\<close> with
  \<^verbatim>\<open>acl/linux_acl.rs\<close> (protection of a directory), \<^verbatim>\<open>telemetry/span.rs\<close> (elapsed times) and the loggers of
  \<^verbatim>\<open>common/logger.rs\<close> and \<^verbatim>\<open>proxy/proxy_connection.rs\<close>. The operating system is a parameter: how a program
  ends when it is run, and what a directory holds.
\<close>

section \<open>Running commands\<close>

text \<open>The end of a program: no exit code when a signal killed it; the outputs as text.\<close>

record command_output =
  co_code :: "int option"
  co_stdout :: string
  co_stderr :: string

text \<open>How running a program with arguments ends; \<^const>\<open>Inl\<close> carries the text of the error of starting it.\<close>

type_synonym runner = "string \<Rightarrow> string list \<Rightarrow> string + command_output"

definition execute_command :: "runner \<Rightarrow> string \<Rightarrow> string list \<Rightarrow> int \<Rightarrow> int \<times> string \<times> string" where
  "execute_command run program args default_error_code =
     (case run program args of
        Inr out \<Rightarrow> ((case co_code out of Some c \<Rightarrow> c | None \<Rightarrow> default_error_code), co_stdout out, co_stderr out)
      | Inl e \<Rightarrow> (default_error_code, [], ''Failed to execute command '' @ program @ '' with error '' @ e))"

definition get_proxy_agent_version :: "runner \<Rightarrow> (string \<Rightarrow> bool) \<Rightarrow> (string \<Rightarrow> bool) \<Rightarrow> string \<Rightarrow> string" where
  "get_proxy_agent_version run exists is_file proxy_agent_exe =
     (if \<not> exists proxy_agent_exe then ''Unknown''
      else if \<not> is_file proxy_agent_exe then ''Unknown''
      else (let out = execute_command run proxy_agent_exe [''--version''] (- 1)
            in if fst out \<noteq> 0 then ''Unknown'' else trim (fst (snd out))))"

section \<open>Directories\<close>

text \<open>\<^verbatim>\<open>try_create_folder\<close>: \<^const>\<open>None\<close> is the panic when the existence cannot be checked.\<close>

definition try_create_folder :: "bool io_result \<Rightarrow> unit io_result \<Rightarrow> unit io_result option" where
  "try_create_folder try_exists create_dir_all =
     (case try_exists of
        Inr exists \<Rightarrow> Some (if \<not> exists then create_dir_all else Inr ())
      | Inl e \<Rightarrow> None)"

record dir_entry =
  de_name :: "string io_result"
  de_is_file :: "bool io_result"

fun collect_files :: "dir_entry list \<Rightarrow> string list io_result" where
  "collect_files [] = Inr []"
| "collect_files (entry # entries) =
     io_bind (de_name entry) (\<lambda>n. io_bind (de_is_file entry) (\<lambda>is_file.
       if \<not> is_file then collect_files entries
       else io_bind (collect_files entries) (\<lambda>ns. Inr (n # ns))))"

text \<open>All paths have the same directory, so that sorting them is sorting the names.\<close>

definition get_files :: "(string \<Rightarrow> dir_entry list io_result) \<Rightarrow> string \<Rightarrow> string list io_result" where
  "get_files read_dir dir =
     io_bind (read_dir dir) (\<lambda>entries. io_bind (collect_files entries) (\<lambda>names. Inr (map (path_join dir) (sort names))))"

section \<open>The system\<close>

definition get_long_os_version :: "string \<Rightarrow> string \<Rightarrow> string" where
  "get_long_os_version os_type version = ''Linux:'' @ os_type @ ''-'' @ version"

definition get_processor_arch :: "string option \<Rightarrow> string" where
  "get_processor_arch architecture = (case architecture of Some arch \<Rightarrow> arch | None \<Rightarrow> ''Unknown'')"

text \<open>
  \<^verbatim>\<open>get_cgroup2_mount_path\<close>: \<open>parse\<close> is \<^verbatim>\<open>serde_json\<close> on the output, giving the targets of the file systems;
  an error is its text, as the caller logs it.
\<close>

definition get_cgroup2_mount_path :: "runner \<Rightarrow> (string \<Rightarrow> string + string list) \<Rightarrow> string + string" where
  "get_cgroup2_mount_path run parse =
     (let out = execute_command run ''findmnt'' [''-t'', ''cgroup2'', ''--json''] (- 1)
      in if fst out \<noteq> 0
         then Inl (''findmnt command failed with exit code '' @ quoted (show_int (fst out)) @ '', stdout :'' @ fst (snd out)
                   @ '', stderr: '' @ snd (snd out) @ ''.'')
         else (case parse (fst (snd out)) of
                 Inl e \<Rightarrow> Inl e
               | Inr targets \<Rightarrow>
                   if 0 < length targets then Inr (targets ! 0)
                   else Inl (''findmnt command cannot find cgroup2 file mount: '' @ fst (snd out) @ ''.'')))"

section \<open>Protecting a directory\<close>

text \<open>The commands that are run, in order; their results are only logged.\<close>

definition linux_acl_directory :: "string \<Rightarrow> (string \<times> string list) list \<Rightarrow> unit io_result \<times> (string \<times> string list) list" where
  "linux_acl_directory dir_to_acl commands =
     (Inr (), commands @ [(''chown'', [''-R'', ''root:root'', dir_to_acl]), (''chmod'', [''-cR'', ''700'', dir_to_acl])])"

definition acl_directory ::
    "(string \<Rightarrow> bool) \<Rightarrow> (string \<Rightarrow> bool) \<Rightarrow> string \<Rightarrow> (string \<times> string list) list \<Rightarrow> unit io_result \<times> (string \<times> string list) list" where
  "acl_directory exists is_dir dir_to_acl commands =
     (if \<not> exists dir_to_acl \<or> \<not> is_dir dir_to_acl then (Inr (), commands)
      else linux_acl_directory dir_to_acl commands)"

section \<open>Spans\<close>

record elapsed_message =
  elapsed :: nat
  em_message :: string

definition dq :: string where "dq = [CHR 0x22]"

definition to_json_string :: "elapsed_message \<Rightarrow> string" where
  "to_json_string m =
     ''{'' @ dq @ ''elapsed'' @ dq @ '':'' @ show_nat (elapsed m) @ '', '' @ dq @ ''message'' @ dq @ '':''
     @ dq @ em_message m @ dq @ ''}''"

definition elapsed_to_string :: "elapsed_message \<Rightarrow> string" where
  "elapsed_to_string m = em_message m @ '' - '' @ show_nat (elapsed m)"

text \<open>A span is the start in milliseconds of a monotonic clock.\<close>

record simple_span =
  span_start :: nat

definition get_elapsed_time_in_millisec :: "nat \<Rightarrow> simple_span \<Rightarrow> nat" where
  "get_elapsed_time_in_millisec now sp = now - span_start sp"

definition get_elapsed_json_message :: "nat \<Rightarrow> string \<Rightarrow> simple_span \<Rightarrow> string" where
  "get_elapsed_json_message now message sp =
     to_json_string \<lparr>elapsed = get_elapsed_time_in_millisec now sp, em_message = message\<rparr>"

text \<open>The event carries the JSON text, the caller gets the plain text; \<^const>\<open>None\<close> is the panic of writing the event.\<close>

definition span_write_event ::
    "event_env \<Rightarrow> nat \<Rightarrow> string \<Rightarrow> string \<Rightarrow> string \<Rightarrow> simple_span \<Rightarrow> logger_state \<Rightarrow> string option \<times> logger_state" where
  "span_write_event env now message method_name module_name sp s =
     (let m = \<lparr>elapsed = get_elapsed_time_in_millisec now sp, em_message = message\<rparr>;
          r = write_event env INFO_LEVEL (to_json_string m) method_name module_name s
      in (if fst r then Some (elapsed_to_string m) else None, snd r))"

section \<open>The loggers of the agent\<close>

definition AGENT_LOGGER_KEY :: string where "AGENT_LOGGER_KEY = ''Agent_Logger''"
definition CONNECTION_LOGGER_KEY :: string where "CONNECTION_LOGGER_KEY = ''Connection_Logger''"

definition agent_log :: "string \<Rightarrow> string \<Rightarrow> string \<Rightarrow> string \<Rightarrow> string \<Rightarrow> logger_manager \<Rightarrow> logger_manager option" where
  "agent_log severity thread_id now time message m =
     manager_write severity thread_id now time AGENT_LOGGER_KEY message m"

definition connection_init_logger :: "string \<Rightarrow> logger_manager \<Rightarrow> logger_manager option" where
  "connection_init_logger log_folder m =
     init_logger CONNECTION_LOGGER_KEY log_folder ''ProxyAgent.Connection.log'' (20 * 1024 * 1024) 30 m"

definition connection_log ::
    "string \<Rightarrow> string \<Rightarrow> string \<Rightarrow> string \<Rightarrow> u128 \<Rightarrow> string \<Rightarrow> logger_manager \<Rightarrow> logger_manager option" where
  "connection_log severity thread_id now time connection_id message m =
     manager_write severity thread_id now time CONNECTION_LOGGER_KEY
       (''Connection:'' @ show_nat (unat connection_id) @ '' - '' @ message) m"

section \<open>Lemmas\<close>

lemma collect_files_Inr:
  "collect_files entries = Inr names \<Longrightarrow>
   names = map (projr \<circ> de_name) (filter (\<lambda>e. de_is_file e = Inr True) entries)
   \<and> (\<forall>e \<in> set entries. is_ok (de_name e) \<and> is_ok (de_is_file e))"
  by (induction entries arbitrary: names) (auto simp: is_ok_iff split: if_splits)

lemma collect_files_ok:
  "\<forall>e \<in> set entries. is_ok (de_name e) \<and> is_ok (de_is_file e) \<Longrightarrow> \<exists>names. collect_files entries = Inr names"
  by (induction entries) (auto simp: is_ok_iff, metis (full_types))

text \<open>
  Listing a directory succeeds exactly when every entry can be read, and gives the regular files, each once, in
  the order of their names.
\<close>

lemma get_files_spec:
  assumes "read_dir dir = Inr entries"
  shows "is_ok (get_files read_dir dir) \<longleftrightarrow> (\<forall>e \<in> set entries. is_ok (de_name e) \<and> is_ok (de_is_file e))"
    and "get_files read_dir dir = Inr paths \<Longrightarrow> \<exists>names. paths = map (path_join dir) names \<and> sorted names
      \<and> mset names = image_mset (projr \<circ> de_name) (filter_mset (\<lambda>e. de_is_file e = Inr True) (mset entries))"
proof -
  show "is_ok (get_files read_dir dir) \<longleftrightarrow> (\<forall>e \<in> set entries. is_ok (de_name e) \<and> is_ok (de_is_file e))"
    using assms collect_files_ok [of entries] collect_files_Inr [of entries]
    by (auto simp: get_files_def is_ok_iff)
  assume "get_files read_dir dir = Inr paths"
  then obtain names where c: "collect_files entries = Inr names" and p: "paths = map (path_join dir) (sort names)"
    using assms by (auto simp: get_files_def)
  from collect_files_Inr [OF c] have "mset (sort names)
      = image_mset (projr \<circ> de_name) (filter_mset (\<lambda>e. de_is_file e = Inr True) (mset entries))"
    by simp
  with p show "\<exists>names. paths = map (path_join dir) names \<and> sorted names
      \<and> mset names = image_mset (projr \<circ> de_name) (filter_mset (\<lambda>e. de_is_file e = Inr True) (mset entries))"
    using sorted_sort by blast
qed

text \<open>The version of an installed agent is unknown unless the program is there, runs and ends with code 0.\<close>

lemma get_proxy_agent_version_spec:
  "get_proxy_agent_version run exists is_file exe =
     (if exists exe \<and> is_file exe
      then (case run exe [''--version''] of
              Inr out \<Rightarrow> if co_code out = Some 0 then trim (co_stdout out) else ''Unknown''
            | Inl _ \<Rightarrow> ''Unknown'')
      else ''Unknown'')"
  by (auto simp: get_proxy_agent_version_def execute_command_def split: sum.splits option.splits)

text \<open>The mount path is the first target of a run of \<^verbatim>\<open>findmnt\<close> that ended with code 0 and whose output parses.\<close>

lemma get_cgroup2_mount_path_Inr:
  "get_cgroup2_mount_path run parse = Inr path \<longleftrightarrow>
     (\<exists>out rest. run ''findmnt'' [''-t'', ''cgroup2'', ''--json''] = Inr out \<and> co_code out = Some 0
        \<and> parse (co_stdout out) = Inr (path # rest))"
proof -
  have hd: "(0 < length ts \<and> ts ! 0 = path) \<longleftrightarrow> (\<exists>rest. ts = path # rest)" for ts :: "string list"
    by (cases ts) auto
  show ?thesis
    using hd
    by (auto simp: get_cgroup2_mount_path_def execute_command_def Let_def split: sum.splits option.splits if_splits)
qed

lemma ascii_char_boundary: "is_ascii s \<Longrightarrow> n \<le> length s \<Longrightarrow> is_char_boundary n s"
  by (auto simp: is_ascii_def is_char_boundary_def is_cont_def list_all_length)
    (metis le_neq_implies_less not_le)

lemma event_message_ascii: "is_ascii m \<Longrightarrow> event_message m = Some (take MAX_MESSAGE_LENGTH m)"
  by (simp add: event_message_def ascii_char_boundary)

lemma span_write_event_ascii:
  assumes "is_ascii message"
  shows "fst (span_write_event env now message method_name module_name sp s)
    = Some (message @ '' - '' @ show_nat (get_elapsed_time_in_millisec now sp))"
proof -
  have "is_ascii (to_json_string \<lparr>elapsed = get_elapsed_time_in_millisec now sp, em_message = message\<rparr>)"
    using assms is_ascii_show_nat [of "get_elapsed_time_in_millisec now sp"]
    by (simp add: to_json_string_def dq_def is_ascii_def)
  then show ?thesis
    by (simp add: span_write_event_def Let_def write_event_def event_message_ascii elapsed_to_string_def
        split: option.split)
qed

end
