(* ===== verification/Agent_Main.thy ===== *)
theory Agent_Main
  imports Misc_Helpers Provision Key_Keeper Proxy_Listener
begin

text \<open>
  The agent as a process: \<^verbatim>\<open>proxy_agent/src/monitor.rs\<close>, \<^verbatim>\<open>service.rs\<close> (starting and stopping the modules),
  the part of \<^verbatim>\<open>key_keeper.rs\<close> that runs before the poll loop, and \<^verbatim>\<open>main.rs\<close> with its exit codes.
\<close>

section \<open>The monitor\<close>

record agent_monitor =
  MONITOR_SHUT_DOWN :: bool
  MONITOR_STATUS_MESSAGE :: string

definition agent_monitor_new :: agent_monitor where
  "agent_monitor_new = \<lparr>MONITOR_SHUT_DOWN = False, MONITOR_STATUS_MESSAGE = ''Monitor thread has not started yet.''\<rparr>"

definition redirect_should_run :: "kk_state \<Rightarrow> config \<Rightarrow> bool" where
  "redirect_should_run kk cfg =
     (if CURRENT_SECURE_CHANNEL_STATE kk \<noteq> DISABLE_STATE then True
      else if get_start_redirector cfg then True else False)"

text \<open>The interval of the loop in seconds.\<close>

definition monitor_interval :: "nat \<Rightarrow> nat" where
  "monitor_interval interval = (if interval = 0 then 60 else interval)"

text \<open>
  \<^verbatim>\<open>monitor::start\<close>: each element of the list is the stop flag at the head of a round; the result is whether the
  thread has ended. What \<^verbatim>\<open>redirect_should_run\<close> guards is an empty block.
\<close>

fun monitor_loop :: "bool list \<Rightarrow> agent_monitor \<Rightarrow> bool \<times> agent_monitor" where
  "monitor_loop [] st = (False, st)"
| "monitor_loop (shutdown # rest) st =
     (if shutdown then (True, st\<lparr>MONITOR_STATUS_MESSAGE := ''Stop signal received, exiting the monitor thread.''\<rparr>)
      else monitor_loop rest st)"

definition monitor_start :: "bool list \<Rightarrow> agent_monitor \<Rightarrow> bool \<times> agent_monitor" where
  "monitor_start rounds st = monitor_loop rounds (st\<lparr>MONITOR_STATUS_MESSAGE := ''Monitor thread started''\<rparr>)"

definition monitor_stop :: "agent_monitor \<Rightarrow> agent_monitor" where
  "monitor_stop st = st\<lparr>MONITOR_SHUT_DOWN := True\<rparr>"

definition monitor_get_status :: "agent_monitor \<Rightarrow> detail_status" where
  "monitor_get_status st =
     \<lparr>ds_status = (if MONITOR_SHUT_DOWN st then STOPPED else RUNNING), ds_message = MONITOR_STATUS_MESSAGE st,
      ds_states = None\<rparr>"

section \<open>The modules of the agent\<close>

text \<open>
  The stop flags are the \<^verbatim>\<open>SHUT_DOWN\<close> statics of the modules; \<open>ag_threads\<close> are the threads that were spawned with
  their arguments, \<open>ag_wakeups\<close> the connections made to end the accept loop.
\<close>

datatype agent_thread =
    PollThread string string u64 bool
  | ListenerThread u16 u16
  | RedirectorThread u16

record agent_state =
  ag_monitor :: agent_monitor
  ag_redirector :: redirector_state
  ag_key_keeper :: kk_state
  ag_key_keeper_stop :: bool
  ag_listener :: listener_state
  ag_listener_stop :: bool
  ag_logger :: logger_state
  ag_reader_stop :: bool
  ag_logs :: logger_manager
  ag_threads :: "agent_thread list"
  ag_wakeups :: "u16 list"
  ag_commands :: "(string \<times> string list) list"

text \<open>The environment of the start: the configuration, the first log line and its header.\<close>

record start_env =
  se_config :: config
  se_version :: string
  se_os_version :: string
  se_elapsed :: nat
  se_thread_id :: string
  se_now :: string
  se_time :: string

definition starting_message :: "start_env \<Rightarrow> string" where
  "starting_message env =
     ''============== GuestProxyAgent ('' @ se_version env @ '') is starting on '' @ se_os_version env
     @ '', elapsed: '' @ show_nat (se_elapsed env)"

text \<open>\<^const>\<open>None\<close> is a panic: the log file cannot be opened.\<close>

definition agent_start_service :: "start_env \<Rightarrow> agent_state \<Rightarrow> agent_state option" where
  "agent_start_service env st =
     (case init_logger AGENT_LOGGER_KEY (logFolder (se_config env)) ''ProxyAgent.log'' (20 * 1024 * 1024) 20 (ag_logs st) of
        None \<Rightarrow> None
      | Some logs1 \<Rightarrow>
          (case agent_log INFO (se_thread_id env) (se_now env) (se_time env) (starting_message env) logs1 of
             None \<Rightarrow> None
           | Some logs2 \<Rightarrow>
               Some (st\<lparr>ag_logs := logs2,
                        ag_threads := ag_threads st
                          @ [PollThread (''http://'' @ WIRE_SERVER_IP @ ''/'') (latchKeyFolder (se_config env))
                               (pollKeyStatusIntervalInSeconds (se_config env)) (get_start_redirector (se_config env)),
                             ListenerThread PROXY_AGENT_PORT 20]\<rparr>)))"

definition listener_stop :: "u16 \<Rightarrow> agent_state \<Rightarrow> agent_state" where
  "listener_stop port st = st\<lparr>ag_listener_stop := True, ag_wakeups := ag_wakeups st @ [port]\<rparr>"

definition agent_stop_service :: "agent_state \<Rightarrow> agent_state" where
  "agent_stop_service st =
     (let st1 = st\<lparr>ag_monitor := monitor_stop (ag_monitor st)\<rparr>;
          st2 = st1\<lparr>ag_redirector := redirector_close PROXY_AGENT_PORT (ag_redirector st1)\<rparr>;
          st3 = st2\<lparr>ag_key_keeper_stop := True\<rparr>;
          st4 = listener_stop PROXY_AGENT_PORT st3;
          st5 = st4\<lparr>ag_logger := logger_stop (ag_logger st4)\<rparr>
      in st5\<lparr>ag_reader_stop := True\<rparr>)"

text \<open>
  The head of \<^verbatim>\<open>poll_secure_channel_status\<close>: the redirector is started if the configuration says so, the key folder
  created and protected. The result is the warning about the protection.
\<close>

definition poll_thread_head ::
    "bool io_result \<Rightarrow> unit io_result \<Rightarrow> (string \<Rightarrow> bool) \<Rightarrow> (string \<Rightarrow> bool) \<Rightarrow> string \<Rightarrow> bool \<Rightarrow> agent_state
       \<Rightarrow> (unit io_result \<times> agent_state) option" where
  "poll_thread_head try_exists create exists is_dir key_dir config_start_redirector st =
     (let st1 = st\<lparr>ag_key_keeper := (ag_key_keeper st)\<lparr>KK_STATUS_MESSAGE := THREAD_STARTED_MESSAGE\<rparr>\<rparr>;
          st2 = (if config_start_redirector then st1\<lparr>ag_threads := ag_threads st1 @ [RedirectorThread PROXY_AGENT_PORT]\<rparr>
                 else st1)
      in case try_create_folder try_exists create of
           None \<Rightarrow> None
         | Some _ \<Rightarrow>
             (let r = acl_directory exists is_dir key_dir (ag_commands st2)
              in Some (fst r, st2\<lparr>ag_commands := snd r\<rparr>)))"

text \<open>The status of the agent as the status thread reads it; \<^const>\<open>None\<close> is the panic of the redirector's status.\<close>

definition agent_status_now :: "string \<Rightarrow> agent_state \<Rightarrow> agent_status option" where
  "agent_status_now ver st =
     map_option (\<lambda>ebpf.
       proxy_agent_status_new ver (monitor_get_status (ag_monitor st))
         (key_keeper_get_status (ag_key_keeper_stop st) (ag_key_keeper st)) ebpf
         (listener_get_status (ag_listener_stop st) (ag_listener st)) (logger_get_status (ag_logger st))
         (CONNECTION_COUNT (ag_listener st)))
       (redirector_get_status (ag_redirector st))"

section \<open>The command line\<close>

datatype main_result =
    Serving agent_state
  | Ended int "string list" agent_state

definition status_wait_time :: "string list \<Rightarrow> nat" where
  "status_wait_time args =
     (if length args \<ge> 4 \<and> to_lowercase (args ! 2) = ''--wait''
      then (case parse_uint 64 (args ! 3) of Some n \<Rightarrow> n | None \<Rightarrow> 0) else 0)"

text \<open>
  \<^verbatim>\<open>--status\<close>: the exit code and the printed lines. Each poll is what it read and the time since the start of the
  process in milliseconds; \<^const>\<open>None\<close> while it is still polling.
\<close>

definition main_status :: "string list \<Rightarrow> ((bool \<times> string) \<times> nat) list \<Rightarrow> (int \<times> string list) option" where
  "main_status args polls =
     (case get_provision_status_wait (Some (1000 * status_wait_time args)) polls of
        None \<Rightarrow> None
      | Some status \<Rightarrow>
          Some (if fst status = False then (1, [])
                else if 0 < length (snd status) then (2, [snd status])
                else (0, [])))"

text \<open>
  \<^verbatim>\<open>main\<close>. \<open>entered\<close> is what the running agent has become when the key press ends the console.
\<close>

definition agent_main ::
    "start_env \<Rightarrow> (agent_state \<Rightarrow> agent_state) \<Rightarrow> ((bool \<times> string) \<times> nat) list \<Rightarrow> string list \<Rightarrow> agent_state
       \<Rightarrow> main_result option" where
  "agent_main env entered polls args st =
     (if length args > 1
      then (let arg = to_lowercase (args ! 1)
            in if arg = ''console''
               then map_option (\<lambda>st'. Ended 0 [''Press Enter to end it.''] (agent_stop_service (entered st'))) (agent_start_service env st)
               else if arg = ''--version'' then Some (Ended 0 [se_version env] st)
               else if arg = ''--status''
               then map_option (\<lambda>r. Ended (fst r) (snd r) st) (main_status args polls)
               else Some (Ended 0 [''Invalid argument: '' @ args ! 1] st))
      else map_option Serving (agent_start_service env st))"

section \<open>Polling the provisioning status\<close>

text \<open>The loop returns the first status that is final or read after the time is over.\<close>

lemma get_provision_status_wait_find:
  "get_provision_status_wait (Some d) polls = map_option fst (find (\<lambda>p. fst (fst p) \<or> d < snd p) polls)"
proof (induction polls)
  case (Cons p polls)
  then show ?case
    by (cases p) (simp add: not_le)
qed simp

text \<open>What the tag says of a run whose files can be written.\<close>

lemma status_tag_run:
  assumes "\<forall>ev \<in> set es. fs_ok (fst ev)"
  shows "(status_tag (fold provision_step_at es provision_state_new) = None
      \<longleftrightarrow> \<not> {RedirectorReady, KeyLatched, ListenerStarted} \<subseteq> snd ` set es \<and> ProvisionTimeup \<notin> snd ` set es)
    \<and> (\<forall>s. status_tag (fold provision_step_at es provision_state_new) = Some s \<longrightarrow> s \<noteq> [] \<longrightarrow>
        (\<exists>env. (env, ProvisionTimeup) \<in> set es \<and> s = failed_status env))"
  using assms
proof (induction es rule: rev_induct)
  case Nil
  show ?case by (simp add: provision_state_new_def)
next
  case (snoc ev es)
  obtain env e where ev: "ev = (env, e)"
    by (cases ev)
  let ?st = "fold provision_step_at es provision_state_new"
  have run: "fold provision_step_at (es @ [ev]) provision_state_new = provision_step env e ?st"
    by (simp add: ev provision_step_at_def del: provision_step.simps)
  have ok: "fs_ok env" and inv: "tag_inv ?st"
    using snoc.prems tag_inv_run [of es] by (simp_all add: ev)
  have state: "STATE (provision_step env e ?st) = 7
      \<longleftrightarrow> {RedirectorReady, KeyLatched, ListenerStarted} \<subseteq> snd ` set (es @ [ev])"
    using provision_run_STATE [of "es @ [ev]"] signal_bits_full [of "map snd (es @ [ev])"]
    unfolding run by (simp del: provision_step.simps)
  have tag: "status_tag (provision_step env e ?st) =
      (if e \<in> {RedirectorReady, KeyLatched, ListenerStarted} \<and> STATE (provision_step env e ?st) = 7 then Some []
       else if e = ProvisionTimeup \<and> STATE ?st \<noteq> 7 then Some (failed_status env) else status_tag ?st)"
    using ok by (cases e) (auto simp: signal_defs provision_timeup_def Let_def agent_frame status_tag_write)
  have old: "STATE ?st = 7 \<longleftrightarrow> {RedirectorReady, KeyLatched, ListenerStarted} \<subseteq> snd ` set es"
    using provision_run_STATE [of es] signal_bits_full [of "map snd es"] by simp
  show ?case
    using snoc.IH snoc.prems inv old state unfolding run tag
    by (cases e) (auto simp: ev tag_inv_def simp del: provision_step.simps)
qed

text \<open>The exit code the events so far stand for.\<close>

definition exit_code :: "bool \<Rightarrow> provision_event set \<Rightarrow> int" where
  "exit_code read_ok events =
     (if read_ok \<and> {RedirectorReady, KeyLatched, ListenerStarted} \<subseteq> events then 0
      else if read_ok \<and> ProvisionTimeup \<in> events then 2 else 1)"

text \<open>A poll: how many events had happened, whether the file could be read, and the time.\<close>

definition poll_of :: "(provision_env \<times> provision_event) list \<Rightarrow> nat \<times> bool \<times> nat \<Rightarrow> (bool \<times> string) \<times> nat" where
  "poll_of es p = (get_provision_status (fst (snd p)) (fold provision_step_at (take (fst p) es) provision_state_new), snd (snd p))"

definition code_at :: "(provision_env \<times> provision_event) list \<Rightarrow> nat \<times> bool \<times> nat \<Rightarrow> int" where
  "code_at es p = exit_code (fst (snd p)) (snd ` set (take (fst p) es))"

lemma poll_of_code:
  assumes "\<forall>ev \<in> set es. fs_ok (fst ev)"
  shows "fst (fst (poll_of es p)) \<longleftrightarrow> code_at es p \<noteq> 1"
    and "fst (fst (poll_of es p)) \<Longrightarrow> snd (fst (poll_of es p)) = [] \<longleftrightarrow> code_at es p = 0"
    and "code_at es p = 2 \<Longrightarrow>
      \<exists>env. (env, ProvisionTimeup) \<in> set (take (fst p) es) \<and> snd (fst (poll_of es p)) = failed_status env"
proof -
  let ?es = "take (fst p) es"
  have ok: "\<forall>ev \<in> set ?es. fs_ok (fst ev)"
    using assms by (meson in_set_takeD)
  have full: "status_tag (fold provision_step_at ?es provision_state_new) = Some []
      \<longleftrightarrow> {RedirectorReady, KeyLatched, ListenerStarted} \<subseteq> snd ` set ?es"
    using tag_inv_run [OF ok] provision_run_STATE [of ?es] signal_bits_full [of "map snd ?es"]
    by (auto simp: tag_inv_def)
  show "fst (fst (poll_of es p)) \<longleftrightarrow> code_at es p \<noteq> 1"
    using status_tag_run [OF ok]
    by (auto simp: poll_of_def code_at_def exit_code_def get_provision_status_def split: option.splits)
  show "snd (fst (poll_of es p)) = [] \<longleftrightarrow> code_at es p = 0" if "fst (fst (poll_of es p))"
    using that full
    by (auto simp: poll_of_def code_at_def exit_code_def get_provision_status_def split: option.splits if_splits)
  show "\<exists>env. (env, ProvisionTimeup) \<in> set ?es \<and> snd (fst (poll_of es p)) = failed_status env" if "code_at es p = 2"
    using that status_tag_run [OF ok] full
    by (auto simp: poll_of_def code_at_def exit_code_def get_provision_status_def split: option.splits if_splits)
qed

section \<open>Stopping\<close>

lemma agent_stop_simps:
  "ag_monitor (agent_stop_service st) = monitor_stop (ag_monitor st)"
  "ag_redirector (agent_stop_service st) = redirector_close PROXY_AGENT_PORT (ag_redirector st)"
  "ag_key_keeper_stop (agent_stop_service st)" "ag_listener_stop (agent_stop_service st)" "ag_reader_stop (agent_stop_service st)"
  "ag_logger (agent_stop_service st) = logger_stop (ag_logger st)"
  "ag_key_keeper (agent_stop_service st) = ag_key_keeper st" "ag_listener (agent_stop_service st) = ag_listener st"
  "ag_wakeups (agent_stop_service st) = ag_wakeups st @ [PROXY_AGENT_PORT]"
  by (simp_all add: agent_stop_service_def listener_stop_def Let_def)

lemma stopped_no_contact:
  assumes "px_redirector env = ag_redirector (agent_stop_service st)"
    and "handle_connection env c = Some c'" and "hs_server c = None"
  shows "hs_server c' = None"
proof (rule ccontr)
  assume "hs_server c' \<noteq> None"
  then obtain server' where "hs_server c' = Some server'"
    by blast
  from host_contact [OF assms(2,3) this] assms(1) show False
    using linux.close_lookup by (auto simp: agent_stop_simps is_ok_iff)
qed

section \<open>Properties\<close>




definition example_agent :: agent_state where
  "example_agent = \<lparr>ag_monitor = agent_monitor_new, ag_redirector = (redirector_state_new [])\<lparr>IS_STARTED := True\<rparr>,
     ag_key_keeper = kk_state_new [], ag_key_keeper_stop = False, ag_listener = listener_state_new,
     ag_listener_stop = False, ag_logger = logger_init, ag_reader_stop = False,
     ag_logs = \<lparr>LOGGERS = [], FIRST_LOGGER_KEY = None, lm_folders = (\<lambda>_. \<lparr>lf_files = [], lf_faults = []\<rparr>)\<rparr>,
     ag_threads = [], ag_wakeups = [], ag_commands = []\<rparr>"


text \<open>The head of the poll thread protects the key folder, if it is there, whatever the commands return.\<close>

lemma poll_thread_head_spec:
  assumes "poll_thread_head (Inr e) create exists is_dir key_dir start st = Some (r, st')"
  shows "r = Inr ()"
    and "ag_commands st' = ag_commands st @
      (if exists key_dir \<and> is_dir key_dir
       then [(''chown'', [''-R'', ''root:root'', key_dir]), (''chmod'', [''-cR'', ''700'', key_dir])] else [])"
    and "ag_threads st' = ag_threads st @ (if start then [RedirectorThread PROXY_AGENT_PORT] else [])"
  using assms
  by (auto simp: poll_thread_head_def try_create_folder_def acl_directory_def linux_acl_directory_def Let_def
      split: if_splits)

end
