(* ===== verification/Host_Clients.thy ===== *)
theory Host_Clients
  imports Http_Stream Telemetry_Event
begin

text \<open>
  \<^verbatim>\<open>proxy_agent/src/host_clients/\<close>: the goal state, the shared configuration and the instance metadata the
  agent reads from the host, and the telemetry it sends. The XML and JSON decoders, the URL crate, the
  cryptography, the clock and the connection are the parameters of a call; so is the current key, which the
  key keeper may change between two calls.
\<close>

section \<open>Goal state and shared configuration\<close>

record machine_field =
  ExpectedState :: string
  StopRolesDeadlineHint :: u64
  LBProbePorts :: "u16 list option"
  ExpectHealthReport :: string

record role_config_field =
  HostingEnvironmentConfig :: string
  SharedConfig :: string
  ExtensionsConfig :: string
  FullConfig :: string
  Certificates :: string
  ConfigName :: string

record role_instance_field =
  InstanceId :: string
  State :: string
  Configuration :: role_config_field

record container_field =
  ContainerId :: string
  RoleInstanceList :: "role_instance_field list"

record goal_state =
  gs_Version :: string
  Incarnation :: u32
  Machine :: machine_field
  Container :: container_field

definition get_container_id :: "goal_state \<Rightarrow> string" where
  "get_container_id g = ContainerId (Container g)"

text \<open>Indexing the list of role instances at 0 panics when it is empty.\<close>

definition get_shared_config_uri :: "goal_state \<Rightarrow> string option" where
  "get_shared_config_uri g =
     (case RoleInstanceList (Container g) of [] \<Rightarrow> None | ri # _ \<Rightarrow> Some (SharedConfig (Configuration ri)))"

record deployment_field =
  dp_name :: string
  dp_guid :: string
  dp_incarnation :: string

record role_field =
  rf_guid :: string
  rf_name :: string

record shared_config_instance =
  sci_id :: string
  sci_address :: string

record shared_config =
  Deployment :: deployment_field
  Role :: role_field
  Instances :: "shared_config_instance list"

definition get_deployment_name :: "shared_config \<Rightarrow> string" where
  "get_deployment_name s = dp_name (Deployment s)"

definition get_role_name :: "shared_config \<Rightarrow> string" where
  "get_role_name s = rf_name (Role s)"

definition get_role_instance_name :: "shared_config \<Rightarrow> string" where
  "get_role_instance_name s = (case Instances s of i # _ \<Rightarrow> sci_id i | [] \<Rightarrow> [])"

section \<open>Instance metadata\<close>

record compute_info =
  ci_location :: string
  ci_name :: string
  ci_resourceGroupName :: string
  ci_subscriptionId :: string
  ci_vmId :: string
  ci_vmSize :: string
  ci_offer :: "string option"

record instance_info =
  compute :: compute_info

definition get_subscription_id :: "instance_info \<Rightarrow> string" where
  "get_subscription_id i = ci_subscriptionId (compute i)"

definition get_vm_id :: "instance_info \<Rightarrow> string" where
  "get_vm_id i = ci_vmId (compute i)"

definition get_resource_group_name :: "instance_info \<Rightarrow> string" where
  "get_resource_group_name i = ci_resourceGroupName (compute i)"

definition get_image_origin :: "instance_info \<Rightarrow> u64" where
  "get_image_origin i =
     (case ci_offer (compute i) of Some offer \<Rightarrow> if offer = [] then 0 else 1 | None \<Rightarrow> 0)"

section \<open>Clients\<close>

text \<open>
  The environment of one call. \<open>ce_before_path\<close> is the text of a URL from its path on
  (\<^verbatim>\<open>url[Position::BeforePath..]\<close>).
\<close>

record 'u client_env =
  ce_urls :: "'u url_lib"
  ce_before_path :: "'u \<Rightarrow> string"
  ce_crypto :: crypto_lib
  ce_now :: string
  ce_connect :: "string \<Rightarrow> u16 \<Rightarrow> tcp_stream io_result"
  ce_key_guid :: string
  ce_key :: string
  ce_xml_goal_state :: "string \<Rightarrow> goal_state option"
  ce_xml_shared_config :: "string \<Rightarrow> shared_config option"
  ce_json_instance_info :: "string \<Rightarrow> instance_info option"

record host_client =
  hc_ip :: string
  hc_port :: u16

definition host_client_new :: "string \<Rightarrow> u16 \<Rightarrow> host_client" where
  "host_client_new ip port = \<lparr>hc_ip = ip, hc_port = port\<rparr>"

definition base_url_text :: "host_client \<Rightarrow> string" where
  "base_url_text c = ''http://'' @ hc_ip c @ '':'' @ show_nat (unat (hc_port c))"

text \<open>The URL of a request; \<^const>\<open>None\<close> is the panic of \<^verbatim>\<open>unwrap\<close> on an address that does not parse.\<close>

definition request_url :: "'u client_env \<Rightarrow> host_client \<Rightarrow> string \<Rightarrow> 'u io_result option" where
  "request_url env c uri =
     (case url_parse (ce_urls env) uri of
        Some u \<Rightarrow> Some (Inr u)
      | None \<Rightarrow>
          (case url_parse (ce_urls env) (base_url_text c) of
             None \<Rightarrow> None
           | Some base \<Rightarrow>
               Some (case url_join (ce_urls env) base uri of Some u \<Rightarrow> Inr u | None \<Rightarrow> Inl InvalidData)))"

definition create_http_request :: "'u client_env \<Rightarrow> host_client \<Rightarrow> string \<Rightarrow> string \<Rightarrow> 'u http_request io_result option" where
  "create_http_request env c m uri =
     map_option (\<lambda>r. io_bind r (\<lambda>u.
       let req = add_request_header ''x-ms-version'' ''2012-11-30'' (request_new (ce_before_path env u) m)
       in new_proxy_agent_request (ce_urls env) (ce_crypto env) (ce_now env) u req (ce_key_guid env) (ce_key env)))
     (request_url env c uri)"

definition TELEMETRY_URI :: string where "TELEMETRY_URI = ''/machine/?comp=telemetrydata''"
definition GOALSTATE_URI :: string where "GOALSTATE_URI = ''/machine?comp=goalstate''"
definition IMDS_URI :: string where "IMDS_URI = ''/metadata/instance?api-version=2018-02-01''"

definition telemetry_headers :: "string \<Rightarrow> request \<Rightarrow> request" where
  "telemetry_headers data r =
     add_request_header EXPECT_HEADER_NAME EXPECT_HEADER_VALUE
       (add_request_header CONTENT_LENGTH_HEADER_NAME (show_nat (length data))
         (add_request_header ''Content-Type'' ''text/xml; charset=utf-8'' r))"

text \<open>
  The exchange on the stream: the head, the host's answer, and after \<^verbatim>\<open>100 Continue\<close> the body and the
  final answer. Errors of writing are ignored. With the result, the stream as it is left.
\<close>

definition telemetry_exchange :: "request \<Rightarrow> string \<Rightarrow> tcp_stream \<Rightarrow> unit io_result \<times> tcp_stream" where
  "telemetry_exchange r data client =
     (let client = snd (write_all (request_to_raw_string r) client)
      in case receive_data_in_string client of
           (Inl e, client) \<Rightarrow> (Inl e, client)
         | (Inr raw, client) \<Rightarrow>
             if is_continue_response (from_raw_data raw)
             then (let client = snd (write_all data client)
                   in case receive_data_in_string client of
                        (Inl e, client) \<Rightarrow> (Inl e, client)
                      | (Inr raw', client) \<Rightarrow>
                          (if resp_status (from_raw_data raw') \<noteq> OK then Inl Other else Inr (), client))
             else (Inl ConnectionRefused, client))"

text \<open>The result with the bytes that went out.\<close>

definition send_telemetry_data :: "'u client_env \<Rightarrow> host_client \<Rightarrow> string \<Rightarrow> (unit io_result \<times> string) option" where
  "send_telemetry_data env c xml_data =
     (if length xml_data = 0 then Some (Inr (), [])
      else (case create_http_request env c ''POST'' TELEMETRY_URI of
              None \<Rightarrow> None
            | Some (Inl e) \<Rightarrow> Some (Inl e, [])
            | Some (Inr hr) \<Rightarrow>
                Some (case ce_connect env (hc_ip c) (hc_port c) of
                        Inl e \<Rightarrow> (Inl e, [])
                      | Inr client \<Rightarrow>
                          (case telemetry_exchange (telemetry_headers xml_data (hr_request hr)) xml_data client of
                             (r, client') \<Rightarrow> (r, tx client')))))"

text \<open>A GET whose body is decoded.\<close>

definition get_and_decode :: "'u client_env \<Rightarrow> (string \<Rightarrow> 'a option) \<Rightarrow> 'u http_request \<Rightarrow> 'a io_result" where
  "get_and_decode env decode hr =
     io_bind (fst (get_response_in_string (ce_urls env) (ce_connect env) hr)) (\<lambda>resp.
       if resp_status resp \<noteq> OK then io_bind (from_utf8 (resp_body resp)) (\<lambda>_. Inl Other)
       else io_bind (from_utf8 (resp_body resp)) (\<lambda>s.
              case decode s of Some x \<Rightarrow> Inr x | None \<Rightarrow> Inl Other))"

definition get_goalstate :: "'u client_env \<Rightarrow> host_client \<Rightarrow> goal_state io_result option" where
  "get_goalstate env c =
     map_option (\<lambda>r. io_bind r (get_and_decode env (ce_xml_goal_state env)))
       (create_http_request env c ''GET'' GOALSTATE_URI)"

definition get_shared_config :: "'u client_env \<Rightarrow> host_client \<Rightarrow> string \<Rightarrow> shared_config io_result option" where
  "get_shared_config env c uri =
     map_option (\<lambda>r. io_bind r (get_and_decode env (ce_xml_shared_config env)))
       (create_http_request env c ''GET'' uri)"

definition get_imds_instance_info :: "'u client_env \<Rightarrow> host_client \<Rightarrow> instance_info io_result option" where
  "get_imds_instance_info env c =
     (let req = request_new IMDS_URI ''GET''
      in case url_parse (ce_urls env) (base_url_text c) of
           None \<Rightarrow> None
         | Some base \<Rightarrow>
             (case url_join (ce_urls env) base IMDS_URI of
                None \<Rightarrow> None
              | Some u \<Rightarrow>
                  Some (io_bind (new_proxy_agent_request (ce_urls env) (ce_crypto env) (ce_now env) u req
                           (ce_key_guid env) (ce_key env))
                         (get_and_decode env (ce_json_instance_info env)))))"

section \<open>What goes out\<close>

lemma telemetry_headers_expect:
  "expect_continue_request (telemetry_headers data r)"
  by (simp add: expect_continue_request_def telemetry_headers_def add_request_header_def has_expect_continue_def
      hm_get_add_header)

lemma receive_data_tx: "receive_data_in_string s = (r, s') \<Longrightarrow> tx s' = tx s \<and> wr s' = wr s"
  by (auto simp: receive_data_in_string_def fill_buf_def buf_reader_new_def consume_def
      split: list.splits read_event.splits sum.splits if_splits prod.splits)

lemma write_all_no_fault: "wr s = [] \<Longrightarrow> snd (write_all d s) = s\<lparr>tx := tx s @ d\<rparr>"
  by (simp add: write_all_def)

lemma telemetry_exchange_out:
  assumes "wr client = []" and "telemetry_exchange r data client = (res, client')"
  shows "tx client' = tx client @ request_to_raw_string r
         \<or> tx client' = tx client @ request_to_raw_string r @ data"
    and "res = Inr () \<Longrightarrow> tx client' = tx client @ request_to_raw_string r @ data"
proof -
  let ?c = "client\<lparr>tx := tx client @ request_to_raw_string r\<rparr>"
  obtain r1 c1 where 1: "receive_data_in_string ?c = (r1, c1)"
    by fastforce
  note t1 = receive_data_tx [OF 1]
  obtain r2 c2 where 2: "receive_data_in_string (c1\<lparr>tx := tx client @ request_to_raw_string r @ data\<rparr>) = (r2, c2)"
    by fastforce
  note t2 = receive_data_tx [OF 2]
  have w: "wr c1 = []"
    using t1 assms(1) by simp
  show "tx client' = tx client @ request_to_raw_string r \<or> tx client' = tx client @ request_to_raw_string r @ data"
    using assms(2) t1 t2
    by (auto simp: telemetry_exchange_def write_all_no_fault assms(1) w Let_def 1 2 split: sum.splits if_splits)
  show "tx client' = tx client @ request_to_raw_string r @ data" if "res = Inr ()"
    using assms(2) t1 t2 that
    by (auto simp: telemetry_exchange_def write_all_no_fault assms(1) w Let_def 1 2 split: sum.splits if_splits)
qed

lemma telemetry_content_length:
  assumes "length data < 2 ^ 64"
  shows "get_content_length (req_headers (telemetry_headers data r)) = Inr (length data)"
proof -
  have ne: "to_lowercase EXPECT_HEADER_NAME \<noteq> to_lowercase CONTENT_LENGTH_HEADER_NAME"
    by code_simp
  let ?h = "req_headers (add_request_header ''Content-Type'' ''text/xml; charset=utf-8'' r)"
  have "get_content_length (req_headers (telemetry_headers data r))
      = get_content_length (add_header CONTENT_LENGTH_HEADER_NAME (show_nat (length data)) ?h)"
    using ne by (simp add: telemetry_headers_def add_request_header_def get_content_length_def hm_get_add_header)
  with assms show ?thesis
    using content_length_spec [of ?h "length data"] by simp
qed

text \<open>A connection on which every write succeeds and nothing was written before.\<close>

definition fresh_connections :: "'u client_env \<Rightarrow> bool" where
  "fresh_connections env \<longleftrightarrow> (\<forall>h p s. ce_connect env h p = Inr s \<longrightarrow> wr s = [] \<and> tx s = [])"

section \<open>Properties\<close>

text \<open>On a connection whose writes succeed, \<^verbatim>\<open>send_telemetry_data\<close> sends nothing, the head of a request, or
  the head followed by the document; the head announces the length of the document and asks for
  \<^verbatim>\<open>100 Continue\<close>; and the call succeeds only after the whole document went out.\<close>

theorem telemetry_delivery:
  assumes "send_telemetry_data env c xml = Some (res, sent)" and "fresh_connections env" and "length xml < 2 ^ 64"
    and "sent \<noteq> [] \<or> (res = Inr () \<and> xml \<noteq> [])"
  shows "\<exists>r. expect_continue_request r \<and> get_content_length (req_headers r) = Inr (length xml)
      \<and> req_method r = ''POST''
      \<and> (sent = request_to_raw_string r \<or> sent = request_to_raw_string r @ xml)
      \<and> (res = Inr () \<longrightarrow> sent = request_to_raw_string r @ xml)"
proof -
  from assms(1,4) have "xml \<noteq> []"
    by (auto simp: send_telemetry_data_def split: if_splits)
  with assms(1,4) obtain hr where hr: "create_http_request env c ''POST'' TELEMETRY_URI = Some (Inr hr)"
    by (auto simp: send_telemetry_data_def split: option.splits sum.splits)
  let ?r = "telemetry_headers xml (hr_request hr)"
  from assms(1,4) \<open>xml \<noteq> []\<close> hr obtain client client' where
    cl: "ce_connect env (hc_ip c) (hc_port c) = Inr client" and
    ex: "telemetry_exchange ?r xml client = (res, client')" and sent: "sent = tx client'"
    by (auto simp: send_telemetry_data_def split: sum.splits prod.splits)
  from assms(2) cl have f: "wr client = []" "tx client = []"
    by (auto simp: fresh_connections_def)
  have "req_method ?r = ''POST''"
    using hr
    by (auto simp: create_http_request_def new_proxy_agent_request_def http_request_new_def telemetry_headers_def
        add_request_header_def request_new_def request_create_def Let_def split: if_splits)
  then show ?thesis
    using telemetry_exchange_out [OF f(1) ex] telemetry_headers_expect [of xml "hr_request hr"]
      telemetry_content_length [OF assms(3), of "hr_request hr"] f(2) sent
    by (intro exI [of _ ?r]) auto
qed

definition example_continue :: string where "example_continue = ''HTTP/1.1 100 Continue'' @ DOUBLE_CRLF"
definition example_ok :: string where "example_ok = ''HTTP/1.1 200 OK'' @ DOUBLE_CRLF"

definition example_answers :: tcp_stream where
  "example_answers = \<lparr>rx = [Chunk example_continue, Chunk example_ok], wr = [], tx = []\<rparr>"

text \<open>A URL of this example is its text.\<close>

definition example_client_env :: "string client_env" where
  "example_client_env =
     \<lparr>ce_urls = \<lparr>url_parse = Some, url_join = (\<lambda>u s. Some (u @ s)),
        url_path = (\<lambda>u. u), url_query_pairs = (\<lambda>u. []), url_host_str = (\<lambda>u. Some ''h''),
        url_port_or_known_default = (\<lambda>u. Some 80)\<rparr>,
      ce_before_path = (\<lambda>u. u), ce_crypto = example_crypto, ce_now = ''now'',
      ce_connect = (\<lambda>h p. Inr example_answers), ce_key_guid = [], ce_key = [],
      ce_xml_goal_state = (\<lambda>s. None), ce_xml_shared_config = (\<lambda>s. None), ce_json_instance_info = (\<lambda>s. None)\<rparr>"

lemma receive_chunk:
  assumes "d \<noteq> []" and "from_utf8 d = Inr d"
  shows "receive_data_in_string \<lparr>rx = Chunk d # es, wr = [], tx = t\<rparr> = (Inr d, \<lparr>rx = es, wr = [], tx = t\<rparr>)"
  using assms by (simp add: receive_data_in_string_def fill_buf_def buf_reader_new_def consume_def)

lemma example_answers_exchange: "fst (telemetry_exchange r data example_answers) = Inr ()"
proof -
  have u: "from_utf8 example_continue = Inr example_continue" "from_utf8 example_ok = Inr example_ok"
    "example_continue \<noteq> []" "example_ok \<noteq> []"
    by code_simp+
  have c: "is_continue_response (from_raw_data example_continue)" "resp_status (from_raw_data example_ok) = OK"
    by code_simp+
  show ?thesis
    by (simp add: telemetry_exchange_def example_answers_def write_all_def receive_chunk u c Let_def)
qed

lemma example_send:
  "\<exists>sent. send_telemetry_data example_client_env c ''<x/>'' = Some (Inr (), sent)"
proof -
  have "ce_key example_client_env = []" "request_url example_client_env c TELEMETRY_URI = Some (Inr TELEMETRY_URI)"
    "ce_connect example_client_env (hc_ip c) (hc_port c) = Inr example_answers"
    by (simp_all add: request_url_def example_client_env_def)
  then show ?thesis
    using example_answers_exchange
    by (simp add: send_telemetry_data_def create_http_request_def new_proxy_agent_request_def Let_def split: prod.split)
      (metis fst_conv surj_pair)
qed

theorem telemetry_delivery_witness:
  "\<exists>r sent. send_telemetry_data example_client_env (host_client_new WIRE_SERVER_IP WIRE_SERVER_PORT) ''<x/>'' = Some (Inr (), sent)
     \<and> expect_continue_request r \<and> sent = request_to_raw_string r @ ''<x/>''"
proof -
  obtain sent where s: "send_telemetry_data example_client_env (host_client_new WIRE_SERVER_IP WIRE_SERVER_PORT) ''<x/>'' = Some (Inr (), sent)"
    using example_send by blast
  have "fresh_connections example_client_env"
    by (auto simp: fresh_connections_def example_client_env_def example_answers_def)
  with telemetry_delivery [OF s] obtain r where "expect_continue_request r" "sent = request_to_raw_string r @ ''<x/>''"
    by auto
  with s show ?thesis by blast
qed

end
