(* ===== verification/Event_Reader.thy ===== *)
theory Event_Reader
  imports Host_Clients Event_Logger
begin

text \<open>
  \<^verbatim>\<open>proxy_agent/src/telemetry/event_reader.rs\<close>: the thread that reads the event files, cuts the events into
  documents of less than 64 KB, sends them to the wire server and removes the files. The requests of the
  thread are numbered; \<open>re_client n\<close> is the environment the \<open>n\<close>-th of them meets. \<^const>\<open>None\<close> is a panic of the
  thread.
\<close>

section \<open>Documents\<close>

definition MAX_MESSAGE_SIZE :: nat where "MAX_MESSAGE_SIZE = 1024 * 64"

text \<open>
  The inner loop of \<^verbatim>\<open>send_events\<close>: events are popped from the end of the vector until the document would
  reach the limit. The event that does not fit goes back, unless it is alone in the document: then it is
  dropped.
\<close>

function fill_batch ::
    "sys_info \<Rightarrow> vm_meta_data option \<Rightarrow> telemetry_event list \<Rightarrow> event list \<Rightarrow> telemetry_event list \<times> event list" where
  "fill_batch sys m telemetry_data events =
     (if events = [] then (telemetry_data, [])
      else
        (let event = last events; events' = butlast events;
             data = add_event telemetry_data (from_event_log sys m event)
         in if MAX_MESSAGE_SIZE \<le> get_size data
            then (let data' = snd (remove_last_event data)
                  in if event_count data' = 0 then (data', events') else (data', events' @ [event]))
            else fill_batch sys m data events'))"
  by pat_completeness auto
termination
  by (relation "measure (\<lambda>(sys, m, d, es). length es)") auto

declare fill_batch.simps [simp del]

lemma fill_batch_length: "length (snd (fill_batch sys m d es)) \<le> length es"
  by (induction sys m d es rule: fill_batch.induct)
    (subst fill_batch.simps, force simp: Let_def)

lemma fill_batch_progress: "es \<noteq> [] \<Longrightarrow> length (snd (fill_batch sys m [] es)) < length es"
  using fill_batch_length [of sys m "add_event [] (from_event_log sys m (last es))" "butlast es"]
  by (subst fill_batch.simps) (auto simp: Let_def add_event_def remove_last_event_def event_count_def le_less_trans)

text \<open>The documents \<^verbatim>\<open>send_events\<close> hands to \<^verbatim>\<open>send_data_to_wire_server\<close>, in order.\<close>

function event_batches :: "sys_info \<Rightarrow> vm_meta_data option \<Rightarrow> event list \<Rightarrow> telemetry_event list list" where
  "event_batches sys m events =
     (if events = [] then []
      else (case fill_batch sys m [] events of (data, events') \<Rightarrow> data # event_batches sys m events'))"
  by pat_completeness auto
termination
  by (relation "measure (\<lambda>(sys, m, es). length es)") (auto, metis fill_batch_progress snd_conv)

declare event_batches.simps [simp del]

lemma event_batches_Nil [simp]: "event_batches sys m [] = []"
  by (simp add: event_batches.simps)

section \<open>The thread\<close>

record 'u reader_env =
  re_sys :: sys_info
  re_client :: "nat \<Rightarrow> 'u client_env"
  re_read :: "string \<Rightarrow> event list io_result"

text \<open>
  The metadata cell, the number of requests made so far, and the effects: the documents sent with their
  results, the files whose removal was attempted.
\<close>

record reader_state =
  VM_META_DATA :: "vm_meta_data option"
  rs_requests :: nat
  rs_sent :: "(string \<times> unit io_result) list"
  rs_removed :: "string list"

definition reader_state_new :: reader_state where
  "reader_state_new = \<lparr>VM_META_DATA = None, rs_requests = 0, rs_sent = [], rs_removed = []\<rparr>"

definition wire_server :: host_client where
  "wire_server = host_client_new WIRE_SERVER_IP WIRE_SERVER_PORT"

definition imds :: host_client where
  "imds = host_client_new IMDS_IP IMDS_PORT"

text \<open>At most five attempts, the loop over \<^verbatim>\<open>[0; 5]\<close>.\<close>

primrec send_attempts :: "'u reader_env \<Rightarrow> string \<Rightarrow> nat \<Rightarrow> reader_state \<Rightarrow> reader_state option" where
  "send_attempts env xml 0 s = Some s"
| "send_attempts env xml (Suc n) s =
     (case send_telemetry_data (re_client env (rs_requests s)) wire_server xml of
        None \<Rightarrow> None
      | Some (r, _) \<Rightarrow>
          (let s' = s\<lparr>rs_requests := Suc (rs_requests s), rs_sent := rs_sent s @ [(xml, r)]\<rparr>
           in case r of Inr _ \<Rightarrow> Some s' | Inl _ \<Rightarrow> send_attempts env xml n s'))"

declare send_attempts.simps [simp del]

definition send_data_to_wire_server :: "'u reader_env \<Rightarrow> telemetry_event list \<Rightarrow> reader_state \<Rightarrow> reader_state option" where
  "send_data_to_wire_server env telemetry_data s =
     (if event_count telemetry_data = 0 then Some s else send_attempts env (to_xml telemetry_data) 5 s)"

primrec send_all :: "'u reader_env \<Rightarrow> telemetry_event list list \<Rightarrow> reader_state \<Rightarrow> reader_state option" where
  "send_all env [] s = Some s"
| "send_all env (d # ds) s = Option.bind (send_data_to_wire_server env d s) (send_all env ds)"

definition send_events :: "'u reader_env \<Rightarrow> event list \<Rightarrow> reader_state \<Rightarrow> reader_state option" where
  "send_events env events s = send_all env (event_batches (re_sys env) (VM_META_DATA s) events) s"

definition clean_files :: "string \<Rightarrow> reader_state \<Rightarrow> reader_state" where
  "clean_files file s = s\<lparr>rs_removed := rs_removed s @ [file]\<rparr>"

primrec process_events_and_clean :: "'u reader_env \<Rightarrow> string list \<Rightarrow> reader_state \<Rightarrow> (nat \<times> reader_state) option" where
  "process_events_and_clean env [] s = Some (0, s)"
| "process_events_and_clean env (file # files) s =
     (case re_read env file of
        Inl _ \<Rightarrow> process_events_and_clean env files s
      | Inr events \<Rightarrow>
          (case send_events env events s of
             None \<Rightarrow> None
           | Some s1 \<Rightarrow>
               (case process_events_and_clean env files (clean_files file s1) of
                  None \<Rightarrow> None
                | Some (n, s2) \<Rightarrow> Some (length events + n, s2))))"

text \<open>The three requests of \<^verbatim>\<open>update_vm_meta_data\<close>, each only when those before it succeeded.\<close>

definition update_vm_meta_data :: "'u reader_env \<Rightarrow> reader_state \<Rightarrow> (unit io_result \<times> reader_state) option" where
  "update_vm_meta_data env s =
     (let k = rs_requests s
      in case get_goalstate (re_client env k) wire_server of
           None \<Rightarrow> None
         | Some (Inl e) \<Rightarrow> Some (Inl e, s\<lparr>rs_requests := k + 1\<rparr>)
         | Some (Inr gs) \<Rightarrow>
             (case get_shared_config_uri gs of
                None \<Rightarrow> None
              | Some uri \<Rightarrow>
                  (case get_shared_config (re_client env (k + 1)) wire_server uri of
                     None \<Rightarrow> None
                   | Some (Inl e) \<Rightarrow> Some (Inl e, s\<lparr>rs_requests := k + 2\<rparr>)
                   | Some (Inr sc) \<Rightarrow>
                       (case get_imds_instance_info (re_client env (k + 2)) imds of
                          None \<Rightarrow> None
                        | Some (Inl e) \<Rightarrow> Some (Inl e, s\<lparr>rs_requests := k + 3\<rparr>)
                        | Some (Inr ii) \<Rightarrow>
                            Some (Inr (), s\<lparr>rs_requests := k + 3, VM_META_DATA := Some
                              \<lparr>vm_container_id = get_container_id gs, vm_tenant_name = get_deployment_name sc,
                               vm_role_name = get_role_name sc, vm_role_instance_name = get_role_instance_name sc,
                               vm_subscription_id = get_subscription_id ii,
                               vm_resource_group_name = get_resource_group_name ii, vm_vm_id = get_vm_id ii,
                               vm_image_origin = get_image_origin ii\<rparr>\<rparr>)))))"

text \<open>
  One round of the loop of \<^verbatim>\<open>start\<close>, after the stop signal was found clear: the metadata, then the files,
  which \<open>files\<close> lists. With the new state, the report that is written as an event.
\<close>

definition report_text :: "nat \<Rightarrow> nat \<Rightarrow> string" where
  "report_text events_sent file_count =
     ''Send '' @ show_nat events_sent @ '' events from '' @ show_nat file_count @ '' files''"

definition reader_round :: "'u reader_env \<Rightarrow> string list io_result \<Rightarrow> reader_state \<Rightarrow> (string option \<times> reader_state) option" where
  "reader_round env files s =
     (case update_vm_meta_data env s of
        None \<Rightarrow> None
      | Some (_, s1) \<Rightarrow>
          (case VM_META_DATA s1 of
             None \<Rightarrow> Some (None, s1)
           | Some _ \<Rightarrow>
               (case files of
                  Inl _ \<Rightarrow> Some (None, s1)
                | Inr fs \<Rightarrow>
                    (case process_events_and_clean env fs s1 of
                       None \<Rightarrow> None
                     | Some (n, s2) \<Rightarrow> Some (Some (report_text n (length fs)), s2)))))"

text \<open>
  The loop of \<^verbatim>\<open>start\<close>: each round sees the stop signal and the listing of the directory. The delay, the
  thread priority and the sleeps have no effect on the state. The result is the list of reports and the state.
\<close>

primrec reader_start ::
    "'u reader_env \<Rightarrow> (bool \<times> string list io_result) list \<Rightarrow> reader_state \<Rightarrow> (string list \<times> reader_state) option" where
  "reader_start env [] s = Some ([], s)"
| "reader_start env (ob # obs) s =
     (if fst ob then Some ([], s)
      else (case reader_round env (snd ob) s of
              None \<Rightarrow> None
            | Some (report, s1) \<Rightarrow>
                (case reader_start env obs s1 of
                   None \<Rightarrow> None
                 | Some (reports, s2) \<Rightarrow> Some (case report of Some r \<Rightarrow> r # reports | None \<Rightarrow> reports, s2))))"

section \<open>Batches\<close>

text \<open>The reference: the events that fit into a document of their own, newest first.\<close>

definition fits_alone :: "sys_info \<Rightarrow> vm_meta_data option \<Rightarrow> event \<Rightarrow> bool" where
  "fits_alone sys m e \<longleftrightarrow> get_size [from_event_log sys m e] < MAX_MESSAGE_SIZE"

lemma get_size_mono: "get_size [e] \<le> get_size (d @ [e])"
  by (simp add: get_size_def to_xml_def)

lemma filter_rev_last:
  "es \<noteq> [] \<Longrightarrow> filter P (rev es) = (if P (last es) then [last es] else []) @ filter P (rev (butlast es))"
  by (induction es rule: rev_induct) simp_all

lemma fill_batch_spec:
  assumes "fill_batch sys m d es = (d', es')" and "d = [] \<or> get_size d < MAX_MESSAGE_SIZE"
  shows "d' @ map (from_event_log sys m) (filter (fits_alone sys m) (rev es'))
       = d @ map (from_event_log sys m) (filter (fits_alone sys m) (rev es))
     \<and> (d' = [] \<or> get_size d' < MAX_MESSAGE_SIZE)"
  using assms
proof (induction sys m d es arbitrary: d' es' rule: fill_batch.induct)
  case (1 sys m d es)
  show ?case
  proof (cases "es = []")
    case True
    with 1 show ?thesis by (simp add: fill_batch.simps)
  next
    case False
    let ?e = "last es" and ?t = "from_event_log sys m (last es)"
    note es = filter_rev_last [OF False, of "fits_alone sys m"]
    show ?thesis
    proof (cases "MAX_MESSAGE_SIZE \<le> get_size (add_event d ?t)")
      case True
      then have "d' = d" and es': "es' = (if d = [] then butlast es else es)"
        using 1(2) False
        by (auto simp: fill_batch.simps [of sys m d es] Let_def add_event_def remove_last_event_def event_count_def
            split: if_splits)
      moreover have "\<not> fits_alone sys m ?e" if "d = []"
        using True that by (simp add: fits_alone_def add_event_def)
      ultimately show ?thesis
        using es 1(3) by (auto simp: es')
    next
      case small: False
      then have "fill_batch sys m (add_event d ?t) (butlast es) = (d', es')"
        using 1(2) False by (simp add: fill_batch.simps [of sys m d es] Let_def)
      with small have "d' @ map (from_event_log sys m) (filter (fits_alone sys m) (rev es'))
            = add_event d ?t @ map (from_event_log sys m) (filter (fits_alone sys m) (rev (butlast es)))
          \<and> (d' = [] \<or> get_size d' < MAX_MESSAGE_SIZE)"
        using False by (intro 1(1)) auto
      moreover have "fits_alone sys m ?e"
        using small get_size_mono [of ?t d] by (simp add: fits_alone_def add_event_def)
      ultimately show ?thesis
        using es by (simp add: add_event_def)
    qed
  qed
qed

lemma event_batches_concat:
  "concat (event_batches sys m es) = map (from_event_log sys m) (filter (fits_alone sys m) (rev es))"
proof (induction sys m es rule: event_batches.induct)
  case (1 sys m es)
  show ?case
  proof (cases "es = []")
    case True
    then show ?thesis by (simp add: event_batches.simps)
  next
    case False
    obtain d es' where f: "fill_batch sys m [] es = (d, es')"
      by fastforce
    with False have "event_batches sys m es = d # event_batches sys m es'"
      by (subst event_batches.simps) simp
    with 1 [OF False f [symmetric]] fill_batch_spec [OF f] show ?thesis by simp
  qed
qed

lemma event_batches_each:
  "length (event_batches sys m es) \<le> length es
   \<and> (\<forall>d \<in> set (event_batches sys m es). d = [] \<or> get_size d < MAX_MESSAGE_SIZE)"
proof (induction sys m es rule: event_batches.induct)
  case (1 sys m es)
  show ?case
  proof (cases "es = []")
    case True
    then show ?thesis by (simp add: event_batches.simps)
  next
    case False
    obtain d es' where f: "fill_batch sys m [] es = (d, es')"
      by fastforce
    with False have "event_batches sys m es = d # event_batches sys m es'"
      by (subst event_batches.simps) simp
    moreover have "length es' < length es"
      using fill_batch_progress [OF False, of sys m] f by simp
    ultimately show ?thesis
      using 1 [OF False f [symmetric]] fill_batch_spec [OF f] by auto
  qed
qed

section \<open>Delivery\<close>

text \<open>The attempts made for one document: all but the last failed, and the last succeeded or was the fifth.\<close>

definition attempt_log :: "nat \<Rightarrow> string \<Rightarrow> (string \<times> unit io_result) list \<Rightarrow> bool" where
  "attempt_log k xml l \<longleftrightarrow> 1 \<le> length l \<and> length l \<le> k \<and> (\<forall>x \<in> set l. fst x = xml)
     \<and> (\<forall>x \<in> set (butlast l). \<not> is_ok (snd x)) \<and> (length l = k \<or> is_ok (snd (last l)))"

lemma send_attempts_log:
  "send_attempts env xml (Suc n) s = Some s' \<Longrightarrow>
   \<exists>l. attempt_log (Suc n) xml l \<and> rs_sent s' = rs_sent s @ l
     \<and> rs_removed s' = rs_removed s \<and> VM_META_DATA s' = VM_META_DATA s"
proof (induction n arbitrary: s)
  case 0
  then show ?case
    by (auto simp: send_attempts.simps attempt_log_def Let_def split: option.splits sum.splits)
next
  case (Suc n)
  let ?c = "re_client env (rs_requests s)"
  from Suc.prems obtain r out where r: "send_telemetry_data ?c wire_server xml = Some (r, out)"
    unfolding send_attempts.simps(2) [of env xml "Suc n"] by (auto split: option.splits)
  let ?s = "s\<lparr>rs_requests := Suc (rs_requests s), rs_sent := rs_sent s @ [(xml, r)]\<rparr>"
  show ?case
  proof (cases r)
    case (Inl e)
    with Suc.prems r have "send_attempts env xml (Suc n) ?s = Some s'"
      unfolding send_attempts.simps(2) [of env xml "Suc n" s] by (simp add: Let_def)
    from Suc.IH [OF this] obtain l where l: "attempt_log (Suc n) xml l" "rs_sent s' = rs_sent ?s @ l"
      "rs_removed s' = rs_removed s" "VM_META_DATA s' = VM_META_DATA s"
      by auto
    then have "attempt_log (Suc (Suc n)) xml ((xml, r) # l)"
      using Inl by (auto simp: attempt_log_def)
    with l show ?thesis
      by (intro exI [of _ "(xml, r) # l"]) simp
  next
    case (Inr u)
    with Suc.prems r have "s' = ?s"
      unfolding send_attempts.simps(2) [of env xml "Suc n" s] by (simp add: Let_def)
    with Inr show ?thesis
      by (intro exI [of _ "[(xml, r)]"]) (simp add: attempt_log_def)
  qed
qed

lemma send_all_log:
  "send_all env ds s = Some s' \<Longrightarrow>
   \<exists>ls. list_all2 (attempt_log 5) (map to_xml (filter (\<lambda>d. d \<noteq> []) ds)) ls \<and> rs_sent s' = rs_sent s @ concat ls
     \<and> rs_removed s' = rs_removed s \<and> VM_META_DATA s' = VM_META_DATA s"
proof (induction ds arbitrary: s)
  case Nil
  then show ?case by simp
next
  case (Cons d ds)
  from Cons.prems obtain s1 where s1: "send_data_to_wire_server env d s = Some s1" "send_all env ds s1 = Some s'"
    by (auto simp: bind_eq_Some_conv)
  from Cons.IH [OF s1(2)] obtain ls where ls: "list_all2 (attempt_log 5) (map to_xml (filter (\<lambda>d. d \<noteq> []) ds)) ls"
    "rs_sent s' = rs_sent s1 @ concat ls" "rs_removed s' = rs_removed s1" "VM_META_DATA s' = VM_META_DATA s1"
    by blast
  show ?case
  proof (cases "d = []")
    case True
    with s1(1) ls show ?thesis
      by (auto simp: send_data_to_wire_server_def event_count_def)
  next
    case False
    then obtain l where "attempt_log 5 (to_xml d) l" "rs_sent s1 = rs_sent s @ l" "rs_removed s1 = rs_removed s"
      "VM_META_DATA s1 = VM_META_DATA s"
      using s1(1) send_attempts_log [of env "to_xml d" 4 s s1]
      by (auto simp: send_data_to_wire_server_def event_count_def eval_nat_numeral)
    with ls False show ?thesis
      by (intro exI [of _ "l # ls"]) simp
  qed
qed

text \<open>The documents of a list of files.\<close>

definition file_events :: "'u reader_env \<Rightarrow> string \<Rightarrow> event list" where
  "file_events env file = (case re_read env file of Inr events \<Rightarrow> events | Inl _ \<Rightarrow> [])"

definition documents :: "'u reader_env \<Rightarrow> vm_meta_data option \<Rightarrow> string list \<Rightarrow> telemetry_event list list" where
  "documents env m files =
     filter (\<lambda>d. d \<noteq> []) (concat (map (\<lambda>file. event_batches (re_sys env) m (file_events env file)) files))"

lemma process_log:
  "process_events_and_clean env files s = Some (n, s') \<Longrightarrow>
   n = sum_list (map (length \<circ> file_events env) files)
   \<and> rs_removed s' = rs_removed s @ filter (is_ok \<circ> re_read env) files \<and> VM_META_DATA s' = VM_META_DATA s
   \<and> (\<exists>ls. list_all2 (attempt_log 5) (map to_xml (documents env (VM_META_DATA s) files)) ls
        \<and> rs_sent s' = rs_sent s @ concat ls)"
proof (induction files arbitrary: s n)
  case Nil
  then show ?case by (simp add: documents_def)
next
  case (Cons fl fls)
  show ?case
  proof (cases "re_read env fl")
    case (Inl e)
    with Cons show ?thesis
      by (simp add: documents_def file_events_def)
  next
    case (Inr events)
    with Cons.prems obtain s1 k where s1: "send_events env events s = Some s1"
      and k: "process_events_and_clean env fls (clean_files fl s1) = Some (k, s')" and n: "n = length events + k"
      by (auto split: option.splits)
    from send_all_log [OF s1 [unfolded send_events_def]] obtain l1 where
      l1: "list_all2 (attempt_log 5)
          (map to_xml (filter (\<lambda>d. d \<noteq> []) (event_batches (re_sys env) (VM_META_DATA s) events))) l1"
        "rs_sent s1 = rs_sent s @ concat l1" "rs_removed s1 = rs_removed s" "VM_META_DATA s1 = VM_META_DATA s"
      by blast
    with Cons.IH [OF k] obtain l2 where
      l2: "list_all2 (attempt_log 5) (map to_xml (documents env (VM_META_DATA s) fls)) l2"
        "rs_sent s' = rs_sent s1 @ concat l2"
      by (auto simp: clean_files_def)
    have "list_all2 (attempt_log 5) (map to_xml (documents env (VM_META_DATA s) (fl # fls))) (l1 @ l2)"
      using l1(1) l2(1) by (simp add: documents_def file_events_def Inr list_all2_appendI)
    then show ?thesis
      using Cons.IH [OF k] l1 l2 n Inr
      by (auto simp: clean_files_def file_events_def intro!: exI [of _ "l1 @ l2"])
  qed
qed

lemma update_vm_meta_data_frame:
  "update_vm_meta_data env s = Some (r, s') \<Longrightarrow> rs_sent s' = rs_sent s \<and> rs_removed s' = rs_removed s
     \<and> (case r of Inl _ \<Rightarrow> VM_META_DATA s' = VM_META_DATA s | Inr _ \<Rightarrow> VM_META_DATA s' \<noteq> None)"
  by (auto simp: update_vm_meta_data_def Let_def split: option.splits sum.splits)

lemma reader_round_metadata:
  assumes "reader_round env files s = Some (report, s')"
  shows "(VM_META_DATA s \<noteq> None \<longrightarrow> VM_META_DATA s' \<noteq> None)
     \<and> (VM_META_DATA s' = None \<longrightarrow> rs_sent s' = rs_sent s \<and> rs_removed s' = rs_removed s \<and> report = None)"
proof -
  from assms obtain r s1 where u: "update_vm_meta_data env s = Some (r, s1)"
    by (auto simp: reader_round_def split: option.splits)
  note f = update_vm_meta_data_frame [OF u]
  show ?thesis
  proof (cases "VM_META_DATA s1")
    case None
    with assms u f show ?thesis
      by (auto simp: reader_round_def split: sum.splits)
  next
    case (Some m)
    have "VM_META_DATA s' = Some m"
      using assms u Some process_log [of env _ s1]
      by (auto simp: reader_round_def split: sum.splits option.splits)
    then show ?thesis by simp
  qed
qed

section \<open>Properties\<close>

text \<open>C34: Cutting the events of a file into documents terminates and loses nothing that can be sent: the
  documents, one after the other, hold exactly the events that fit into a document of their own, newest first,
  each once; every document is smaller than 64 KB, and there are at most as many as events.\<close>

theorem event_batches_spec:
  "concat (event_batches sys m es) = map (from_event_log sys m) (filter (fits_alone sys m) (rev es))
   \<and> list_all (\<lambda>d. d = [] \<or> length (to_xml d) < 65536) (event_batches sys m es)
   \<and> length (event_batches sys m es) \<le> length es"
  using event_batches_concat event_batches_each by (simp add: list_all_iff get_size_def MAX_MESSAGE_SIZE_def)

text \<open>Processing the event files sends, in order, every document of every readable file: each is tried
  until it is accepted, at most five times. It removes exactly the readable files and counts their events, and
  leaves the metadata as it is.\<close>

theorem process_events_spec:
  assumes "process_events_and_clean env files s = Some (n, s')"
  shows "n = sum_list (map (length \<circ> file_events env) files)
     \<and> rs_removed s' = rs_removed s @ filter (is_ok \<circ> re_read env) files \<and> VM_META_DATA s' = VM_META_DATA s
     \<and> (\<exists>ls. list_all2 (attempt_log 5) (map to_xml (documents env (VM_META_DATA s) files)) ls
          \<and> rs_sent s' = rs_sent s @ concat ls)"
  using process_log [OF assms] .

definition example_event :: event where
  "example_event = event_new \<lparr>ev_version = ''1.0'', ev_pid = 7, ev_tid = ''8'', ev_time = ''t''\<rparr> INFO_LEVEL ''m'' ''f'' ''o''"

definition example_reader :: "(string \<Rightarrow> u16 \<Rightarrow> tcp_stream io_result) \<Rightarrow> string reader_env" where
  "example_reader connect =
     \<lparr>re_sys = \<lparr>si_os_version = ''v'', si_keyword_name = ''k'', si_ram_in_mb = 1, si_cpu_count = 1\<rparr>,
      re_client = (\<lambda>n. example_client_env\<lparr>ce_connect := connect\<rparr>),
      re_read = (\<lambda>f. if f = ''1.json'' then Inr [example_event] else Inl InvalidData)\<rparr>"

lemma example_reader_send: "send_telemetry_data (re_client (example_reader connect) k) c xml \<noteq> None"
  by (simp add: example_reader_def send_telemetry_data_def create_http_request_def request_url_def
      example_client_env_def split: sum.split)

lemma example_reader_attempts: "\<exists>s'. send_attempts (example_reader connect) xml n s = Some s'"
proof (induction n arbitrary: s)
  case 0
  show ?case by (simp add: send_attempts.simps)
next
  case (Suc n)
  obtain r out where "send_telemetry_data (re_client (example_reader connect) (rs_requests s)) wire_server xml = Some (r, out)"
    using example_reader_send by fastforce
  with Suc show ?case by (simp add: send_attempts.simps Let_def split: sum.split)
qed

lemma example_reader_all: "\<exists>s'. send_all (example_reader connect) ds s = Some s'"
proof (induction ds arbitrary: s)
  case Nil
  show ?case by simp
next
  case (Cons d ds)
  obtain s1 where "send_data_to_wire_server (example_reader connect) d s = Some s1"
    unfolding send_data_to_wire_server_def using example_reader_attempts by fastforce
  with Cons show ?case by simp
qed

lemma example_reader_files: "\<exists>n s'. process_events_and_clean (example_reader connect) files s = Some (n, s')"
proof (induction files arbitrary: s)
  case Nil
  show ?case by simp
next
  case (Cons f fs)
  have "\<exists>s1. send_events (example_reader connect) es s = Some s1" for es
    unfolding send_events_def by (rule example_reader_all)
  then obtain g where "\<And>es. send_events (example_reader connect) es s = Some (g es)"
    by metis
  with Cons show ?case
    by (simp split: sum.split option.split) (metis option.distinct(1))
qed

theorem process_events_spec_witness:
  "\<exists>s'. process_events_and_clean (example_reader (\<lambda>h p. Inr example_answers)) [''0.json'', ''1.json''] reader_state_new = Some (1, s')
     \<and> rs_removed s' = [''1.json'']"
proof -
  obtain n s' where p: "process_events_and_clean (example_reader (\<lambda>h p. Inr example_answers)) [''0.json'', ''1.json''] reader_state_new
      = Some (n, s')"
    using example_reader_files by blast
  from process_events_spec [OF p] p show ?thesis
    by (simp add: file_events_def example_reader_def reader_state_new_def)
qed

text \<open>Events are lost when the host is unreachable: a file whose documents were all refused, five times
  each, is removed like one that was delivered. The statement holds for every client whose requests fail.\<close>

theorem undelivered_events_removed:
  assumes "\<forall>k xml out. xml \<noteq> [] \<longrightarrow> send_telemetry_data (re_client env k) wire_server xml \<noteq> Some (Inr (), out)"
    and "process_events_and_clean env [f] s = Some (n, s')" and "re_read env f = Inr events" and "rs_sent s = []"
  shows "f \<in> set (rs_removed s') \<and> list_all (\<lambda>x. snd x \<noteq> Inr ()) (rs_sent s')
     \<and> length (rs_sent s') = 5 * length (documents env (VM_META_DATA s) [f])"
proof -
  have att: "list_all (\<lambda>x. snd x \<noteq> Inr ()) (rs_sent s2)"
    if "send_attempts env xml k s1 = Some s2" "xml \<noteq> []" "list_all (\<lambda>x. snd x \<noteq> Inr ()) (rs_sent s1)" for xml k s1 s2
    using that assms(1)
    by (induction k arbitrary: s1) (auto simp: send_attempts.simps Let_def split: option.splits sum.splits)
  have sall: "list_all (\<lambda>x. snd x \<noteq> Inr ()) (rs_sent s2)"
    if "send_all env ds s1 = Some s2" "list_all (\<lambda>x. snd x \<noteq> Inr ()) (rs_sent s1)" for ds s1 s2
    using that
    by (induction ds arbitrary: s1)
      (auto simp: bind_eq_Some_conv send_data_to_wire_server_def to_xml_def intro: att split: if_splits)
  from assms(2,3) obtain s1 where s1: "send_events env events s = Some s1" "s' = clean_files f s1"
    by (auto split: option.splits)
  then have fail: "list_all (\<lambda>x. snd x \<noteq> Inr ()) (rs_sent s')"
    using sall [OF s1(1) [unfolded send_events_def]] assms(4) by (simp add: clean_files_def)
  obtain ls where ls: "list_all2 (attempt_log 5) (map to_xml (documents env (VM_META_DATA s) [f])) ls"
    "rs_sent s' = concat ls"
    using process_log [OF assms(2)] assms(4) by auto
  have "length l = 5" if "l \<in> set ls" for l
  proof -
    from ls(1) that obtain xml where "attempt_log 5 xml l"
      by (metis in_set_conv_nth list_all2_conv_all_nth)
    moreover have "\<not> is_ok (snd (last l))" if "l \<noteq> []"
    proof -
      have "last l \<in> set (rs_sent s')"
        using \<open>l \<in> set ls\<close> that unfolding ls(2) set_concat by (intro UN_I [of l]) simp_all
      with fail show ?thesis by (auto simp: list_all_iff is_ok_iff)
    qed
    ultimately show ?thesis by (cases "l = []") (auto simp: attempt_log_def)
  qed
  then have "length (concat ls) = 5 * length ls"
    by (induction ls) simp_all
  then show ?thesis
    using fail ls list_all2_lengthD [OF ls(1)] process_log [OF assms(2)] assms(3) by simp
qed

theorem undelivered_events_removed_witness:
  "\<exists>n s'. process_events_and_clean (example_reader (\<lambda>h p. Inl ConnectionRefused)) [''1.json''] reader_state_new = Some (n, s')
     \<and> ''1.json'' \<in> set (rs_removed s') \<and> list_all (\<lambda>x. snd x \<noteq> Inr ()) (rs_sent s')"
proof -
  let ?env = "example_reader (\<lambda>h p. Inl ConnectionRefused)"
  obtain n s' where p: "process_events_and_clean ?env [''1.json''] reader_state_new = Some (n, s')"
    using example_reader_files by blast
  have "re_read ?env ''1.json'' = Inr [example_event]" "rs_sent reader_state_new = []"
    by (simp_all add: example_reader_def reader_state_new_def)
  moreover have "send_telemetry_data (re_client ?env k) wire_server xml \<noteq> Some (Inr (), sent)" if "xml \<noteq> []" for k xml sent
    using that by (auto simp: send_telemetry_data_def example_reader_def split: option.splits sum.splits)
  ultimately show ?thesis
    using undelivered_events_removed [OF _ p] p by blast
qed

text \<open>As long as the reader runs, it sends and removes nothing before the metadata was read, and metadata that
  was read once stays known: a later failure to read it leaves the old value.\<close>

theorem telemetry_needs_metadata:
  assumes "reader_start env obs s = Some (reports, s')"
  shows "(VM_META_DATA s \<noteq> None \<longrightarrow> VM_META_DATA s' \<noteq> None)
     \<and> (VM_META_DATA s' = None \<longrightarrow> rs_sent s' = rs_sent s \<and> rs_removed s' = rs_removed s \<and> reports = [])"
  using assms
proof (induction obs arbitrary: s reports)
  case Nil
  then show ?case by simp
next
  case (Cons ob obs)
  show ?case
  proof (cases "fst ob")
    case True
    with Cons.prems show ?thesis by simp
  next
    case False
    with Cons.prems obtain report s1 reports' where r: "reader_round env (snd ob) s = Some (report, s1)"
      and rest: "reader_start env obs s1 = Some (reports', s')"
      and "reports = (case report of Some r \<Rightarrow> r # reports' | None \<Rightarrow> reports')"
      by (auto split: option.splits)
    with Cons.IH [OF rest] reader_round_metadata [OF r] show ?thesis
      by auto
  qed
qed

lemma example_goal_state: "\<exists>e. get_goalstate (re_client (example_reader connect) k) c = Some (Inl e)"
proof -
  have "\<exists>e. get_and_decode env (\<lambda>s. None) hr = Inl e" for env :: "string client_env" and hr
    by (auto simp: get_and_decode_def io_bind_def split: sum.split)
  then show ?thesis
    by (auto simp: example_reader_def example_client_env_def get_goalstate_def create_http_request_def request_url_def
        new_proxy_agent_request_def Let_def)
qed

theorem telemetry_needs_metadata_witness:
  "\<exists>s'. reader_start (example_reader (\<lambda>h p. Inr example_answers)) [(False, Inr [''1.json'']), (True, Inr [])] reader_state_new
       = Some ([], s') \<and> rs_removed s' = []"
proof -
  let ?env = "example_reader (\<lambda>h p. Inr example_answers)"
  obtain e where "get_goalstate (re_client ?env 0) wire_server = Some (Inl e)"
    using example_goal_state by blast
  then obtain s' where "reader_start ?env [(False, Inr [''1.json'']), (True, Inr [])] reader_state_new = Some ([], s')"
    "VM_META_DATA s' = None"
    by (auto simp: reader_round_def update_vm_meta_data_def reader_state_new_def)
  with telemetry_needs_metadata [OF this(1)] show ?thesis
    by (simp add: reader_state_new_def)
qed

end
