(* ===== verification/Agent_Version.thy ===== *)
theory Agent_Version
  imports Rust_Path
begin

text \<open>
  \<^verbatim>\<open>proxy_agent_shared/src/version.rs\<close>: version numbers and their text.
\<close>

section \<open>Definitions\<close>

record version =
  major :: u32
  minor :: u32
  build :: "u32 option"
  revision :: "u32 option"

definition from_major_minor_build_revision :: "u32 \<Rightarrow> u32 \<Rightarrow> u32 option \<Rightarrow> u32 option \<Rightarrow> version" where
  "from_major_minor_build_revision ma mi b r = \<lparr>major = ma, minor = mi, build = b, revision = r\<rparr>"

definition from_major_minor :: "u32 \<Rightarrow> u32 \<Rightarrow> version" where
  "from_major_minor ma mi = from_major_minor_build_revision ma mi None None"

definition from_major_minor_build :: "u32 \<Rightarrow> u32 \<Rightarrow> u32 option \<Rightarrow> version" where
  "from_major_minor_build ma mi b = from_major_minor_build_revision ma mi b None"

definition parse_u32 :: "string \<Rightarrow> u32 option" where
  "parse_u32 s = map_option word_of_nat (parse_uint 32 s)"

definition version_from_string :: "string \<Rightarrow> version io_result" where
  "version_from_string version_string =
     (let version_parts = split_on CHR ''.'' version_string
      in if length version_parts < 2 then Inl InvalidInput
         else (case parse_u32 (version_parts ! 0) of
                 None \<Rightarrow> Inl InvalidInput
               | Some ma \<Rightarrow>
                   (case parse_u32 (version_parts ! 1) of
                      None \<Rightarrow> Inl InvalidInput
                    | Some mi \<Rightarrow>
                        if length version_parts = 2 then Inr (from_major_minor ma mi)
                        else if 4 < length version_parts then Inl InvalidInput
                        else Inr (from_major_minor_build_revision ma mi
                               (if 2 < length version_parts then parse_u32 (version_parts ! 2) else None)
                               (if 3 < length version_parts then parse_u32 (version_parts ! 3) else None)))))"

definition version_to_string :: "version \<Rightarrow> string" where
  "version_to_string v =
     (let ver = show_nat (unat (major v)) @ ''.'' @ show_nat (unat (minor v))
      in case build v of
           None \<Rightarrow> ver
         | Some b \<Rightarrow>
             (let ver = ver @ ''.'' @ show_nat (unat b)
              in case revision v of None \<Rightarrow> ver | Some r \<Rightarrow> ver @ ''.'' @ show_nat (unat r)))"

section \<open>Properties\<close>

lemma parse_u32_show: "parse_u32 (show_nat (unat (w :: u32))) = Some w"
proof -
  have "unat w < 2 ^ 32"
    using unsigned_less [of w] by simp
  then have "parse_uint 32 (show_nat (unat w)) = Some (unat w)"
    by (rule parse_uint_show_nat)
  then show ?thesis by (simp add: parse_u32_def)
qed

lemma split_dots:
  "CHR ''.'' \<notin> set b \<Longrightarrow> split_on CHR ''.'' (a @ ''.'' @ b) = split_on CHR ''.'' a @ [b]"
  using split_on_append [of "CHR ''.''" b a] by simp

lemma split_two:
  "split_on CHR ''.'' (show_nat a @ ''.'' @ show_nat b) = [show_nat a, show_nat b]"
  using split_dots [OF show_nat_no_dot, of "show_nat a" b] split_on_no_sep [OF show_nat_no_dot, of a] by simp

text \<open>Printing a version and reading it back gives the version, unless it has a revision without a build;
  reading gives a version only for two to four parts separated by dots whose first two are 32-bit numbers, and
  an InvalidInput error otherwise.\<close>

theorem version_roundtrip:
  "((build v = None \<longrightarrow> revision v = None) \<longrightarrow> version_from_string (version_to_string v) = Inr v)
   \<and> (version_from_string s = Inl e \<longrightarrow> e = InvalidInput)
   \<and> (version_from_string s = Inr w \<longrightarrow> length (split_on CHR ''.'' s) \<in> {2, 3, 4}
        \<and> parse_u32 (split_on CHR ''.'' s ! 0) = Some (major w) \<and> parse_u32 (split_on CHR ''.'' s ! 1) = Some (minor w))"
proof (intro conjI impI)
  show "version_from_string s = Inl e \<Longrightarrow> e = InvalidInput"
    by (auto simp: version_from_string_def Let_def split: if_splits option.splits)
  assume r: "version_from_string s = Inr w"
  then show "parse_u32 (split_on CHR ''.'' s ! 0) = Some (major w)" "parse_u32 (split_on CHR ''.'' s ! 1) = Some (minor w)"
    by (auto simp: version_from_string_def from_major_minor_def from_major_minor_build_revision_def Let_def
        split: if_splits option.splits)
  from r have "2 \<le> length (split_on CHR ''.'' s) \<and> length (split_on CHR ''.'' s) \<le> 4"
    by (auto simp: version_from_string_def Let_def split: if_splits option.splits)
  then show "length (split_on CHR ''.'' s) \<in> {2, 3, 4}" by auto
next
  assume wf: "build v = None \<longrightarrow> revision v = None"
  let ?a = "show_nat (unat (major v))" and ?b = "show_nat (unat (minor v))"
  note parts = split_two [of "unat (major v)" "unat (minor v)"]
  show "version_from_string (version_to_string v) = Inr v"
  proof (cases "build v")
    case None
    then have "split_on CHR ''.'' (version_to_string v) = [?a, ?b]"
      using parts by (simp add: version_to_string_def)
    with None wf show ?thesis
      by (simp add: version_from_string_def parse_u32_show from_major_minor_def from_major_minor_build_revision_def)
  next
    case (Some b)
    let ?c = "show_nat (unat b)"
    have three: "split_on CHR ''.'' ((?a @ ''.'' @ ?b) @ ''.'' @ ?c) = [?a, ?b, ?c]"
      using split_dots [OF show_nat_no_dot, of "?a @ ''.'' @ ?b" "unat b"] parts by simp
    show ?thesis
    proof (cases "revision v")
      case None
      with Some three have "split_on CHR ''.'' (version_to_string v) = [?a, ?b, ?c]"
        by (simp add: version_to_string_def)
      with Some None show ?thesis
        by (simp add: version_from_string_def parse_u32_show from_major_minor_build_revision_def)
    next
      case (Some r)
      have "split_on CHR ''.'' (((?a @ ''.'' @ ?b) @ ''.'' @ ?c) @ ''.'' @ show_nat (unat r)) = [?a, ?b, ?c, show_nat (unat r)]"
        using split_dots [OF show_nat_no_dot, of "(?a @ ''.'' @ ?b) @ ''.'' @ ?c" "unat r"] three by simp
      then have "split_on CHR ''.'' (version_to_string v) = [?a, ?b, ?c, show_nat (unat r)]"
        using Some \<open>build v = Some b\<close> by (simp add: version_to_string_def)
      with Some \<open>build v = Some b\<close> show ?thesis
        by (simp add: version_from_string_def parse_u32_show from_major_minor_build_revision_def)
    qed
  qed
qed

theorem version_roundtrip_witness:
  "version_from_string (version_to_string \<lparr>major = 1, minor = 0, build = Some 7, revision = None\<rparr>)
     = Inr \<lparr>major = 1, minor = 0, build = Some 7, revision = None\<rparr>"
  using version_roundtrip [of "\<lparr>major = 1, minor = 0, build = Some 7, revision = None\<rparr>"] by simp

text \<open>A part after the second that is not a number is dropped without an error.\<close>

lemma version_bad_build:
  "version_from_string ((show_nat (unat ma) @ ''.'' @ show_nat (unat mi)) @ ''.'' @ ''x'') = Inr (from_major_minor ma mi)"
proof -
  have "parse_u32 ''x'' = None"
    by (simp add: parse_u32_def parse_uint_def digit_val_def)
  moreover have "split_on CHR ''.'' ((show_nat (unat ma) @ ''.'' @ show_nat (unat mi)) @ ''.'' @ ''x'')
      = [show_nat (unat ma), show_nat (unat mi), ''x'']"
    using split_dots [of "''x''" "show_nat (unat ma) @ ''.'' @ show_nat (unat mi)"] split_two [of "unat ma" "unat mi"]
    by simp
  ultimately show ?thesis
    by (simp add: version_from_string_def parse_u32_show from_major_minor_def from_major_minor_build_revision_def)
qed

end
