(* ===== verification/Extension_Common.thy ===== *)
theory Extension_Common
  imports Rust_Path Agent_Version
begin

text \<open>
  \<^verbatim>\<open>proxy_agent_extension/src/common.rs\<close> with \<^verbatim>\<open>structs.rs\<close> and \<^verbatim>\<open>constants.rs\<close>, for Linux: the state that
  the extension reports, the status and heartbeat files and the stored sequence number. A file is its
  content; every call of the file system consumes one entry of a list that says whether it fails.
\<close>

section \<open>Constants\<close>

definition PLUGIN_NAME :: string where "PLUGIN_NAME = ''ProxyAgentVMExtension''"
definition PLUGIN_CONNECTION_NAME :: string where "PLUGIN_CONNECTION_NAME = ''ProxyAgentConnectionSummary''"
definition PLUGIN_STATUS_NAME :: string where "PLUGIN_STATUS_NAME = ''ProxyAgentStatus''"
definition HANDLER_ENVIRONMENT_FILE :: string where "HANDLER_ENVIRONMENT_FILE = ''HandlerEnvironment.json''"
definition EXTENSION_PROCESS_NAME :: string where "EXTENSION_PROCESS_NAME = ''ProxyAgentExt''"
definition UPDATE_TAG_FILE :: string where "UPDATE_TAG_FILE = ''update.tag''"
definition ENABLE_OPERATION :: string where "ENABLE_OPERATION = ''Enable''"
definition LANG_EN_US :: string where "LANG_EN_US = ''en-US''"
definition STATUS_FILE_SUFFIX :: string where "STATUS_FILE_SUFFIX = ''status''"
definition TRANSITIONING_STATUS :: string where [agent_defs]: "TRANSITIONING_STATUS = ''transitioning''"
definition ERROR_STATUS :: string where [agent_defs]: "ERROR_STATUS = ''error''"
definition SUCCESS_STATUS :: string where [agent_defs]: "SUCCESS_STATUS = ''success''"
definition HEARTBEAT_READY_STATUS :: string where "HEARTBEAT_READY_STATUS = ''ready''"
definition CURRENT_SEQ_NO_FILE :: string where "CURRENT_SEQ_NO_FILE = ''current_seq_no.txt''"
definition EXT_VERSION :: string where "EXT_VERSION = ''1.0''"
definition SERVICE_START_RETRY_COUNT :: nat where [agent_defs]: "SERVICE_START_RETRY_COUNT = 5"
definition STATUS_CODE_OK :: int where "STATUS_CODE_OK = 0"
definition INVALID_INPUT_ARGS_LENGTH :: int where "INVALID_INPUT_ARGS_LENGTH = 1"
definition EXIT_CODE_HANDLERENV_ERR :: int where "EXIT_CODE_HANDLERENV_ERR = 2"
definition STATUS_CODE_NOT_OK :: int where "STATUS_CODE_NOT_OK = 6"
definition EXIT_CODE_NO_CONFIG_SEQ_NO :: int where "EXIT_CODE_NO_CONFIG_SEQ_NO = 10"
definition EXIT_CODE_SERVICE_START_ERR :: int where "EXIT_CODE_SERVICE_START_ERR = 11"
definition NOT_SUPPORTED_OS_VERSION :: int where "NOT_SUPPORTED_OS_VERSION = 12"
definition EXIT_CODE_NOT_SUPPORTED_OS_VERSION :: int where "EXIT_CODE_NOT_SUPPORTED_OS_VERSION = 16"
definition MIN_SUPPORTED_MARINER_OS_BUILD :: u32 where "MIN_SUPPORTED_MARINER_OS_BUILD = 2"
definition MIN_SUPPORTED_UBUNTU_OS_BUILD :: u32 where "MIN_SUPPORTED_UBUNTU_OS_BUILD = 22"

section \<open>Structures\<close>

record handler_environment =
  logFolder :: string
  statusFolder :: string
  configFolder :: string
  heartbeatFile :: string
  deploymentid :: "string option"
  rolename :: "string option"
  inst :: "string option"
  hostResolverAddress :: "string option"
  eventsFolder :: string

definition handler_environment_clone :: "handler_environment \<Rightarrow> handler_environment" where
  "handler_environment_clone h =
     \<lparr>logFolder = logFolder h, statusFolder = statusFolder h, configFolder = configFolder h,
      heartbeatFile = heartbeatFile h, deploymentid = deploymentid h, rolename = rolename h,
      inst = inst h, hostResolverAddress = hostResolverAddress h, eventsFolder = eventsFolder h\<rparr>"

record formatted_message =
  fm_lang :: string
  fm_message :: string

record sub_status =
  ss_name :: string
  ss_status :: string
  ss_code :: int
  ss_formattedMessage :: formatted_message

record status_obj =
  so_name :: string
  so_operation :: string
  so_configurationAppliedTime :: string
  so_status :: string
  so_code :: int
  so_formattedMessage :: formatted_message
  so_substatus :: "sub_status list"

record top_level_status =
  tls_version :: string
  tls_timestampUTC :: string
  tls_status :: status_obj

record heartbeat_obj =
  ho_status :: string
  ho_code :: string
  ho_formattedMessage :: formatted_message

record top_level_heartbeat =
  tlh_version :: string
  tlh_heartbeat :: heartbeat_obj

section \<open>The reported state\<close>

record status_tracker =
  current_state :: string
  consecutive_fail_count :: u32
  consecutive_success_count :: u32
  transition_to_error_threshold :: u32

definition MAX_CONSECUTIVE_COUNT :: u32 where "MAX_CONSECUTIVE_COUNT = 10000"

definition status_tracker_new :: status_tracker where
  "status_tracker_new = \<lparr>current_state = TRANSITIONING_STATUS, consecutive_fail_count = 0,
     consecutive_success_count = 0, transition_to_error_threshold = 20\<rparr>"

definition count_operation :: "bool \<Rightarrow> status_tracker \<Rightarrow> status_tracker" where
  "count_operation operation_success s =
     (if operation_success
      then s\<lparr>consecutive_fail_count := 0,
             consecutive_success_count :=
               (if consecutive_success_count s < MAX_CONSECUTIVE_COUNT then consecutive_success_count s + 1
                else consecutive_success_count s)\<rparr>
      else s\<lparr>consecutive_success_count := 0,
             consecutive_fail_count :=
               (if consecutive_fail_count s < MAX_CONSECUTIVE_COUNT then consecutive_fail_count s + 1
                else consecutive_fail_count s)\<rparr>)"

definition next_state :: "status_tracker \<Rightarrow> string" where
  "next_state s =
     (if current_state s = SUCCESS_STATUS
      then (if 1 \<le> consecutive_fail_count s then TRANSITIONING_STATUS else current_state s)
      else if current_state s = TRANSITIONING_STATUS
      then (if 1 \<le> consecutive_success_count s then SUCCESS_STATUS
            else if transition_to_error_threshold s \<le> consecutive_fail_count s then ERROR_STATUS
            else current_state s)
      else if current_state s = ERROR_STATUS
      then (if 1 \<le> consecutive_success_count s then TRANSITIONING_STATUS else current_state s)
      else TRANSITIONING_STATUS)"

definition update_state :: "bool \<Rightarrow> status_tracker \<Rightarrow> string \<times> status_tracker" where
  "update_state operation_success s =
     (let s1 = count_operation operation_success s; s2 = s1\<lparr>current_state := next_state s1\<rparr>
      in (current_state s2, s2))"

section \<open>Files\<close>

datatype ext_file =
    Text_File string
  | Status_File "top_level_status list"
  | Heartbeat_File "top_level_heartbeat list"
  | Handler_File "handler_environment list"

datatype ext_command =
    Setup_Tool string
  | Spawn string
  | Kill nat

record ext_state =
  xs_files :: "(string, ext_file) hmap"
  xs_faults :: "bool list"
  xs_commands :: "ext_command list"

definition next_ext_fault :: "ext_state \<Rightarrow> bool \<times> ext_state" where
  "next_ext_fault s = (case xs_faults s of [] \<Rightarrow> (False, s) | f # r \<Rightarrow> (f, s\<lparr>xs_faults := r\<rparr>))"

text \<open>\<^verbatim>\<open>fs::write\<close>, \<^verbatim>\<open>fs::remove_file\<close> and \<^verbatim>\<open>fs::read_to_string\<close>; the result says whether the call succeeded.\<close>

definition fs_write :: "string \<Rightarrow> ext_file \<Rightarrow> ext_state \<Rightarrow> bool \<times> ext_state" where
  "fs_write p c s =
     (case next_ext_fault s of
        (True, s) \<Rightarrow> (False, s)
      | (False, s) \<Rightarrow> (True, s\<lparr>xs_files := hm_insert p c (xs_files s)\<rparr>))"

definition fs_remove :: "string \<Rightarrow> ext_state \<Rightarrow> bool \<times> ext_state" where
  "fs_remove p s =
     (case next_ext_fault s of
        (True, s) \<Rightarrow> (False, s)
      | (False, s) \<Rightarrow>
          (case hm_get (xs_files s) p of
             None \<Rightarrow> (False, s)
           | Some _ \<Rightarrow> (True, s\<lparr>xs_files := AList.delete p (xs_files s)\<rparr>)))"

definition fs_read_to_string :: "string \<Rightarrow> ext_state \<Rightarrow> string option \<times> ext_state" where
  "fs_read_to_string p s =
     (case next_ext_fault s of
        (True, s) \<Rightarrow> (None, s)
      | (False, s) \<Rightarrow> (case hm_get (xs_files s) p of Some (Text_File t) \<Rightarrow> (Some t, s) | _ \<Rightarrow> (None, s)))"

text \<open>\<^const>\<open>Inl\<close>: the process exits with this code.\<close>

definition get_handler_environment :: "string \<Rightarrow> ext_state \<Rightarrow> (int + handler_environment) \<times> ext_state" where
  "get_handler_environment exe_path s =
     (case next_ext_fault s of
        (True, s) \<Rightarrow> (Inl EXIT_CODE_HANDLERENV_ERR, s)
      | (False, s) \<Rightarrow>
          (case hm_get (xs_files s) (path_join exe_path HANDLER_ENVIRONMENT_FILE) of
             Some (Handler_File hs) \<Rightarrow>
               (if length hs = 0 then Inl EXIT_CODE_HANDLERENV_ERR else Inr (handler_environment_clone (hs ! 0)), s)
           | _ \<Rightarrow> (Inl EXIT_CODE_HANDLERENV_ERR, s)))"

definition report_heartbeat :: "string \<Rightarrow> heartbeat_obj \<Rightarrow> ext_state \<Rightarrow> ext_state" where
  "report_heartbeat heartbeat_file_path obj s =
     snd (fs_write heartbeat_file_path (Heartbeat_File [\<lparr>tlh_version = EXT_VERSION, tlh_heartbeat = obj\<rparr>]) s)"

definition get_file_path :: "string \<Rightarrow> string option \<Rightarrow> string \<Rightarrow> string" where
  "get_file_path status_folder config_seq_no ext =
     set_extension ext (path_join status_folder (case config_seq_no of Some n \<Rightarrow> n | None \<Rightarrow> []))"

definition report_status :: "string \<Rightarrow> string \<Rightarrow> string option \<Rightarrow> status_obj \<Rightarrow> ext_state \<Rightarrow> ext_state" where
  "report_status now status_folder_path config_seq_no obj s =
     (let status_file = get_file_path status_folder_path config_seq_no STATUS_FILE_SUFFIX
      in snd (fs_write status_file
                (Status_File [\<lparr>tls_version = EXT_VERSION, tls_timestampUTC = now, tls_status = obj\<rparr>]) s))"

definition seq_no_file :: "string \<Rightarrow> string" where
  "seq_no_file exe_path = path_join exe_path CURRENT_SEQ_NO_FILE"

definition update_current_seq_no :: "string option \<Rightarrow> string \<Rightarrow> ext_state \<Rightarrow> bool io_result \<times> ext_state" where
  "update_current_seq_no config_seq_no exe_path s =
     (case config_seq_no of
        Some new_seq_no \<Rightarrow>
          (case fs_read_to_string (seq_no_file exe_path) s of
             (Some seq_no, s) \<Rightarrow>
               if seq_no \<noteq> new_seq_no
               then (Inr True, snd (fs_write (seq_no_file exe_path) (Text_File new_seq_no) s))
               else (Inr False, s)
           | (None, s) \<Rightarrow> (Inr True, snd (fs_write (seq_no_file exe_path) (Text_File new_seq_no) s)))
      | None \<Rightarrow> (Inl InvalidInput, s))"

definition get_current_seq_no :: "string \<Rightarrow> ext_state \<Rightarrow> string \<times> ext_state" where
  "get_current_seq_no exe_path s =
     (case fs_read_to_string (seq_no_file exe_path) s of (Some seq_no, s) \<Rightarrow> (seq_no, s) | (None, s) \<Rightarrow> ([], s))"

definition get_proxy_agent_service_path :: string where
  "get_proxy_agent_service_path = path_join ''/usr/sbin'' ''azure-proxy-agent''"

definition get_proxy_agent_exe_path :: "string \<Rightarrow> string" where
  "get_proxy_agent_exe_path exe_path = path_join exe_path ''ProxyAgent/ProxyAgent/azure-proxy-agent''"

definition setup_tool_exe_path :: "string \<Rightarrow> string" where
  "setup_tool_exe_path exe_path = path_join exe_path ''ProxyAgent/proxy_agent_setup''"

definition report_status_enable_command :: "string \<Rightarrow> string \<Rightarrow> string \<Rightarrow> string option \<Rightarrow> string option \<Rightarrow> ext_state \<Rightarrow> ext_state" where
  "report_status_enable_command now now_ms status_folder config_seq_no status s =
     report_status now_ms status_folder config_seq_no
       \<lparr>so_name = PLUGIN_NAME, so_operation = ENABLE_OPERATION, so_configurationAppliedTime = now,
        so_status = (case status of Some st \<Rightarrow> st | None \<Rightarrow> TRANSITIONING_STATUS), so_code = STATUS_CODE_OK,
        so_formattedMessage = \<lparr>fm_lang = LANG_EN_US, fm_message = ''Enabling the ProxyAgent Extension...''\<rparr>,
        so_substatus = []\<rparr> s"

section \<open>The state as a function of the history\<close>

text \<open>
  The specification: the outcomes, newest first, decide. The state is an error exactly when the last 20
  outcomes are failures; it is a success when the last outcome is one, or, after an error, the last two.
\<close>

definition failing :: "bool list \<Rightarrow> nat" where
  "failing h = length (takeWhile Not h)"

definition state_spec :: "bool list \<Rightarrow> string" where
  "state_spec h =
     (let ok = length (takeWhile (\<lambda>b. b) h); before = dropWhile (\<lambda>b. b) h
      in if 20 \<le> failing h then ERROR_STATUS
         else if 1 \<le> ok \<and> (20 \<le> failing before \<longrightarrow> 2 \<le> ok) then SUCCESS_STATUS
         else TRANSITIONING_STATUS)"

definition tracker_inv :: "bool list \<Rightarrow> status_tracker \<Rightarrow> bool" where
  "tracker_inv h s \<longleftrightarrow> current_state s = state_spec h \<and> transition_to_error_threshold s = 20
     \<and> unat (consecutive_fail_count s) = min 10000 (failing h)
     \<and> unat (consecutive_success_count s) = min 10000 (length (takeWhile (\<lambda>b. b) h))"

lemma status_names [simp]:
  "SUCCESS_STATUS \<noteq> TRANSITIONING_STATUS" "TRANSITIONING_STATUS \<noteq> SUCCESS_STATUS"
  "ERROR_STATUS \<noteq> TRANSITIONING_STATUS" "TRANSITIONING_STATUS \<noteq> ERROR_STATUS"
  "ERROR_STATUS \<noteq> SUCCESS_STATUS" "SUCCESS_STATUS \<noteq> ERROR_STATUS"
  by (simp_all add: agent_defs)

lemma tracker_inv_new: "tracker_inv [] status_tracker_new"
  by (simp add: tracker_inv_def status_tracker_new_def state_spec_def failing_def)

lemma history_Cons [simp]:
  "failing (True # h) = 0" "failing (False # h) = Suc (failing h)"
  by (simp_all add: failing_def)

lemma failing_ok: "length (takeWhile (\<lambda>b. b) h) = 0 \<or> failing h = 0"
  by (cases h) (simp_all add: failing_def)

lemma before_ok_0: "takeWhile (\<lambda>b. b) h = [] \<Longrightarrow> dropWhile (\<lambda>b. b) h = h"
  by (cases h) (auto split: if_splits)

lemma state_spec_True:
  "state_spec (True # h) = (if state_spec h = ERROR_STATUS then TRANSITIONING_STATUS else SUCCESS_STATUS)"
proof (cases "takeWhile (\<lambda>b. b) h")
  case Nil
  then show ?thesis
    using before_ok_0 [OF Nil] by (auto simp: state_spec_def Let_def)
next
  case (Cons a as)
  then show ?thesis
    using failing_ok [of h] by (auto simp: state_spec_def Let_def)
qed

lemma state_spec_False:
  "state_spec (False # h) = (if 20 \<le> Suc (failing h) then ERROR_STATUS else TRANSITIONING_STATUS)"
  by (simp add: state_spec_def)

lemma state_spec_cases:
  "(state_spec h = ERROR_STATUS) = (20 \<le> failing h)"
  "state_spec h = SUCCESS_STATUS \<Longrightarrow> failing h = 0"
  "state_spec h \<in> {SUCCESS_STATUS, TRANSITIONING_STATUS, ERROR_STATUS}"
  using failing_ok [of h] by (auto simp: state_spec_def Let_def split: if_splits)

lemma u32_inc: "unat (c :: u32) \<le> 10000 \<Longrightarrow>
  unat (if c < MAX_CONSECUTIVE_COUNT then c + 1 else c) = min 10000 (Suc (unat c))"
proof -
  assume c: "unat c \<le> 10000"
  have "unat (c + 1) = Suc (unat c)" if "unat c < 10000"
    using that by (subst unat_add_lem [THEN iffD1]) auto
  then show ?thesis
    using c by (auto simp: MAX_CONSECUTIVE_COUNT_def word_less_nat_alt)
qed

lemma counts_step:
  assumes "tracker_inv h s"
  shows "unat (consecutive_fail_count (count_operation b s)) = min 10000 (failing (b # h))"
    and "unat (consecutive_success_count (count_operation b s)) = min 10000 (length (takeWhile (\<lambda>b. b) (b # h)))"
proof -
  have c: "unat (consecutive_fail_count s) \<le> 10000" "unat (consecutive_success_count s) \<le> 10000"
    using assms by (simp_all add: tracker_inv_def)
  show "unat (consecutive_fail_count (count_operation b s)) = min 10000 (failing (b # h))"
    using assms u32_inc [OF c(1)] by (cases b) (simp_all add: count_operation_def tracker_inv_def)
  show "unat (consecutive_success_count (count_operation b s)) = min 10000 (length (takeWhile (\<lambda>b. b) (b # h)))"
    using assms u32_inc [OF c(2)] by (cases b) (simp_all add: count_operation_def tracker_inv_def)
qed

lemma update_state_step:
  assumes "tracker_inv h s"
  shows "fst (update_state b s) = state_spec (b # h)" and "tracker_inv (b # h) (snd (update_state b s))"
proof -
  let ?s = "count_operation b s"
  note c = counts_step [OF assms, of b]
  have cur: "current_state ?s = state_spec h" "transition_to_error_threshold ?s = 20"
    using assms by (simp_all add: count_operation_def tracker_inv_def)
  have le: "1 \<le> consecutive_fail_count ?s \<longleftrightarrow> 1 \<le> min 10000 (failing (b # h))"
    "1 \<le> consecutive_success_count ?s \<longleftrightarrow> 1 \<le> min 10000 (length (takeWhile (\<lambda>b. b) (b # h)))"
    "20 \<le> consecutive_fail_count ?s \<longleftrightarrow> 20 \<le> min 10000 (failing (b # h))"
    using c by (simp_all add: word_le_nat_alt)
  have nxt: "next_state ?s = state_spec (b # h)"
  proof (cases b)
    case True
    then show ?thesis
      using state_spec_cases [of h] le cur by (auto simp: next_state_def state_spec_True)
  next
    case False
    then show ?thesis
      using state_spec_cases [of h] le cur by (auto simp: next_state_def state_spec_False)
  qed
  then show "fst (update_state b s) = state_spec (b # h)"
    by (simp add: update_state_def Let_def)
  show "tracker_inv (b # h) (snd (update_state b s))"
    using nxt c cur by (simp add: update_state_def tracker_inv_def Let_def)
qed

section \<open>Properties\<close>

text \<open>The outcomes are reported one after the other, the oldest first.\<close>

definition report_all :: "bool list \<Rightarrow> status_tracker \<Rightarrow> status_tracker" where
  "report_all h s = fold (\<lambda>b s. snd (update_state b s)) h s"

lemma report_all_inv: "tracker_inv (rev h) (report_all h status_tracker_new)"
  by (induction h rule: rev_induct)
    (simp_all add: report_all_def tracker_inv_new update_state_step(2))

text \<open>The state the extension reports is a function of the outcomes alone: after any sequence of
  outcomes it is \<^verbatim>\<open>error\<close> exactly when at least the last 20 failed, \<^verbatim>\<open>success\<close> when the last succeeded and, if
  the state was an error before, the last two did, and \<^verbatim>\<open>transitioning\<close> otherwise; the saturating 32-bit
  counters do not change that, however long the sequence.\<close>

theorem status_state_spec:
  "fst (update_state b (report_all h status_tracker_new)) = state_spec (b # rev h)"
  by (rule update_state_step(1) [OF report_all_inv])

text \<open>Storing the sequence number: without one the call fails; otherwise, when the write is not hindered, the
  file holds the new number afterwards, and a status is to be reported exactly when the readable stored number
  differs, so enabling twice with one number reports once.\<close>

theorem seq_no_stored:
  assumes "xs_faults s = []"
  shows "update_current_seq_no None exe s = (Inl InvalidInput, s)
     \<and> (\<exists>s'. update_current_seq_no (Some n) exe s
              = (Inr (hm_get (xs_files s) (seq_no_file exe) \<noteq> Some (Text_File n)), s')
            \<and> get_current_seq_no exe s' = (n, s') \<and> xs_commands s' = xs_commands s
            \<and> update_current_seq_no (Some n) exe s' = (Inr False, s'))"
  using assms
  by (auto simp: update_current_seq_no_def get_current_seq_no_def fs_read_to_string_def fs_write_def next_ext_fault_def
      split: option.split ext_file.split)

theorem seq_no_stored_witness:
  "\<exists>s'. update_current_seq_no (Some ''1'') ''/e'' \<lparr>xs_files = [], xs_faults = [], xs_commands = []\<rparr> = (Inr True, s')
     \<and> get_current_seq_no ''/e'' s' = (''1'', s')"
  using seq_no_stored [of "\<lparr>xs_files = [], xs_faults = [], xs_commands = []\<rparr>" "''/e''" "''1''"] by auto

end
