(* ===== verification/Extension_Handler.thy ===== *)
theory Extension_Handler
  imports Extension_Common
begin

text \<open>
  \<^verbatim>\<open>proxy_agent_extension/src/handler_main.rs\<close> for Linux: the commands the virtual machine agent gives to
  the extension. A handler returns the exit code when it ends the process, and the state.
\<close>

section \<open>Environment\<close>

text \<open>
  The directory of the executable, the clock in its two formats, the operating system, the processes that
  bear the name of the extension with their command lines, and, for each attempt to start the service,
  whether it succeeds.
\<close>

record handler_obs =
  hx_exe_dir :: string
  hx_now :: string
  hx_now_ms :: string
  hx_os_version :: string
  hx_os_type :: string
  hx_long_os_version :: string
  hx_processes :: "(nat \<times> string list) list"
  hx_spawn :: "nat \<Rightarrow> bool"

type_synonym handler_result = "int option \<times> ext_state"

definition run_command :: "ext_command \<Rightarrow> ext_state \<Rightarrow> ext_state" where
  "run_command c s = s\<lparr>xs_commands := xs_commands s @ [c]\<rparr>"

section \<open>Operating system\<close>

definition check_linux_os_supported :: "handler_obs \<Rightarrow> version \<Rightarrow> bool" where
  "check_linux_os_supported env v =
     (let linux_type = to_lowercase (hx_os_type env)
      in if contains_str linux_type ''ubuntu'' then MIN_SUPPORTED_UBUNTU_OS_BUILD \<le> major v
         else if contains_str linux_type ''mariner'' then MIN_SUPPORTED_MARINER_OS_BUILD \<le> major v
         else False)"

definition check_os_version_supported :: "handler_obs \<Rightarrow> bool" where
  "check_os_version_supported env =
     (case version_from_string (hx_os_version env) of
        Inr v \<Rightarrow> check_linux_os_supported env v
      | Inl e \<Rightarrow> False)"

definition report_os_not_supported :: "handler_obs \<Rightarrow> handler_environment \<Rightarrow> string option \<Rightarrow> ext_state \<Rightarrow> ext_state" where
  "report_os_not_supported env h config_seq_no s =
     (let message = ''OS version not supported: '' @ hx_long_os_version env
      in report_status (hx_now_ms env) (statusFolder h) config_seq_no
           \<lparr>so_name = PLUGIN_NAME, so_operation = ''CheckOSVersionSupport'', so_configurationAppliedTime = hx_now env,
            so_status = ERROR_STATUS, so_code = NOT_SUPPORTED_OS_VERSION,
            so_formattedMessage = \<lparr>fm_lang = LANG_EN_US, fm_message = message\<rparr>, so_substatus = []\<rparr> s)"

section \<open>The update tag\<close>

definition get_exe_parent :: "handler_obs \<Rightarrow> string" where
  "get_exe_parent env = path_parent (hx_exe_dir env)"

definition get_update_tag_file :: "handler_obs \<Rightarrow> string" where
  "get_update_tag_file env = path_join (get_exe_parent env) UPDATE_TAG_FILE"

definition update_tag_file_exists :: "handler_obs \<Rightarrow> ext_state \<Rightarrow> bool" where
  "update_tag_file_exists env s \<longleftrightarrow> hm_get (xs_files s) (get_update_tag_file env) \<noteq> None"

section \<open>Handlers\<close>

definition install_handler :: "handler_obs \<Rightarrow> ext_state \<Rightarrow> handler_result" where
  "install_handler env s = (None, s)"

definition unistall_handler :: "handler_obs \<Rightarrow> ext_state \<Rightarrow> handler_result" where
  "unistall_handler env s =
     (if \<not> update_tag_file_exists env s then (None, run_command (Setup_Tool ''uninstall'') s) else (None, s))"

text \<open>The process of that name that runs without parameters.\<close>

fun get_linux_extension_long_running_process :: "(nat \<times> string list) list \<Rightarrow> nat option" where
  "get_linux_extension_long_running_process [] = None"
| "get_linux_extension_long_running_process ((pid, cmd) # ps) =
     (if length cmd = 1 then Some pid else get_linux_extension_long_running_process ps)"

text \<open>The loop that starts the service. The process list is read once, before the loop.\<close>

function enable_loop :: "handler_obs \<Rightarrow> string \<Rightarrow> string option \<Rightarrow> bool \<Rightarrow> nat \<Rightarrow> ext_state \<Rightarrow> handler_result" where
  "enable_loop env status_folder config_seq_no process_running cnt s =
     (if process_running then (None, s)
      else if SERVICE_START_RETRY_COUNT < cnt
      then (Some EXIT_CODE_SERVICE_START_ERR,
            report_status_enable_command (hx_now env) (hx_now_ms env) status_folder config_seq_no (Some ERROR_STATUS) s)
      else (let s = run_command (Spawn (path_join (hx_exe_dir env) EXTENSION_PROCESS_NAME)) s
            in if hx_spawn env cnt then (None, s)
               else enable_loop env status_folder config_seq_no process_running (cnt + 1) s))"
  by pat_completeness auto
termination
  by (relation "measure (\<lambda>(env, f, n, p, cnt, s). SERVICE_START_RETRY_COUNT + 1 - cnt)") auto

declare enable_loop.simps [simp del]

definition enable_handler :: "handler_obs \<Rightarrow> string \<Rightarrow> string option \<Rightarrow> ext_state \<Rightarrow> handler_result" where
  "enable_handler env status_folder config_seq_no s =
     (case update_current_seq_no config_seq_no (hx_exe_dir env) s of
        (Inl e, s) \<Rightarrow> (Some EXIT_CODE_NO_CONFIG_SEQ_NO, s)
      | (Inr should_report_status, s) \<Rightarrow>
          (let s = (if should_report_status
                    then report_status_enable_command (hx_now env) (hx_now_ms env) status_folder config_seq_no None s
                    else s);
               process_running = (get_linux_extension_long_running_process (hx_processes env) \<noteq> None)
           in case enable_loop env status_folder config_seq_no process_running 0 s of
                (Some code, s) \<Rightarrow> (Some code, s)
              | (None, s) \<Rightarrow>
                  if update_tag_file_exists env s then (None, snd (fs_remove (get_update_tag_file env) s)) else (None, s)))"

definition disable_handler :: "handler_obs \<Rightarrow> ext_state \<Rightarrow> handler_result" where
  "disable_handler env s =
     (case get_linux_extension_long_running_process (hx_processes env) of
        Some pid \<Rightarrow> (None, run_command (Kill pid) s)
      | None \<Rightarrow> (None, s))"

definition reset_handler :: "handler_obs \<Rightarrow> ext_state \<Rightarrow> handler_result" where
  "reset_handler env s =
     (None, snd (fs_remove (seq_no_file (hx_exe_dir env)) (snd (fs_remove (get_update_tag_file env) s))))"

function update_loop :: "handler_obs \<Rightarrow> nat \<Rightarrow> ext_state \<Rightarrow> ext_state" where
  "update_loop env cnt s =
     (if SERVICE_START_RETRY_COUNT < cnt then s
      else (case fs_write (get_update_tag_file env) (Text_File (hx_now env)) s of
              (True, s) \<Rightarrow> s
            | (False, s) \<Rightarrow> update_loop env (cnt + 1) s))"
  by pat_completeness auto
termination
  by (relation "measure (\<lambda>(env, cnt, s). SERVICE_START_RETRY_COUNT + 1 - cnt)") auto

declare update_loop.simps [simp del]

definition update_handler :: "handler_obs \<Rightarrow> ext_state \<Rightarrow> handler_result" where
  "update_handler env s = (None, update_loop env 0 s)"

definition handle_command :: "handler_obs \<Rightarrow> handler_environment \<Rightarrow> string \<Rightarrow> string option \<Rightarrow> ext_state \<Rightarrow> handler_result" where
  "handle_command env h cmd config_seq_no s =
     (if cmd = ''install'' then install_handler env s
      else if cmd = ''uninstall'' then unistall_handler env s
      else if cmd = ''enable'' then enable_handler env (statusFolder h) config_seq_no s
      else if cmd = ''disable'' then disable_handler env s
      else if cmd = ''reset'' then reset_handler env s
      else if cmd = ''update'' then update_handler env s
      else (None, s))"

definition program_start :: "handler_obs \<Rightarrow> string list \<Rightarrow> string option \<Rightarrow> ext_state \<Rightarrow> handler_result" where
  "program_start env args config_seq_no s =
     (if length args < 2 then (Some INVALID_INPUT_ARGS_LENGTH, s)
      else (case get_handler_environment (hx_exe_dir env) s of
              (Inl code, s) \<Rightarrow> (Some code, s)
            | (Inr h, s) \<Rightarrow>
                if \<not> check_os_version_supported env
                then (Some EXIT_CODE_NOT_SUPPORTED_OS_VERSION, report_os_not_supported env h config_seq_no s)
                else handle_command env h (args ! 1) config_seq_no s))"

text \<open>\<^verbatim>\<open>main\<close> with arguments: the sequence number comes from the environment.\<close>

definition extension_main :: "handler_obs \<Rightarrow> string list \<Rightarrow> string option \<Rightarrow> ext_state \<Rightarrow> handler_result" where
  "extension_main env args seq_no_var s =
     program_start env args (Some (case seq_no_var of Some n \<Rightarrow> n | None \<Rightarrow> ''no seq no'')) s"

section \<open>Lemmas\<close>

definition spawn_command :: "handler_obs \<Rightarrow> ext_command" where
  "spawn_command env = Spawn (path_join (hx_exe_dir env) EXTENSION_PROCESS_NAME)"

text \<open>The loop that starts the service: six attempts at most, ended by the first that succeeds.\<close>

lemma enable_loop_running: "enable_loop env f n True cnt s = (None, s)"
  by (simp add: enable_loop.simps)

lemma commands_report:
  "xs_commands (report_status_enable_command a b f n st s) = xs_commands s"
  by (auto simp: report_status_enable_command_def report_status_def fs_write_def next_ext_fault_def Let_def
      split: list.split bool.split)

lemma enable_loop_spec:
  assumes "cnt \<le> 6" and "\<forall>k. cnt \<le> k \<longrightarrow> k < j \<longrightarrow> \<not> hx_spawn env k" and "cnt \<le> j" and "j \<le> 6"
    and "j < 6 \<longrightarrow> hx_spawn env j"
  shows "fst (enable_loop env f n False cnt s) = (if j < 6 then None else Some EXIT_CODE_SERVICE_START_ERR)
     \<and> xs_commands (snd (enable_loop env f n False cnt s))
        = xs_commands s @ replicate (if j < 6 then j - cnt + 1 else 6 - cnt) (spawn_command env)"
  using assms
proof (induction "6 - cnt" arbitrary: cnt s)
  case 0
  then have "cnt = 6" "j = 6"
    by simp_all
  then show ?case
    by (simp add: enable_loop.simps [of _ _ _ _ 6] commands_report agent_defs)
next
  case (Suc d)
  let ?s = "run_command (spawn_command env) s"
  have step: "enable_loop env f n False cnt s
      = (if hx_spawn env cnt then (None, ?s) else enable_loop env f n False (cnt + 1) ?s)"
  proof -
    have "\<not> SERVICE_START_RETRY_COUNT < cnt"
      using Suc.hyps(2) by (simp add: agent_defs)
    then show ?thesis
      by (simp add: enable_loop.simps [of _ _ _ _ cnt] spawn_command_def)
  qed
  show ?case
  proof (cases "hx_spawn env cnt")
    case True
    with Suc.prems have "j = cnt"
      by (metis le_neq_implies_less order_refl)
    with True Suc.hyps(2) show ?thesis
      by (simp add: step run_command_def)
  next
    case False
    with Suc.prems Suc.hyps(2) have j: "cnt + 1 \<le> j"
      by (cases "j = cnt") auto
    have "fst (enable_loop env f n False (cnt + 1) ?s) = (if j < 6 then None else Some EXIT_CODE_SERVICE_START_ERR)
       \<and> xs_commands (snd (enable_loop env f n False (cnt + 1) ?s))
          = xs_commands ?s @ replicate (if j < 6 then j - (cnt + 1) + 1 else 6 - (cnt + 1)) (spawn_command env)"
      using Suc.prems Suc.hyps(2) j by (intro Suc.hyps(1)) auto
    moreover have "xs_commands ?s @ replicate m (spawn_command env) = xs_commands s @ replicate (Suc m) (spawn_command env)" for m
      by (simp add: run_command_def)
    moreover have "Suc (if j < 6 then j - (cnt + 1) + 1 else 6 - (cnt + 1)) = (if j < 6 then j - cnt + 1 else 6 - cnt)"
      using j Suc.hyps(2) by auto
    ultimately show ?thesis
      using False by (simp only: step if_False)
  qed
qed

text \<open>The number of attempts that fail before the first success, of the six the loop may make.\<close>

definition failed_spawns :: "handler_obs \<Rightarrow> nat" where
  "failed_spawns env = length (takeWhile (\<lambda>k. \<not> hx_spawn env k) [0..<6])"

lemma failed_spawns_bounds:
  "failed_spawns env \<le> 6" "k < failed_spawns env \<Longrightarrow> \<not> hx_spawn env k"
  "failed_spawns env < 6 \<Longrightarrow> hx_spawn env (failed_spawns env)"
proof -
  let ?t = "takeWhile (\<lambda>k. \<not> hx_spawn env k) [0..<6]"
  show le: "failed_spawns env \<le> 6"
    using length_takeWhile_le [of "\<lambda>k. \<not> hx_spawn env k" "[0..<6]"] by (simp add: failed_spawns_def)
  show "\<not> hx_spawn env k" if "k < failed_spawns env"
  proof -
    have "?t ! k = k"
      using that le by (simp add: failed_spawns_def takeWhile_nth)
    with that show ?thesis
      using nth_mem [of k ?t] set_takeWhileD [of "?t ! k"] by (auto simp: failed_spawns_def)
  qed
  show "hx_spawn env (failed_spawns env)" if "failed_spawns env < 6"
    using that nth_length_takeWhile [of "\<lambda>k. \<not> hx_spawn env k" "[0..<6]"] by (simp add: failed_spawns_def)
qed

lemma fs_write_no_fault:
  "xs_faults s = [] \<Longrightarrow> fs_write p c s = (True, s\<lparr>xs_files := hm_insert p c (xs_files s)\<rparr>)"
  by (simp add: fs_write_def next_ext_fault_def)

lemma fs_remove_commands: "xs_commands (snd (fs_remove p s)) = xs_commands s"
  by (auto simp: fs_remove_def next_ext_fault_def split: list.split bool.split option.split)

lemma update_current_seq_no_frame:
  "update_current_seq_no n exe s = (r, s') \<Longrightarrow> xs_commands s' = xs_commands s \<and> (xs_faults s = [] \<longrightarrow> xs_faults s' = [])"
  by (auto simp: update_current_seq_no_def fs_read_to_string_def fs_write_def next_ext_fault_def
      split: option.splits list.splits bool.splits ext_file.splits if_splits)

lemma report_no_fault: "xs_faults s = [] \<Longrightarrow> xs_faults (report_status_enable_command a b f n st s) = []"
  by (simp add: report_status_enable_command_def report_status_def fs_write_no_fault Let_def)

lemma enable_loop_no_fault: "xs_faults s = [] \<Longrightarrow> xs_faults (snd (enable_loop env f n p cnt s)) = []"
proof (induction env f n p cnt s rule: enable_loop.induct)
  case (1 env f n p cnt s)
  then show ?case
    by (subst enable_loop.simps) (auto simp: report_no_fault run_command_def Let_def)
qed

lemma enable_handler_end:
  assumes "xs_faults s = []" and "fst (enable_handler env folder n s) = None"
  shows "\<exists>s3. xs_faults s3 = [] \<and> snd (enable_handler env folder n s)
     = (if update_tag_file_exists env s3 then snd (fs_remove (get_update_tag_file env) s3) else s3)"
proof -
  obtain r s1 where u: "update_current_seq_no n (hx_exe_dir env) s = (r, s1)"
    by fastforce
  with assms obtain b where r: "r = Inr b"
    by (cases r) (auto simp: enable_handler_def)
  define s2 where "s2 = (if b then report_status_enable_command (hx_now env) (hx_now_ms env) folder n None s1 else s1)"
  have f2: "xs_faults s2 = []"
    using update_current_seq_no_frame [OF u] assms(1) by (simp add: s2_def report_no_fault)
  obtain code s3 where l: "enable_loop env folder n
      (get_linux_extension_long_running_process (hx_processes env) \<noteq> None) 0 s2 = (code, s3)"
    by fastforce
  have "xs_faults s3 = []"
    using enable_loop_no_fault [OF f2] l by (metis snd_conv)
  moreover have "code = None"
    using assms(2) l by (cases code) (auto simp: enable_handler_def u r s2_def [symmetric] Let_def)
  ultimately show ?thesis
    using l by (intro exI [of _ s3]) (simp add: enable_handler_def u r s2_def [symmetric] Let_def)
qed

section \<open>Properties\<close>

text \<open>Enabling without a sequence number ends the process with code 10 before anything is started. With one, a
  service that runs already is not started again; otherwise it is started until an attempt succeeds, six times
  at most, and the process ends with code 11 exactly when all six failed.\<close>

theorem enable_starts_service:
  "fst (enable_handler env folder None s) = Some EXIT_CODE_NO_CONFIG_SEQ_NO
   \<and> xs_commands (snd (enable_handler env folder None s)) = xs_commands s
   \<and> (if get_linux_extension_long_running_process (hx_processes env) \<noteq> None
      then fst (enable_handler env folder (Some n) s) = None
         \<and> xs_commands (snd (enable_handler env folder (Some n) s)) = xs_commands s
      else fst (enable_handler env folder (Some n) s)
             = (if failed_spawns env = 6 then Some EXIT_CODE_SERVICE_START_ERR else None)
         \<and> xs_commands (snd (enable_handler env folder (Some n) s))
             = xs_commands s @ replicate (min 6 (failed_spawns env + 1)) (spawn_command env))"
proof -
  obtain r s1 where u: "update_current_seq_no (Some n) (hx_exe_dir env) s = (r, s1)"
    by fastforce
  then obtain b where r: "r = Inr b"
    by (auto simp: update_current_seq_no_def split: option.splits prod.splits if_splits)
  define s2 where "s2 = (if b then report_status_enable_command (hx_now env) (hx_now_ms env) folder (Some n) None s1 else s1)"
  have c2: "xs_commands s2 = xs_commands s"
    using update_current_seq_no_frame [OF u] by (simp add: s2_def commands_report)
  let ?p = "get_linux_extension_long_running_process (hx_processes env) \<noteq> None"
  obtain code s3 where l: "enable_loop env folder (Some n) ?p 0 s2 = (code, s3)"
    by fastforce
  have eh: "fst (enable_handler env folder (Some n) s) = code"
    "xs_commands (snd (enable_handler env folder (Some n) s)) = xs_commands s3"
    using l by (auto simp: enable_handler_def u r s2_def [symmetric] Let_def fs_remove_commands split: option.split)
  have none: "fst (enable_handler env folder None s) = Some EXIT_CODE_NO_CONFIG_SEQ_NO"
    "xs_commands (snd (enable_handler env folder None s)) = xs_commands s"
    by (simp_all add: enable_handler_def update_current_seq_no_def)
  show ?thesis
  proof (cases ?p)
    case True
    with l have "code = None" "s3 = s2"
      by (simp_all add: enable_loop_running)
    with True none eh c2 show ?thesis by simp
  next
    case False
    let ?j = "failed_spawns env"
    have "fst (enable_loop env folder (Some n) False 0 s2) = (if ?j < 6 then None else Some EXIT_CODE_SERVICE_START_ERR)
        \<and> xs_commands (snd (enable_loop env folder (Some n) False 0 s2))
           = xs_commands s2 @ replicate (if ?j < 6 then ?j - 0 + 1 else 6 - 0) (spawn_command env)"
      using failed_spawns_bounds(1,3) [of env] failed_spawns_bounds(2) [of _ env] by (intro enable_loop_spec) auto
    with False l have "code = (if ?j < 6 then None else Some EXIT_CODE_SERVICE_START_ERR)"
      "xs_commands s3 = xs_commands s2 @ replicate (if ?j < 6 then ?j + 1 else 6) (spawn_command env)"
      by auto
    with False none eh c2 failed_spawns_bounds(1) [of env] show ?thesis
      by (auto simp: min_def)
  qed
qed


definition example_handler :: "string \<Rightarrow> handler_obs" where
  "example_handler dir = \<lparr>hx_exe_dir = dir, hx_now = ''t'', hx_now_ms = ''t'', hx_os_version = ''22.04'', hx_os_type = ''Ubuntu'',
     hx_long_os_version = ''Linux:Ubuntu-22.04'', hx_processes = [], hx_spawn = (\<lambda>k. True)\<rparr>"


end
