(* ===== verification/Extension_Service.thy ===== *)
theory Extension_Service
  imports Extension_Handler Agent_Status
begin

text \<open>
  \<^verbatim>\<open>proxy_agent_extension/src/service_main.rs\<close> for Linux: the monitor thread of the extension, which installs
  the agent when its version differs, follows the status file the agent writes, and runs the setup tool to
  restore the old agent or to purge its backup. One round of the loop is \<open>monitor_step\<close>, a function of what
  the round observes.
\<close>

section \<open>State\<close>

text \<open>The local variables of \<^verbatim>\<open>monitor_thread\<close>, with the files and commands of the extension.\<close>

record monitor_state =
  cache_seq_no :: string
  ms_status :: status_obj
  status_state_obj :: status_tracker
  restored_in_error :: bool
  proxy_agent_update_reported :: bool
  ms_ext :: ext_state
  ms_update_events :: nat

definition UPDATE_OK_MESSAGE :: string where
  "UPDATE_OK_MESSAGE = ''Update Proxy Agent command output successfully''"

definition monitor_state_new :: "string \<Rightarrow> ext_state \<Rightarrow> monitor_state" where
  "monitor_state_new now ext =
     \<lparr>cache_seq_no = [],
      ms_status = \<lparr>so_name = PLUGIN_NAME, so_operation = ENABLE_OPERATION, so_configurationAppliedTime = now,
        so_status = SUCCESS_STATUS, so_code = STATUS_CODE_OK,
        so_formattedMessage = \<lparr>fm_lang = LANG_EN_US, fm_message = UPDATE_OK_MESSAGE\<rparr>, so_substatus = []\<rparr>,
      status_state_obj = status_tracker_new, restored_in_error = False, proxy_agent_update_reported = False,
      ms_ext = ext, ms_update_events = 0\<rparr>"

text \<open>
  What a round observes: the clock, the version of the installed agent, the result of the setup tool (an
  exit code, no code when a signal ended it, or the error of starting it), the aggregate status file or the
  error of reading it, and the JSON texts of its parts.
\<close>

record monitor_obs =
  mo_now :: string
  mo_now_ms :: string
  mo_service_version :: string
  mo_install :: "string + int option"
  mo_aggregate :: "string + aggregate_status"
  mo_json_status :: "agent_status \<Rightarrow> string + string"
  mo_json_connections :: "connection_summary list \<Rightarrow> string + string"

text \<open>The fixed data of the thread: its directory, the status folder, the version of the agent it carries.\<close>

record monitor_env =
  me_exe_dir :: string
  me_status_folder :: string
  me_file_version :: string

section \<open>Operations\<close>

definition ms_run :: "string \<Rightarrow> monitor_state \<Rightarrow> monitor_state" where
  "ms_run cmd s = s\<lparr>ms_ext := run_command (Setup_Tool cmd) (ms_ext s)\<rparr>"

definition sub_status_new :: "string \<Rightarrow> string \<Rightarrow> int \<Rightarrow> string \<Rightarrow> sub_status" where
  "sub_status_new name st code m =
     \<lparr>ss_name = name, ss_status = st, ss_code = code, ss_formattedMessage = \<lparr>fm_lang = LANG_EN_US, fm_message = m\<rparr>\<rparr>"

definition backup_proxyagent :: "monitor_state \<Rightarrow> monitor_state" where
  "backup_proxyagent s = ms_run ''backup'' s"

text \<open>\<^verbatim>\<open>status.status = status_state_obj.update_state(ok)\<close>.\<close>

definition ms_update_state :: "bool \<Rightarrow> monitor_state \<Rightarrow> monitor_state" where
  "ms_update_state ok s =
     (case update_state ok (status_state_obj s) of
        (st, tracker) \<Rightarrow> s\<lparr>status_state_obj := tracker, ms_status := (ms_status s)\<lparr>so_status := st\<rparr>\<rparr>)"

definition set_outcome :: "string \<Rightarrow> int \<Rightarrow> string \<Rightarrow> monitor_state \<Rightarrow> monitor_state" where
  "set_outcome now code m s =
     s\<lparr>ms_status := (ms_status s)\<lparr>so_configurationAppliedTime := now, so_code := code,
         so_formattedMessage := (so_formattedMessage (ms_status s))\<lparr>fm_message := m\<rparr>, so_substatus := []\<rparr>\<rparr>"

definition ms_report :: "string \<Rightarrow> string \<Rightarrow> string \<Rightarrow> monitor_state \<Rightarrow> monitor_state" where
  "ms_report now_ms folder seq_no s =
     s\<lparr>ms_ext := report_status now_ms folder (Some seq_no) (ms_status s) (ms_ext s)\<rparr>"

definition report_proxy_agent_service_status :: "monitor_obs \<Rightarrow> string \<Rightarrow> string \<Rightarrow> monitor_state \<Rightarrow> monitor_state" where
  "report_proxy_agent_service_status obs status_folder seq_no s =
     (case mo_install obs of
        Inr code \<Rightarrow>
          if code = Some 0
          then ms_report (mo_now_ms obs) status_folder seq_no
                 (ms_update_state False (set_outcome (mo_now obs) STATUS_CODE_OK UPDATE_OK_MESSAGE s))
          else ms_report (mo_now_ms obs) status_folder seq_no
                 (ms_update_state False (set_outcome (mo_now obs)
                    (case code of Some c \<Rightarrow> c | None \<Rightarrow> STATUS_CODE_NOT_OK)
                    ''Update Proxy Agent command failed with error'' s))
      | Inl e \<Rightarrow>
          ms_report (mo_now_ms obs) status_folder seq_no
            (ms_update_state False (set_outcome (mo_now obs) STATUS_CODE_NOT_OK
               (''Update Proxy Agent command failed with error: '' @ e) s)))"

definition two_substatus :: "string \<Rightarrow> string \<Rightarrow> int \<Rightarrow> string \<Rightarrow> string \<Rightarrow> monitor_state \<Rightarrow> monitor_state" where
  "two_substatus now st code connection_message status_message s =
     s\<lparr>ms_status := (ms_status s)\<lparr>so_configurationAppliedTime := now,
         so_substatus := [sub_status_new PLUGIN_CONNECTION_NAME st code connection_message,
                          sub_status_new PLUGIN_STATUS_NAME st code status_message]\<rparr>\<rparr>"

definition mismatch_message :: "string \<Rightarrow> string \<Rightarrow> string" where
  "mismatch_message a b = ''Proxy agent aggregate status file version '' @ a
     @ '' does not match proxy agent file version in extension '' @ b"

definition extension_substatus :: "monitor_obs \<Rightarrow> aggregate_status \<Rightarrow> string \<Rightarrow> monitor_state \<Rightarrow> monitor_state" where
  "extension_substatus obs agg file_version s =
     (let agent = proxyAgentStatus agg
      in if as_version agent \<noteq> file_version
         then (let m = mismatch_message (as_version agent) file_version
               in two_substatus (mo_now obs) TRANSITIONING_STATUS STATUS_CODE_NOT_OK m m (ms_update_state False s))
         else
           (let status_message = (case mo_json_status obs agent of
                  Inr j \<Rightarrow> j | Inl e \<Rightarrow> ''Error in serializing proxy agent aggregate status: '' @ e);
                connection_message =
                  (if proxyConnectionSummary agg \<noteq> []
                   then (case mo_json_connections obs (proxyConnectionSummary agg) of
                           Inr j \<Rightarrow> j | Inl e \<Rightarrow> ''Error in serializing proxy agent aggregate connection status: '' @ e)
                   else ''proxy connection summary is empty'')
            in two_substatus (mo_now obs) SUCCESS_STATUS STATUS_CODE_OK connection_message status_message
                 (ms_update_state True s)))"

definition restore_purge_proxyagent :: "monitor_state \<Rightarrow> bool \<times> monitor_state" where
  "restore_purge_proxyagent s =
     (if so_status (ms_status s) = ERROR_STATUS then (True, ms_run ''restore'' s)
      else if so_status (ms_status s) = SUCCESS_STATUS then (True, ms_run ''purge'' s)
      else (False, s))"

text \<open>The part of \<^verbatim>\<open>report_proxy_agent_aggregate_status\<close> that reads the status file.\<close>

definition read_aggregate :: "monitor_obs \<Rightarrow> string \<Rightarrow> monitor_state \<Rightarrow> monitor_state" where
  "read_aggregate obs file_version s =
     (case mo_aggregate obs of
        Inr agg \<Rightarrow> extension_substatus obs agg file_version s
      | Inl e \<Rightarrow>
          (let m = ''Error in reading proxy agent aggregate status file: '' @ e
           in two_substatus (mo_now obs) TRANSITIONING_STATUS STATUS_CODE_NOT_OK m m (ms_update_state False s)))"

definition report_proxy_agent_aggregate_status :: "monitor_obs \<Rightarrow> string \<Rightarrow> monitor_state \<Rightarrow> monitor_state" where
  "report_proxy_agent_aggregate_status obs file_version s =
     (let s = read_aggregate obs file_version s
      in if \<not> restored_in_error s
         then (case restore_purge_proxyagent s of (b, s) \<Rightarrow> s\<lparr>restored_in_error := b\<rparr>)
         else s)"

text \<open>A changed sequence number: install the agent when the versions differ.\<close>

definition monitor_update :: "monitor_env \<Rightarrow> monitor_obs \<Rightarrow> monitor_state \<Rightarrow> monitor_state" where
  "monitor_update env obs s =
     (case get_current_seq_no (me_exe_dir env) (ms_ext s) of
        (current_seq_no, ext) \<Rightarrow>
          (let s = s\<lparr>ms_ext := ext\<rparr>
           in if cache_seq_no s \<noteq> current_seq_no
              then (let s = s\<lparr>cache_seq_no := current_seq_no\<rparr>
                    in if me_file_version env \<noteq> mo_service_version obs
                       then report_proxy_agent_service_status obs (path_join (me_exe_dir env) ''status'') current_seq_no
                              ((ms_run ''install'' (backup_proxyagent s))\<lparr>proxy_agent_update_reported := True\<rparr>)
                       else s)
              else s))"

definition monitor_step :: "monitor_env \<Rightarrow> monitor_obs \<Rightarrow> monitor_state \<Rightarrow> monitor_state" where
  "monitor_step env obs s =
     (let s = report_proxy_agent_aggregate_status obs (me_file_version env) (monitor_update env obs s);
          s = (if so_status (ms_status s) = SUCCESS_STATUS
               then s\<lparr>ms_update_events := ms_update_events s + (if proxy_agent_update_reported s then 1 else 0),
                      proxy_agent_update_reported := False\<rparr>
               else s)
      in ms_report (mo_now_ms obs) (me_status_folder env) (cache_seq_no s) s)"

text \<open>The heartbeat thread writes this file every five minutes.\<close>

definition heartbeat_step :: "handler_environment \<Rightarrow> ext_state \<Rightarrow> ext_state" where
  "heartbeat_step h s =
     report_heartbeat (heartbeatFile h)
       \<lparr>ho_status = HEARTBEAT_READY_STATUS, ho_code = show_int STATUS_CODE_OK,
        ho_formattedMessage = \<lparr>fm_lang = LANG_EN_US, fm_message = ''Extension is running''\<rparr>\<rparr> s"

section \<open>What a round does\<close>

abbreviation commands :: "monitor_state \<Rightarrow> ext_command list" where
  "commands s \<equiv> xs_commands (ms_ext s)"

text \<open>Whether a round installs the agent, and whether it finds the agent healthy.\<close>

definition seq_no_of :: "monitor_env \<Rightarrow> monitor_state \<Rightarrow> string" where
  "seq_no_of env s = fst (get_current_seq_no (me_exe_dir env) (ms_ext s))"

definition installs :: "monitor_env \<Rightarrow> monitor_obs \<Rightarrow> monitor_state \<Rightarrow> bool" where
  "installs env obs s \<longleftrightarrow> cache_seq_no s \<noteq> seq_no_of env s \<and> me_file_version env \<noteq> mo_service_version obs"

definition healthy :: "monitor_env \<Rightarrow> monitor_obs \<Rightarrow> bool" where
  "healthy env obs = (case mo_aggregate obs of Inr agg \<Rightarrow> as_version (proxyAgentStatus agg) = me_file_version env | Inl _ \<Rightarrow> False)"

definition outcomes :: "monitor_env \<Rightarrow> monitor_obs \<Rightarrow> monitor_state \<Rightarrow> bool list \<Rightarrow> bool list" where
  "outcomes env obs s h = healthy env obs # (if installs env obs s then False # h else h)"

text \<open>Which parts of the state the small operations leave alone.\<close>

lemma report_status_commands: "xs_commands (report_status a f n obj s) = xs_commands s"
  by (auto simp: report_status_def fs_write_def next_ext_fault_def Let_def split: list.split bool.split)

lemma get_current_seq_no_commands: "xs_commands (snd (get_current_seq_no e s)) = xs_commands s"
  by (auto simp: get_current_seq_no_def fs_read_to_string_def next_ext_fault_def
      split: list.split bool.split option.split ext_file.split)

lemma ms_report_frame [simp]:
  "commands (ms_report a f n s) = commands s" "ms_status (ms_report a f n s) = ms_status s"
  "status_state_obj (ms_report a f n s) = status_state_obj s" "restored_in_error (ms_report a f n s) = restored_in_error s"
  "cache_seq_no (ms_report a f n s) = cache_seq_no s"
  by (simp_all add: ms_report_def report_status_commands)

lemma ms_update_state_frame [simp]:
  "ms_ext (ms_update_state b s) = ms_ext s" "restored_in_error (ms_update_state b s) = restored_in_error s"
  "cache_seq_no (ms_update_state b s) = cache_seq_no s"
  "status_state_obj (ms_update_state b s) = snd (update_state b (status_state_obj s))"
  "so_status (ms_status (ms_update_state b s)) = fst (update_state b (status_state_obj s))"
  by (simp_all add: ms_update_state_def split: prod.split)

lemma set_outcome_frame [simp]:
  "ms_ext (set_outcome a c m s) = ms_ext s" "restored_in_error (set_outcome a c m s) = restored_in_error s"
  "cache_seq_no (set_outcome a c m s) = cache_seq_no s" "status_state_obj (set_outcome a c m s) = status_state_obj s"
  by (simp_all add: set_outcome_def)

lemma two_substatus_frame [simp]:
  "ms_ext (two_substatus a b c d e s) = ms_ext s" "restored_in_error (two_substatus a b c d e s) = restored_in_error s"
  "cache_seq_no (two_substatus a b c d e s) = cache_seq_no s"
  "status_state_obj (two_substatus a b c d e s) = status_state_obj s"
  "so_status (ms_status (two_substatus a b c d e s)) = so_status (ms_status s)"
  by (simp_all add: two_substatus_def)

lemma service_status_frame [simp]:
  "commands (report_proxy_agent_service_status obs f n s) = commands s"
  "restored_in_error (report_proxy_agent_service_status obs f n s) = restored_in_error s"
  "cache_seq_no (report_proxy_agent_service_status obs f n s) = cache_seq_no s"
  "status_state_obj (report_proxy_agent_service_status obs f n s) = snd (update_state False (status_state_obj s))"
  by (simp_all add: report_proxy_agent_service_status_def split: sum.split)

lemma ms_run_frame [simp]:
  "commands (ms_run c s) = commands s @ [Setup_Tool c]" "restored_in_error (ms_run c s) = restored_in_error s"
  "cache_seq_no (ms_run c s) = cache_seq_no s" "status_state_obj (ms_run c s) = status_state_obj s"
  "ms_status (ms_run c s) = ms_status s"
  by (simp_all add: ms_run_def run_command_def)

lemma monitor_update_effect:
  "commands (monitor_update env obs s)
     = commands s @ (if installs env obs s then [Setup_Tool ''backup'', Setup_Tool ''install''] else [])"
  "restored_in_error (monitor_update env obs s) = restored_in_error s"
  "cache_seq_no (monitor_update env obs s) = seq_no_of env s"
  "status_state_obj (monitor_update env obs s)
     = (if installs env obs s then snd (update_state False (status_state_obj s)) else status_state_obj s)"
  using get_current_seq_no_commands [of "me_exe_dir env" "ms_ext s"]
  by (auto simp: monitor_update_def installs_def seq_no_of_def backup_proxyagent_def Let_def split: prod.split)

definition follow_up :: "string \<Rightarrow> string list" where
  "follow_up st = (if st = ERROR_STATUS then [''restore''] else if st = SUCCESS_STATUS then [''purge''] else [])"

lemma extension_substatus_frame [simp]:
  "ms_ext (extension_substatus obs agg v s) = ms_ext s"
  "restored_in_error (extension_substatus obs agg v s) = restored_in_error s"
  "cache_seq_no (extension_substatus obs agg v s) = cache_seq_no s"
  "status_state_obj (extension_substatus obs agg v s)
     = snd (update_state (as_version (proxyAgentStatus agg) = v) (status_state_obj s))"
  "so_status (ms_status (extension_substatus obs agg v s))
     = fst (update_state (as_version (proxyAgentStatus agg) = v) (status_state_obj s))"
  by (simp_all add: extension_substatus_def Let_def)

lemma read_aggregate_frame [simp]:
  "ms_ext (read_aggregate obs v s) = ms_ext s"
  "restored_in_error (read_aggregate obs v s) = restored_in_error s"
  "cache_seq_no (read_aggregate obs v s) = cache_seq_no s"
  by (simp_all add: read_aggregate_def Let_def split: sum.split)

lemma read_aggregate_state [simp]:
  "status_state_obj (read_aggregate obs (me_file_version env) s) = snd (update_state (healthy env obs) (status_state_obj s))"
  "so_status (ms_status (read_aggregate obs (me_file_version env) s)) = fst (update_state (healthy env obs) (status_state_obj s))"
  by (simp_all add: read_aggregate_def healthy_def Let_def split: sum.split)

lemma restore_purge_frame:
  "restore_purge_proxyagent s = (b, s') \<Longrightarrow> ms_status s' = ms_status s \<and> status_state_obj s' = status_state_obj s
     \<and> cache_seq_no s' = cache_seq_no s \<and> commands s' = commands s @ map Setup_Tool (follow_up (so_status (ms_status s)))
     \<and> b = (follow_up (so_status (ms_status s)) \<noteq> [])"
  by (auto simp: restore_purge_proxyagent_def follow_up_def split: if_splits)

lemma aggregate_effect:
  fixes obs env s
  defines "r \<equiv> report_proxy_agent_aggregate_status obs (me_file_version env) s"
  shows "status_state_obj r = snd (update_state (healthy env obs) (status_state_obj s))
     \<and> so_status (ms_status r) = fst (update_state (healthy env obs) (status_state_obj s))
     \<and> commands r = commands s @ (if restored_in_error s then [] else map Setup_Tool (follow_up (so_status (ms_status r))))
     \<and> (restored_in_error r \<longleftrightarrow> restored_in_error s \<or> follow_up (so_status (ms_status r)) \<noteq> [])
     \<and> cache_seq_no r = cache_seq_no s"
proof (cases "restored_in_error s")
  case True
  then show ?thesis
    by (simp add: r_def report_proxy_agent_aggregate_status_def Let_def)
next
  case False
  obtain b s1 where rp: "restore_purge_proxyagent (read_aggregate obs (me_file_version env) s) = (b, s1)"
    by fastforce
  with restore_purge_frame [OF rp] False show ?thesis
    by (simp add: r_def report_proxy_agent_aggregate_status_def Let_def)
qed

lemma monitor_step_effect:
  fixes obs env s
  defines "s' \<equiv> monitor_step env obs s"
  shows "status_state_obj s' = snd (update_state (healthy env obs) (status_state_obj (monitor_update env obs s)))"
    and "so_status (ms_status s') = fst (update_state (healthy env obs) (status_state_obj (monitor_update env obs s)))"
    and "commands s' = commands s
           @ (if installs env obs s then [Setup_Tool ''backup'', Setup_Tool ''install''] else [])
           @ (if restored_in_error s then [] else map Setup_Tool (follow_up (so_status (ms_status s'))))"
    and "restored_in_error s' \<longleftrightarrow> restored_in_error s \<or> follow_up (so_status (ms_status s')) \<noteq> []"
    and "cache_seq_no s' = seq_no_of env s"
proof -
  define r where "r = report_proxy_agent_aggregate_status obs (me_file_version env) (monitor_update env obs s)"
  note a = aggregate_effect [of obs env "monitor_update env obs s", folded r_def]
  have s': "status_state_obj s' = status_state_obj r" "ms_status s' = ms_status r" "commands s' = commands r"
    "restored_in_error s' = restored_in_error r" "cache_seq_no s' = cache_seq_no r"
    by (simp_all add: s'_def monitor_step_def r_def [symmetric] Let_def)
  show "status_state_obj s' = snd (update_state (healthy env obs) (status_state_obj (monitor_update env obs s)))"
    "so_status (ms_status s') = fst (update_state (healthy env obs) (status_state_obj (monitor_update env obs s)))"
    using a by (simp_all add: s')
  show "commands s' = commands s
           @ (if installs env obs s then [Setup_Tool ''backup'', Setup_Tool ''install''] else [])
           @ (if restored_in_error s then [] else map Setup_Tool (follow_up (so_status (ms_status s'))))"
    using a by (simp add: s' monitor_update_effect)
  show "restored_in_error s' \<longleftrightarrow> restored_in_error s \<or> follow_up (so_status (ms_status s')) \<noteq> []"
    "cache_seq_no s' = seq_no_of env s"
    using a by (simp_all add: s' monitor_update_effect)
qed

lemma monitor_tracker:
  assumes "tracker_inv h (status_state_obj s)"
  shows "tracker_inv (outcomes env obs s h) (status_state_obj (monitor_step env obs s))"
    and "so_status (ms_status (monitor_step env obs s)) = state_spec (outcomes env obs s h)"
proof -
  let ?h = "if installs env obs s then False # h else h"
  have "tracker_inv ?h (status_state_obj (monitor_update env obs s))"
    using assms by (simp add: monitor_update_effect update_state_step(2))
  then show "tracker_inv (outcomes env obs s h) (status_state_obj (monitor_step env obs s))"
    and "so_status (ms_status (monitor_step env obs s)) = state_spec (outcomes env obs s h)"
    using monitor_step_effect(1,2) [of env obs s] update_state_step [of ?h] by (simp_all add: outcomes_def)
qed

section \<open>Runs\<close>

text \<open>The state of the thread together with the outcomes so far, the newest first.\<close>

fun monitor_run :: "monitor_env \<Rightarrow> monitor_obs list \<Rightarrow> monitor_state \<times> bool list \<Rightarrow> monitor_state \<times> bool list" where
  "monitor_run env [] (s, h) = (s, h)"
| "monitor_run env (obs # rest) (s, h) = monitor_run env rest (monitor_step env obs s, outcomes env obs s h)"

lemma monitor_run_fold: "fst (monitor_run env obs (s, h)) = fold (monitor_step env) obs s"
  by (induction obs arbitrary: s h) simp_all

definition is_follow_up :: "ext_command \<Rightarrow> bool" where
  "is_follow_up c \<longleftrightarrow> c = Setup_Tool ''restore'' \<or> c = Setup_Tool ''purge''"

definition install_blocks :: "ext_command list set" where
  "install_blocks = {[Setup_Tool ''backup'', Setup_Tool ''install''], [Setup_Tool ''restore''], [Setup_Tool ''purge'']}"

definition monitor_inv :: "bool list \<Rightarrow> monitor_state \<Rightarrow> bool" where
  "monitor_inv h s \<longleftrightarrow> tracker_inv h (status_state_obj s)
     \<and> length (filter is_follow_up (commands s)) = (if restored_in_error s then 1 else 0)
     \<and> (\<exists>bs. commands s = concat bs \<and> set bs \<subseteq> install_blocks)"

lemma filter_follow_up:
  "filter is_follow_up (map Setup_Tool (follow_up st)) = map Setup_Tool (follow_up st)"
  "length (follow_up st) = (if follow_up st = [] then 0 else 1)"
  "filter is_follow_up (if b then [Setup_Tool ''backup'', Setup_Tool ''install''] else []) = []"
  by (simp_all add: follow_up_def is_follow_up_def)

lemma monitor_step_inv:
  assumes "monitor_inv h s"
  shows "monitor_inv (outcomes env obs s h) (monitor_step env obs s)"
proof -
  let ?s = "monitor_step env obs s"
  note e = monitor_step_effect [of env obs s]
  have "length (filter is_follow_up (commands ?s)) = (if restored_in_error ?s then 1 else 0)"
    using assms by (simp add: monitor_inv_def e(3,4) filter_follow_up(1,3) filter_follow_up(2)
        del: map_append cong: if_cong)
  moreover have "\<exists>bs. commands ?s = concat bs \<and> set bs \<subseteq> install_blocks"
  proof -
    from assms obtain bs where bs: "commands s = concat bs" "set bs \<subseteq> install_blocks"
      by (auto simp: monitor_inv_def)
    let ?i = "if installs env obs s then [[Setup_Tool ''backup'', Setup_Tool ''install'']] else []"
    let ?f = "if restored_in_error s then [] else map (\<lambda>c. [Setup_Tool c]) (follow_up (so_status (ms_status ?s)))"
    have "commands ?s = concat (bs @ ?i @ ?f)"
      by (simp add: e(3) bs(1) follow_up_def)
    moreover have "set (bs @ ?i @ ?f) \<subseteq> install_blocks"
      using bs(2) by (auto simp: install_blocks_def follow_up_def)
    ultimately show ?thesis by blast
  qed
  ultimately show ?thesis
    using assms monitor_tracker(1) [of h s env obs] by (simp add: monitor_inv_def)
qed

lemma monitor_run_inv: "monitor_inv h s \<Longrightarrow> monitor_run env obs (s, h) = (s', h') \<Longrightarrow> monitor_inv h' s'"
  by (induction obs arbitrary: s h) (auto intro: monitor_step_inv)

lemma monitor_inv_new: "xs_commands ext = [] \<Longrightarrow> monitor_inv [] (monitor_state_new now ext)"
  by (auto simp: monitor_inv_def monitor_state_new_def tracker_inv_new intro: exI [of _ "[]"])

lemma monitor_run_reports:
  "monitor_inv h s \<Longrightarrow> (h \<noteq> [] \<longrightarrow> so_status (ms_status s) = state_spec h) \<Longrightarrow> monitor_run env obs (s, h) = (s', h')
   \<Longrightarrow> h' \<noteq> [] \<longrightarrow> so_status (ms_status s') = state_spec h'"
proof (induction obs arbitrary: s h)
  case Nil
  then show ?case by simp
next
  case (Cons ob obs)
  have "so_status (ms_status (monitor_step env ob s)) = state_spec (outcomes env ob s h)"
    using Cons.prems(1) by (intro monitor_tracker(2)) (simp add: monitor_inv_def)
  with Cons.IH [OF monitor_step_inv [OF Cons.prems(1), of env ob]] Cons.prems(3) show ?case by simp
qed

lemma monitor_run_history: "monitor_run env obs (s, h) = (s', h') \<Longrightarrow> length h + length obs \<le> length h'"
proof (induction obs arbitrary: s h)
  case Nil
  then show ?case by simp
next
  case (Cons ob obs)
  then have "length (outcomes env ob s h) + length obs \<le> length h'" by simp
  then show ?case by (simp add: outcomes_def split: if_splits)
qed

section \<open>Properties\<close>


definition example_monitor :: monitor_env where
  "example_monitor = \<lparr>me_exe_dir = ''/e'', me_status_folder = ''/e/status'', me_file_version = ''1.0''\<rparr>"

definition example_round :: monitor_obs where
  "example_round = \<lparr>mo_now = ''t'', mo_now_ms = ''t'', mo_service_version = ''1.0'', mo_install = Inr (Some 0),
     mo_aggregate = Inl ''not found'', mo_json_status = (\<lambda>a. Inl ''e''), mo_json_connections = (\<lambda>c. Inl ''e'')\<rparr>"

definition example_ext :: ext_state where
  "example_ext = \<lparr>xs_files = [], xs_faults = [], xs_commands = []\<rparr>"


text \<open>The setup tool is run in a fixed protocol: every installation follows a backup directly, and over the
  whole life of the monitor the old agent is restored or its backup purged at most once, the first time the
  reported state is an error or a success; from then on neither happens again, whatever is installed later.\<close>

theorem restore_or_purge_once:
  assumes "xs_commands ext = []"
  shows "let s = fold (monitor_step env) obs (monitor_state_new now ext)
     in (\<exists>bs. commands s = concat bs \<and> set bs \<subseteq> install_blocks)
      \<and> length (filter is_follow_up (commands s)) = (if restored_in_error s then 1 else 0)
      \<and> (let s' = fold (monitor_step env) later s
         in restored_in_error s \<longrightarrow> restored_in_error s' \<and> filter is_follow_up (commands s') = filter is_follow_up (commands s))"
proof -
  let ?s = "fold (monitor_step env) obs (monitor_state_new now ext)"
  obtain s h where r: "monitor_run env obs (monitor_state_new now ext, []) = (s, h)"
    by fastforce
  then have s: "s = ?s"
    using monitor_run_fold [of env obs "monitor_state_new now ext" "[]"] by simp
  have inv: "monitor_inv h ?s"
    using monitor_run_inv [OF monitor_inv_new [OF assms] r] s by simp
  have "restored_in_error (fold (monitor_step env) later x)
      \<and> filter is_follow_up (commands (fold (monitor_step env) later x)) = filter is_follow_up (commands x)"
    if "restored_in_error x" for x
    using that
    by (induction later arbitrary: x) (simp_all add: monitor_step_effect(3,4) filter_follow_up(3))
  then show ?thesis
    using inv by (auto simp: monitor_inv_def Let_def)
qed

theorem restore_or_purge_once_witness:
  "length (filter is_follow_up (commands (fold (monitor_step example_monitor) (replicate 40 example_round)
     (monitor_state_new ''t'' example_ext)))) \<le> 1"
  using restore_or_purge_once [of example_ext example_monitor "replicate 40 example_round" "''t''" "[]"]
  by (simp add: example_ext_def Let_def split: if_splits)

end
