(* ===== verification/Agent_Setup.thy ===== *)
theory Agent_Setup
  imports Rust_Path
begin

text \<open>
  \<^verbatim>\<open>proxy_agent_setup/src/\<close> for Linux, with \<^verbatim>\<open>proxy_agent_shared/src/service/linux_service.rs\<close>: the tool that
  installs, backs up and restores the agent. The state is the file system, a map from paths to contents, a
  list that says which of the coming file operations fail, and the \<^verbatim>\<open>systemctl\<close> commands run so far, whose
  results are only logged. A failing creation of a folder shows as a failure of the copy that follows.
\<close>

section \<open>Arguments\<close>

record args =
  action :: string
  uninstall_mode :: string

text \<open>\<^const>\<open>Inl\<close>: the process exits with this code.\<close>

definition args_parse :: "string list \<Rightarrow> int + args" where
  "args_parse as =
     (if length as < 2 then Inl 1
      else
        (let act = to_lowercase (as ! 1)
         in if act = ''help'' then Inl 0
            else if act \<notin> set [''install'', ''uninstall'', ''backup'', ''restore'', ''purge''] then Inl 1
            else if 2 < length as \<and> to_lowercase (as ! 2) \<noteq> ''service'' \<and> to_lowercase (as ! 2) \<noteq> ''package'' then Inl 1
            else Inr \<lparr>action = act,
                      uninstall_mode = (if 2 < length as then to_lowercase (as ! 2) else ''package'')\<rparr>))"

section \<open>Paths\<close>

definition SERVICE_NAME :: string where "SERVICE_NAME = ''azure-proxy-agent''"
definition SERVICE_CONFIG_FOLDER_PATH :: string where "SERVICE_CONFIG_FOLDER_PATH = ''/usr/lib/systemd/system/''"
definition EXE_FOLDER_PATH :: string where "EXE_FOLDER_PATH = ''/usr/sbin''"
definition SERVICE_CONFIG_FILE_NAME :: string where "SERVICE_CONFIG_FILE_NAME = ''azure-proxy-agent.service''"
definition CONFIG_FILE :: string where "CONFIG_FILE = ''proxy-agent.json''"
definition EBPF_FILE :: string where "EBPF_FILE = ''ebpf_cgroup.o''"
definition CONFIG_PATH :: string where "CONFIG_PATH = ''/etc/azure/proxy-agent.json''"
definition EBPF_PATH :: string where "EBPF_PATH = ''/usr/lib/azure-proxy-agent/ebpf_cgroup.o''"

definition proxy_agent_folder_in_setup :: "string \<Rightarrow> string" where
  "proxy_agent_folder_in_setup exe_dir = path_join exe_dir ''ProxyAgent''"

definition proxy_agent_exe_path :: "string \<Rightarrow> string" where
  "proxy_agent_exe_path dir = path_join dir ''azure-proxy-agent''"

definition proxy_agent_backup_folder :: "string \<Rightarrow> string" where
  "proxy_agent_backup_folder exe_dir = path_join (proxy_agent_folder_in_setup exe_dir) ''Backup''"

definition proxy_agent_backup_package_folder :: "string \<Rightarrow> string" where
  "proxy_agent_backup_package_folder exe_dir = path_join (proxy_agent_backup_folder exe_dir) ''Package''"

definition proxy_agent_running_folder :: string where
  "proxy_agent_running_folder = EXE_FOLDER_PATH"

definition service_config_path :: string where
  "service_config_path = path_join SERVICE_CONFIG_FOLDER_PATH (SERVICE_NAME @ ''.service'')"

section \<open>State\<close>

record setup_state =
  sf_files :: "(string, string) hmap"
  sf_faults :: "bool list"
  sf_systemctl :: "string list list"

definition next_setup_fault :: "setup_state \<Rightarrow> bool \<times> setup_state" where
  "next_setup_fault s = (case sf_faults s of [] \<Rightarrow> (False, s) | f # r \<Rightarrow> (f, s\<lparr>sf_faults := r\<rparr>))"

text \<open>\<^verbatim>\<open>fs::copy\<close>: whether it succeeded, and the state.\<close>

definition fs_copy :: "string \<Rightarrow> string \<Rightarrow> setup_state \<Rightarrow> bool \<times> setup_state" where
  "fs_copy src dst s =
     (case next_setup_fault s of
        (True, s) \<Rightarrow> (False, s)
      | (False, s) \<Rightarrow>
          (case hm_get (sf_files s) src of
             None \<Rightarrow> (False, s)
           | Some c \<Rightarrow> (True, s\<lparr>sf_files := hm_insert dst c (sf_files s)\<rparr>)))"

definition fs_remove_file :: "string \<Rightarrow> setup_state \<Rightarrow> bool \<times> setup_state" where
  "fs_remove_file p s =
     (case next_setup_fault s of
        (True, s) \<Rightarrow> (False, s)
      | (False, s) \<Rightarrow>
          (case hm_get (sf_files s) p of
             None \<Rightarrow> (False, s)
           | Some _ \<Rightarrow> (True, s\<lparr>sf_files := AList.delete p (sf_files s)\<rparr>)))"

definition systemctl :: "string list \<Rightarrow> setup_state \<Rightarrow> setup_state" where
  "systemctl as s = s\<lparr>sf_systemctl := sf_systemctl s @ [as]\<rparr>"

section \<open>Services\<close>

definition stop_service :: "setup_state \<Rightarrow> setup_state" where
  "stop_service s = systemctl [''stop'', SERVICE_NAME] s"

definition start_service :: "setup_state \<Rightarrow> setup_state" where
  "start_service s = systemctl [''start'', SERVICE_NAME] s"

definition install_or_update_service :: "setup_state \<Rightarrow> setup_state" where
  "install_or_update_service s =
     systemctl [''enable'', SERVICE_NAME] (systemctl [''daemon-reload''] (systemctl [''unmask'', SERVICE_NAME] s))"

definition delete_service_config_file :: "setup_state \<Rightarrow> setup_state" where
  "delete_service_config_file s =
     (case fs_remove_file service_config_path s of
        (True, s) \<Rightarrow> systemctl [''daemon-reload''] s
      | (False, s) \<Rightarrow> s)"

definition uninstall_service :: "setup_state \<Rightarrow> setup_state" where
  "uninstall_service s = delete_service_config_file (systemctl [''disable'', SERVICE_NAME] s)"

definition stop_and_delete_service :: "setup_state \<Rightarrow> setup_state" where
  "stop_and_delete_service s = uninstall_service (stop_service s)"

section \<open>Files of the package\<close>

definition copy_file :: "string \<Rightarrow> string \<Rightarrow> setup_state \<Rightarrow> setup_state" where
  "copy_file src dst s = snd (fs_copy src dst s)"

definition delete_file :: "string \<Rightarrow> setup_state \<Rightarrow> setup_state" where
  "delete_file p s = snd (fs_remove_file p s)"

definition backup_service_config_file :: "string \<Rightarrow> setup_state \<Rightarrow> setup_state" where
  "backup_service_config_file backup_folder s =
     snd (fs_copy (path_join SERVICE_CONFIG_FOLDER_PATH SERVICE_CONFIG_FILE_NAME)
            (path_join backup_folder SERVICE_CONFIG_FILE_NAME) s)"

definition backup_files :: "string \<Rightarrow> setup_state \<Rightarrow> setup_state" where
  "backup_files exe_dir s =
     (let backup_folder = proxy_agent_backup_package_folder exe_dir
      in backup_service_config_file (proxy_agent_backup_folder exe_dir)
           (copy_file (path_join proxy_agent_running_folder ''azure-proxy-agent'') (path_join backup_folder ''azure-proxy-agent'')
             (copy_file EBPF_PATH (path_join backup_folder EBPF_FILE)
               (copy_file CONFIG_PATH (path_join backup_folder CONFIG_FILE) s))))"

definition copy_files :: "string \<Rightarrow> setup_state \<Rightarrow> setup_state" where
  "copy_files src_folder s =
     copy_file (path_join src_folder EBPF_FILE) EBPF_PATH
       (copy_file (path_join src_folder CONFIG_FILE) CONFIG_PATH
         (copy_file (path_join src_folder ''azure-proxy-agent'')
            (path_join proxy_agent_running_folder ''azure-proxy-agent'') s))"

definition delete_files :: "setup_state \<Rightarrow> setup_state" where
  "delete_files s =
     delete_file EBPF_PATH (delete_file CONFIG_PATH
       (delete_file (path_join proxy_agent_running_folder ''azure-proxy-agent'') s))"

text \<open>\<^verbatim>\<open>fs::remove_dir_all\<close>: everything below the folder goes, or nothing when the call fails.\<close>

definition delete_folder :: "string \<Rightarrow> setup_state \<Rightarrow> setup_state" where
  "delete_folder folder s =
     (case next_setup_fault s of
        (True, s) \<Rightarrow> s
      | (False, s) \<Rightarrow> s\<lparr>sf_files := filter (\<lambda>e. \<not> starts_with (fst e) (folder @ ''/'')) (sf_files s)\<rparr>)"

definition delete_backup_folder :: "string \<Rightarrow> setup_state \<Rightarrow> setup_state" where
  "delete_backup_folder exe_dir s = delete_folder (proxy_agent_backup_folder exe_dir) s"

section \<open>Actions\<close>

text \<open>\<^const>\<open>Some\<close>: the process exits with this code; the exit of \<^verbatim>\<open>install_service\<close> cannot happen on Linux.\<close>

definition copy_service_config_file :: "string \<Rightarrow> setup_state \<Rightarrow> bool \<times> setup_state" where
  "copy_service_config_file service_file_dir s =
     fs_copy (path_join service_file_dir (SERVICE_NAME @ ''.service'')) service_config_path s"

definition setup_service :: "string \<Rightarrow> setup_state \<Rightarrow> int option \<times> setup_state" where
  "setup_service service_config_folder_path s =
     (case copy_service_config_file service_config_folder_path s of
        (False, s) \<Rightarrow> (Some 1, s)
      | (True, s) \<Rightarrow> (None, start_service (install_or_update_service s)))"

definition check_backup_exists :: "string \<Rightarrow> setup_state \<Rightarrow> bool" where
  "check_backup_exists exe_dir s \<longleftrightarrow>
     hm_get (sf_files s) (proxy_agent_exe_path (proxy_agent_backup_package_folder exe_dir)) \<noteq> None"

definition copy_proxy_agent :: "string \<Rightarrow> setup_state \<Rightarrow> setup_state" where
  "copy_proxy_agent exe_dir s = copy_files (proxy_agent_folder_in_setup exe_dir) s"

definition restore_proxy_agent :: "string \<Rightarrow> setup_state \<Rightarrow> setup_state" where
  "restore_proxy_agent exe_dir s = copy_files (proxy_agent_backup_package_folder exe_dir) s"

definition setup_action :: "string \<Rightarrow> args \<Rightarrow> setup_state \<Rightarrow> int option \<times> setup_state" where
  "setup_action exe_dir a s =
     (if action a = ''install'' then setup_service exe_dir (copy_proxy_agent exe_dir (stop_service s))
      else if action a = ''uninstall''
      then (let s = stop_and_delete_service s
            in (None, if uninstall_mode a = ''package'' then delete_files s else s))
      else if action a = ''backup'' then (None, backup_files exe_dir s)
      else if action a = ''restore''
      then (if \<not> check_backup_exists exe_dir s then (None, s)
            else (case setup_service (proxy_agent_backup_folder exe_dir) (restore_proxy_agent exe_dir (stop_service s)) of
                    (Some code, s) \<Rightarrow> (Some code, s)
                  | (None, s) \<Rightarrow> (None, if uninstall_mode a = ''package'' then delete_backup_folder exe_dir s else s)))
      else if action a = ''purge'' then (None, delete_backup_folder exe_dir s)
      else (None, s))"

definition setup_main :: "string \<Rightarrow> string list \<Rightarrow> setup_state \<Rightarrow> int option \<times> setup_state" where
  "setup_main exe_dir as s = (case args_parse as of Inl code \<Rightarrow> (Some code, s) | Inr a \<Rightarrow> setup_action exe_dir a s)"

section \<open>The installed files and their copies\<close>

text \<open>The four files of an installation, and where the package and the backup keep them.\<close>

definition targets :: "string list" where
  "targets = [path_join EXE_FOLDER_PATH ''azure-proxy-agent'', CONFIG_PATH, EBPF_PATH, service_config_path]"

definition package_paths :: "string \<Rightarrow> string list" where
  "package_paths d = map (path_join (proxy_agent_folder_in_setup d)) [''azure-proxy-agent'', CONFIG_FILE, EBPF_FILE]
     @ [path_join d (SERVICE_NAME @ ''.service'')]"

definition backup_paths :: "string \<Rightarrow> string list" where
  "backup_paths d = map (path_join (proxy_agent_backup_package_folder d)) [''azure-proxy-agent'', CONFIG_FILE, EBPF_FILE]
     @ [path_join (proxy_agent_backup_folder d) SERVICE_CONFIG_FILE_NAME]"

definition files_at :: "string list \<Rightarrow> setup_state \<Rightarrow> string option list" where
  "files_at ps s = map (hm_get (sf_files s)) ps"

text \<open>A directory whose name does not end with a slash.\<close>

definition plain_dir :: "string \<Rightarrow> bool" where
  "plain_dir d \<longleftrightarrow> d \<noteq> [] \<and> last d \<noteq> CHR ''/''"

lemma path_join_plain: "plain_dir d \<Longrightarrow> f \<noteq> [] \<Longrightarrow> hd f \<noteq> CHR ''/'' \<Longrightarrow> path_join d f = d @ ''/'' @ f"
  by (cases f) (auto simp: path_join_def plain_dir_def)

lemma setup_paths:
  assumes "plain_dir d"
  shows "proxy_agent_folder_in_setup d = d @ ''/ProxyAgent''"
    and "proxy_agent_backup_folder d = d @ ''/ProxyAgent/Backup''"
    and "proxy_agent_backup_package_folder d = d @ ''/ProxyAgent/Backup/Package''"
proof -
  show 1: "proxy_agent_folder_in_setup d = d @ ''/ProxyAgent''"
    using assms by (simp add: proxy_agent_folder_in_setup_def path_join_plain)
  have "plain_dir (d @ ''/ProxyAgent'')"
    by (simp add: plain_dir_def)
  then show 2: "proxy_agent_backup_folder d = d @ ''/ProxyAgent/Backup''"
    by (simp add: proxy_agent_backup_folder_def 1 path_join_plain)
  have "plain_dir (d @ ''/ProxyAgent/Backup'')"
    by (simp add: plain_dir_def)
  then show "proxy_agent_backup_package_folder d = d @ ''/ProxyAgent/Backup/Package''"
    by (simp add: proxy_agent_backup_package_folder_def 2 path_join_plain)
qed

lemma package_paths_eq:
  "plain_dir d \<Longrightarrow> package_paths d = [d @ ''/ProxyAgent/azure-proxy-agent'', d @ ''/ProxyAgent/proxy-agent.json'',
     d @ ''/ProxyAgent/ebpf_cgroup.o'', d @ ''/azure-proxy-agent.service'']"
  by (simp add: package_paths_def setup_paths path_join_plain plain_dir_def CONFIG_FILE_def EBPF_FILE_def SERVICE_NAME_def)

lemma backup_paths_eq:
  "plain_dir d \<Longrightarrow> backup_paths d = [d @ ''/ProxyAgent/Backup/Package/azure-proxy-agent'',
     d @ ''/ProxyAgent/Backup/Package/proxy-agent.json'', d @ ''/ProxyAgent/Backup/Package/ebpf_cgroup.o'',
     d @ ''/ProxyAgent/Backup/azure-proxy-agent.service'']"
  by (simp add: backup_paths_def setup_paths path_join_plain plain_dir_def CONFIG_FILE_def EBPF_FILE_def
      SERVICE_CONFIG_FILE_NAME_def)

lemma targets_eq:
  "targets = [''/usr/sbin/azure-proxy-agent'', ''/etc/azure/proxy-agent.json'', ''/usr/lib/azure-proxy-agent/ebpf_cgroup.o'',
     ''/usr/lib/systemd/system/azure-proxy-agent.service'']"
  by (simp add: targets_def EXE_FOLDER_PATH_def CONFIG_PATH_def EBPF_PATH_def service_config_path_def
      SERVICE_CONFIG_FOLDER_PATH_def SERVICE_NAME_def path_join_def)

lemma backup_not_target:
  assumes "plain_dir d" and "p \<in> set (backup_paths d)"
  shows "p \<notin> set targets"
proof
  assume "p \<in> set targets"
  with assms have "\<exists>x \<in> set (backup_paths d). \<exists>y \<in> set targets. rev x = rev y"
    by blast
  with assms(1) show False
    by (simp add: backup_paths_eq targets_eq)
qed

lemma distinct_paths: "plain_dir d \<Longrightarrow> distinct (backup_paths d)" "distinct targets"
  by (simp_all add: backup_paths_eq targets_eq)

section \<open>Copying\<close>

definition copy_all :: "(string \<times> string) list \<Rightarrow> setup_state \<Rightarrow> setup_state" where
  "copy_all ps s = fold (\<lambda>(src, dst). copy_file src dst) ps s"

lemma copy_file_ok:
  assumes "sf_faults s = []"
  shows "sf_faults (copy_file a b s) = []" and "sf_systemctl (copy_file a b s) = sf_systemctl s"
    and "hm_get (sf_files (copy_file a b s)) p
       = (if p = b \<and> hm_get (sf_files s) a \<noteq> None then hm_get (sf_files s) a else hm_get (sf_files s) p)"
  using assms by (auto simp: copy_file_def fs_copy_def next_setup_fault_def split: option.split)

lemma copy_all_ok:
  assumes "sf_faults s = []" and "set (map fst ps) \<inter> set (map snd ps) = {}" and "distinct (map snd ps)"
    and "\<forall>a \<in> set (map fst ps). hm_get (sf_files s) a \<noteq> None"
  shows "sf_faults (copy_all ps s) = [] \<and> sf_systemctl (copy_all ps s) = sf_systemctl s
     \<and> files_at (map snd ps) (copy_all ps s) = files_at (map fst ps) s
     \<and> (\<forall>p. p \<notin> set (map snd ps) \<longrightarrow> hm_get (sf_files (copy_all ps s)) p = hm_get (sf_files s) p)"
  using assms
proof (induction ps arbitrary: s)
  case Nil
  then show ?case by (simp add: copy_all_def files_at_def)
next
  case (Cons ab ps)
  obtain a b where ab: "ab = (a, b)" by fastforce
  let ?s = "copy_file a b s"
  note c = copy_file_ok [OF Cons.prems(1), of a b]
  have run: "copy_all ((a, b) # ps) s = copy_all ps ?s"
    by (simp add: copy_all_def)
  have src: "hm_get (sf_files ?s) x = hm_get (sf_files s) x" if "x \<in> set (map fst (ab # ps))" for x
    using Cons.prems(2) that by (auto simp: c(3) ab)
  have ih: "sf_faults (copy_all ps ?s) = [] \<and> sf_systemctl (copy_all ps ?s) = sf_systemctl ?s
     \<and> files_at (map snd ps) (copy_all ps ?s) = files_at (map fst ps) ?s
     \<and> (\<forall>p. p \<notin> set (map snd ps) \<longrightarrow> hm_get (sf_files (copy_all ps ?s)) p = hm_get (sf_files ?s) p)"
    using Cons.prems src c(1) by (intro Cons.IH) auto
  moreover have "files_at (map fst ps) ?s = files_at (map fst ps) s"
    using src by (simp add: files_at_def)
  moreover have "hm_get (sf_files (copy_all ps ?s)) b = hm_get (sf_files s) a"
    using ih Cons.prems(3,4) by (simp add: c(3) ab)
  ultimately show ?case
    using c(2) by (auto simp: run ab files_at_def c(3))
qed

lemma backup_files_copy: "backup_files d s = copy_all
   [(CONFIG_PATH, path_join (proxy_agent_backup_package_folder d) CONFIG_FILE),
    (EBPF_PATH, path_join (proxy_agent_backup_package_folder d) EBPF_FILE),
    (path_join EXE_FOLDER_PATH ''azure-proxy-agent'', path_join (proxy_agent_backup_package_folder d) ''azure-proxy-agent''),
    (service_config_path, path_join (proxy_agent_backup_folder d) SERVICE_CONFIG_FILE_NAME)] s"
  by (simp add: backup_files_def copy_all_def proxy_agent_running_folder_def backup_service_config_file_def copy_file_def
      service_config_path_def SERVICE_CONFIG_FILE_NAME_def SERVICE_NAME_def Let_def)

lemma copy_files_copy: "copy_files f s = copy_all
   [(path_join f ''azure-proxy-agent'', path_join EXE_FOLDER_PATH ''azure-proxy-agent''),
    (path_join f CONFIG_FILE, CONFIG_PATH), (path_join f EBPF_FILE, EBPF_PATH)] s"
  by (simp add: copy_files_def copy_all_def proxy_agent_running_folder_def)

lemma present: "None \<notin> set (files_at ps s) \<longleftrightarrow> (\<forall>p \<in> set ps. hm_get (sf_files s) p \<noteq> None)"
  unfolding files_at_def by (induction ps) auto

lemma backup_files_ok:
  assumes "plain_dir d" and "sf_faults s = []" and "None \<notin> set (files_at targets s)"
  shows "sf_faults (backup_files d s) = [] \<and> sf_systemctl (backup_files d s) = sf_systemctl s
     \<and> files_at (backup_paths d) (backup_files d s) = files_at targets s
     \<and> (\<forall>p. p \<notin> set (backup_paths d) \<longrightarrow> hm_get (sf_files (backup_files d s)) p = hm_get (sf_files s) p)"
proof -
  define b where "b = backup_paths d"
  have b: "b = [path_join (proxy_agent_backup_package_folder d) ''azure-proxy-agent'',
      path_join (proxy_agent_backup_package_folder d) CONFIG_FILE, path_join (proxy_agent_backup_package_folder d) EBPF_FILE,
      path_join (proxy_agent_backup_folder d) SERVICE_CONFIG_FILE_NAME]"
    by (simp add: b_def backup_paths_def)
  let ?ps = "[(targets ! 1, b ! 1), (targets ! 2, b ! 2), (targets ! 0, b ! 0), (targets ! 3, b ! 3)]"
  have ps: "backup_files d s = copy_all ?ps s"
    by (simp add: backup_files_copy targets_def b)
  have dis: "distinct b" "set targets \<inter> set b = {}"
    using distinct_paths(1) [OF assms(1)] backup_not_target [OF assms(1)] by (auto simp: b_def)
  have len: "length b = 4" "length targets = 4"
    by (simp_all add: b targets_def)
  then obtain b0 b1 b2 b3 where b4: "b = [b0, b1, b2, b3]"
    using b by blast
  obtain t0 t1 t2 t3 where t4: "targets = [t0, t1, t2, t3]"
    by (simp add: targets_def)
  have "sf_faults (copy_all ?ps s) = [] \<and> sf_systemctl (copy_all ?ps s) = sf_systemctl s
     \<and> files_at (map snd ?ps) (copy_all ?ps s) = files_at (map fst ?ps) s
     \<and> (\<forall>p. p \<notin> set (map snd ?ps) \<longrightarrow> hm_get (sf_files (copy_all ?ps s)) p = hm_get (sf_files s) p)"
    using assms(2,3) dis by (intro copy_all_ok) (auto simp: b4 t4 present)
  then show ?thesis
    unfolding b_def [symmetric] ps by (auto simp: b4 t4 files_at_def)
qed

text \<open>The systemctl commands of an installation.\<close>

definition setup_commands :: "string list list" where
  "setup_commands = [[''stop'', SERVICE_NAME], [''unmask'', SERVICE_NAME], [''daemon-reload''], [''enable'', SERVICE_NAME],
     [''start'', SERVICE_NAME]]"

text \<open>
  Stopping, copying the three files from a folder and setting up the service from a folder is a copy of the
  four files.
\<close>

lemma setup_from_ok:
  assumes faults: "sf_faults s = []"
    and srcs: "\<forall>p \<in> set (srcs @ [path_join cfg (SERVICE_NAME @ ''.service'')]). hm_get (sf_files s) p \<noteq> None"
    and "srcs = map (path_join f) [''azure-proxy-agent'', CONFIG_FILE, EBPF_FILE]"
    and disj: "set (srcs @ [path_join cfg (SERVICE_NAME @ ''.service'')]) \<inter> set targets = {}"
  shows "\<exists>s'. setup_service cfg (copy_files f (stop_service s)) = (None, s')
     \<and> files_at targets s' = files_at (srcs @ [path_join cfg (SERVICE_NAME @ ''.service'')]) s
     \<and> sf_faults s' = [] \<and> sf_systemctl s' = sf_systemctl s @ setup_commands
     \<and> (\<forall>p. p \<notin> set targets \<longrightarrow> hm_get (sf_files s') p = hm_get (sf_files s) p)"
proof -
  let ?c = "path_join cfg (SERVICE_NAME @ ''.service'')"
  obtain t0 t1 t2 t3 where t4: "targets = [t0, t1, t2, t3]"
    by (simp add: targets_def)
  have t: "t0 = path_join EXE_FOLDER_PATH ''azure-proxy-agent''" "t1 = CONFIG_PATH" "t2 = EBPF_PATH" "t3 = service_config_path"
    using t4 by (simp_all add: targets_def)
  let ?ps = "[(srcs ! 0, t0), (srcs ! 1, t1), (srcs ! 2, t2)]"
  obtain a0 a1 a2 where a: "srcs = [a0, a1, a2]"
    using assms(3) by simp
  let ?s0 = "stop_service s"
  have s0: "sf_faults ?s0 = []" "sf_files ?s0 = sf_files s"
    "sf_systemctl ?s0 = sf_systemctl s @ [[''stop'', SERVICE_NAME]]"
    using faults by (simp_all add: stop_service_def systemctl_def)
  have cp: "copy_files f ?s0 = copy_all ?ps ?s0"
    using assms(3) by (simp add: copy_files_copy t)
  have d: "distinct [t0, t1, t2, t3]"
    using distinct_paths(2) by (simp add: t4)
  let ?s1 = "copy_all ?ps ?s0"
  have c1: "sf_faults ?s1 = [] \<and> sf_systemctl ?s1 = sf_systemctl ?s0
     \<and> files_at (map snd ?ps) ?s1 = files_at (map fst ?ps) ?s0
     \<and> (\<forall>p. p \<notin> set (map snd ?ps) \<longrightarrow> hm_get (sf_files ?s1) p = hm_get (sf_files ?s0) p)"
    using s0 srcs disj d by (intro copy_all_ok) (auto simp: a t4)
  have cfg: "hm_get (sf_files ?s1) ?c = hm_get (sf_files s) ?c"
    using c1 disj s0 by (auto simp: t4)
  then obtain k where k: "hm_get (sf_files ?s1) ?c = Some k"
    using srcs by auto
  let ?s2 = "?s1\<lparr>sf_files := hm_insert t3 k (sf_files ?s1)\<rparr>"
  have "setup_service cfg (copy_files f ?s0) = (None, start_service (install_or_update_service ?s2))"
    using c1 k
    by (simp add: cp setup_service_def copy_service_config_file_def fs_copy_def next_setup_fault_def t)
  moreover have "files_at targets ?s2 = files_at (srcs @ [?c]) s"
    using c1 d k cfg s0 by (simp add: t4 a files_at_def)
  moreover have "hm_get (sf_files ?s2) p = hm_get (sf_files s) p" if "p \<notin> set targets" for p
    using c1 that s0 by (simp add: t4)
  ultimately show ?thesis
    using c1 s0
    by (simp add: start_service_def install_or_update_service_def systemctl_def setup_commands_def files_at_def)
qed

lemma setup_from:
  assumes "sf_faults s = []" and "None \<notin> set (files_at srcs s)" and "set srcs \<inter> set targets = {}"
    and "srcs = map (path_join f) [''azure-proxy-agent'', CONFIG_FILE, EBPF_FILE] @ [path_join cfg (SERVICE_NAME @ ''.service'')]"
  shows "\<exists>s'. setup_service cfg (copy_files f (stop_service s)) = (None, s') \<and> files_at targets s' = files_at srcs s
     \<and> sf_faults s' = [] \<and> sf_systemctl s' = sf_systemctl s @ setup_commands
     \<and> (\<forall>p. p \<notin> set targets \<longrightarrow> hm_get (sf_files s') p = hm_get (sf_files s) p)"
  using setup_from_ok [OF assms(1) assms(2) [unfolded present assms(4)] refl assms(3) [unfolded assms(4)]]
  unfolding assms(4) .

lemma package_disjoint:
  assumes "plain_dir d" and "d \<noteq> ''/usr/lib/systemd/system''"
  shows "set (package_paths d) \<inter> set targets = {}"
proof -
  have "rev x \<noteq> rev y" if "x \<in> set (package_paths d)" "y \<in> set targets" for x y
    using that assms rev_is_rev_conv [of d "''/usr/lib/systemd/system''"]
    by (auto simp: package_paths_eq targets_eq)
  then show ?thesis by blast
qed

lemma package_not_backup: "plain_dir d \<Longrightarrow> set (package_paths d) \<inter> set (backup_paths d) = {}"
  by (auto simp: package_paths_eq backup_paths_eq)

lemma target_not_in_backup: "plain_dir d \<Longrightarrow> p \<in> set targets \<Longrightarrow> \<not> starts_with p (proxy_agent_backup_folder d @ ''/'')"
proof
  assume "plain_dir d" "p \<in> set targets" "starts_with p (proxy_agent_backup_folder d @ ''/'')"
  then have "CHR ''P'' \<in> set p"
    by (auto simp: setup_paths dest: set_mono_prefix)
  with \<open>p \<in> set targets\<close> show False
    by (auto simp: targets_eq)
qed

lemma delete_backup_keeps:
  assumes "plain_dir d" and "sf_faults s = []"
  shows "files_at targets (delete_backup_folder d s) = files_at targets s"
    and "files_at (backup_paths d) (delete_backup_folder d s) = [None, None, None, None]"
proof -
  have get: "hm_get (sf_files (delete_backup_folder d s)) p
      = (if starts_with p (proxy_agent_backup_folder d @ ''/'') then None else hm_get (sf_files s) p)" for p
  proof -
    have "hm_get (filter (\<lambda>e. P (fst e)) m) p = (if P p then hm_get m p else None)" for P and m :: "(string, string) hmap"
      by (induction m) auto
    from this [of "\<lambda>n. \<not> starts_with n (proxy_agent_backup_folder d @ ''/'')" "sf_files s"] show ?thesis
      using assms(2) by (simp add: delete_backup_folder_def delete_folder_def next_setup_fault_def)
  qed
  show "files_at targets (delete_backup_folder d s) = files_at targets s"
    using target_not_in_backup [OF assms(1)] by (simp add: files_at_def get)
  show "files_at (backup_paths d) (delete_backup_folder d s) = [None, None, None, None]"
    using assms(1) by (simp add: files_at_def get backup_paths_eq setup_paths)
qed

section \<open>Properties\<close>

text \<open>C38: Backup, install and restore: when the file operations succeed, the installation puts the files of the
  package in place and restoring brings the four files of the agent back to what they were before, in either
  mode; each ends by enabling and starting the service.\<close>

theorem restore_undoes_install:
  assumes "plain_dir d" and "d \<noteq> ''/usr/lib/systemd/system''" and "sf_faults s = []"
    and "None \<notin> set (files_at targets s)" and "None \<notin> set (files_at (package_paths d) s)"
  shows "\<exists>s1 s2 s3. setup_action d \<lparr>action = ''backup'', uninstall_mode = m1\<rparr> s = (None, s1)
     \<and> setup_action d \<lparr>action = ''install'', uninstall_mode = m2\<rparr> s1 = (None, s2)
     \<and> files_at targets s2 = files_at (package_paths d) s
     \<and> setup_action d \<lparr>action = ''restore'', uninstall_mode = m3\<rparr> s2 = (None, s3)
     \<and> files_at targets s3 = files_at targets s
     \<and> sf_systemctl s3 = sf_systemctl s @ setup_commands @ setup_commands"
proof -
  let ?s1 = "backup_files d s"
  note b = backup_files_ok [OF assms(1,3,4)]
  have pkg1: "files_at (package_paths d) ?s1 = files_at (package_paths d) s"
    using b package_not_backup [OF assms(1)] by (auto simp: files_at_def)
  have "\<exists>s2. setup_service d (copy_files (proxy_agent_folder_in_setup d) (stop_service ?s1)) = (None, s2)
      \<and> files_at targets s2 = files_at (package_paths d) ?s1 \<and> sf_faults s2 = []
      \<and> sf_systemctl s2 = sf_systemctl ?s1 @ setup_commands
      \<and> (\<forall>p. p \<notin> set targets \<longrightarrow> hm_get (sf_files s2) p = hm_get (sf_files ?s1) p)"
    using b assms(5) pkg1 package_disjoint [OF assms(1,2)] by (intro setup_from) (auto simp: package_paths_def)
  then obtain s2 where s2: "setup_service d (copy_files (proxy_agent_folder_in_setup d) (stop_service ?s1)) = (None, s2)"
    "files_at targets s2 = files_at (package_paths d) ?s1" "sf_faults s2 = []"
    "sf_systemctl s2 = sf_systemctl ?s1 @ setup_commands"
    "\<And>p. p \<notin> set targets \<Longrightarrow> hm_get (sf_files s2) p = hm_get (sf_files ?s1) p"
    by blast
  have bk2: "files_at (backup_paths d) s2 = files_at targets s"
  proof -
    have "files_at (backup_paths d) s2 = files_at (backup_paths d) ?s1"
      using backup_not_target [OF assms(1)] by (simp add: files_at_def s2(5))
    with b show ?thesis by simp
  qed
  have chk: "check_backup_exists d s2"
  proof -
    have "hm_get (sf_files s2) (hd (backup_paths d)) = hm_get (sf_files s) (hd targets)"
      using bk2 by (simp add: files_at_def backup_paths_def targets_def)
    moreover have "hm_get (sf_files s) (hd targets) \<noteq> None"
      using assms(4) unfolding present by (simp add: targets_def)
    ultimately have "hm_get (sf_files s2) (hd (backup_paths d)) \<noteq> None" by simp
    then show ?thesis
      by (simp add: check_backup_exists_def proxy_agent_exe_path_def backup_paths_def)
  qed
  have "\<exists>s3. setup_service (proxy_agent_backup_folder d)
        (copy_files (proxy_agent_backup_package_folder d) (stop_service s2)) = (None, s3)
      \<and> files_at targets s3 = files_at (backup_paths d) s2 \<and> sf_faults s3 = []
      \<and> sf_systemctl s3 = sf_systemctl s2 @ setup_commands
      \<and> (\<forall>p. p \<notin> set targets \<longrightarrow> hm_get (sf_files s3) p = hm_get (sf_files s2) p)"
    using s2(3) bk2 assms(4) backup_not_target [OF assms(1)]
    by (intro setup_from) (auto simp: backup_paths_def SERVICE_CONFIG_FILE_NAME_def SERVICE_NAME_def)
  then obtain s3 where s3: "setup_service (proxy_agent_backup_folder d)
      (copy_files (proxy_agent_backup_package_folder d) (stop_service s2)) = (None, s3)"
    "files_at targets s3 = files_at (backup_paths d) s2" "sf_faults s3 = []"
    "sf_systemctl s3 = sf_systemctl s2 @ setup_commands"
    by blast
  let ?s3 = "if m3 = ''package'' then delete_backup_folder d s3 else s3"
  have "setup_action d \<lparr>action = ''restore'', uninstall_mode = m3\<rparr> s2 = (None, ?s3)"
    using chk s3(1) by (simp add: setup_action_def restore_proxy_agent_def)
  moreover have "files_at targets ?s3 = files_at targets s"
    using s3(2,3) bk2 delete_backup_keeps(1) [OF assms(1)] by simp
  moreover have "sf_systemctl ?s3 = sf_systemctl s3"
    using s3(3) by (simp add: delete_backup_folder_def delete_folder_def next_setup_fault_def)
  ultimately show ?thesis
    using s2 s3 b pkg1 by (simp add: setup_action_def copy_proxy_agent_def)
qed

definition example_setup :: setup_state where
  "example_setup =
     \<lparr>sf_files = [(''/usr/sbin/azure-proxy-agent'', ''old exe''), (''/etc/azure/proxy-agent.json'', ''old config''),
        (''/usr/lib/azure-proxy-agent/ebpf_cgroup.o'', ''old ebpf''),
        (''/usr/lib/systemd/system/azure-proxy-agent.service'', ''old unit''),
        (''/s/ProxyAgent/azure-proxy-agent'', ''new exe''), (''/s/ProxyAgent/proxy-agent.json'', ''new config''),
        (''/s/ProxyAgent/ebpf_cgroup.o'', ''new ebpf''), (''/s/azure-proxy-agent.service'', ''new unit'')],
      sf_faults = [], sf_systemctl = []\<rparr>"

theorem restore_undoes_install_witness:
  "\<exists>s1 s2 s3. setup_action ''/s'' \<lparr>action = ''backup'', uninstall_mode = ''package''\<rparr> example_setup = (None, s1)
     \<and> setup_action ''/s'' \<lparr>action = ''install'', uninstall_mode = ''package''\<rparr> s1 = (None, s2)
     \<and> hd (files_at targets s2) = Some ''new exe''
     \<and> setup_action ''/s'' \<lparr>action = ''restore'', uninstall_mode = ''package''\<rparr> s2 = (None, s3)
     \<and> hd (files_at targets s3) = Some ''old exe''"
proof -
  have d: "plain_dir ''/s''" "''/s'' \<noteq> ''/usr/lib/systemd/system''" "sf_faults example_setup = []"
    by (simp_all add: plain_dir_def example_setup_def)
  have f: "files_at targets example_setup = [Some ''old exe'', Some ''old config'', Some ''old ebpf'', Some ''old unit'']"
    "files_at (package_paths ''/s'') example_setup = [Some ''new exe'', Some ''new config'', Some ''new ebpf'', Some ''new unit'']"
    using d(1) by (simp_all add: targets_eq package_paths_eq files_at_def example_setup_def)
  show ?thesis
    using restore_undoes_install [OF d, of "''package''" "''package''" "''package''"] unfolding f by force
qed

text \<open>The command line: the tool acts only for one of the five actions, in any case of letters, and for the modes
  \<^verbatim>\<open>service\<close> and \<^verbatim>\<open>package\<close>, the latter being the default; every other call leaves the files alone and exits
  with code 1, \<^verbatim>\<open>help\<close> with 0; and restoring without a backup does nothing.\<close>

theorem setup_args_spec:
  "(case args_parse as of
      Inl code \<Rightarrow> setup_main d as s = (Some code, s) \<and> code \<in> {0, 1}
    | Inr a \<Rightarrow> 2 \<le> length as \<and> action a = to_lowercase (as ! 1) \<and> uninstall_mode a \<in> {''service'', ''package''}
        \<and> setup_main d as s = setup_action d a s)
   \<and> (action b = ''restore'' \<and> \<not> check_backup_exists d s \<longrightarrow> setup_action d b s = (None, s))"
proof
  show "case args_parse as of
      Inl code \<Rightarrow> setup_main d as s = (Some code, s) \<and> code \<in> {0, 1}
    | Inr a \<Rightarrow> 2 \<le> length as \<and> action a = to_lowercase (as ! 1) \<and> uninstall_mode a \<in> {''service'', ''package''}
        \<and> setup_main d as s = setup_action d a s"
    unfolding setup_main_def by (auto simp: args_parse_def Let_def)
qed (simp add: setup_action_def)

theorem setup_args_spec_witness:
  "setup_action ''/s'' \<lparr>action = ''restore'', uninstall_mode = ''package''\<rparr> example_setup = (None, example_setup)"
proof -
  have "\<not> check_backup_exists ''/s'' example_setup"
    by (simp add: check_backup_exists_def proxy_agent_exe_path_def setup_paths plain_dir_def path_join_def example_setup_def)
  then show ?thesis
    using setup_args_spec [where as = "[]" and d = "''/s''" and s = example_setup and b = "\<lparr>action = ''restore'', uninstall_mode = ''package''\<rparr>"] by simp
qed

end
