(* ===== verification/Windows_Path.thy ===== *)
theory Windows_Path
  imports Rust_Path Config
begin

text \<open>
  The part of \<^verbatim>\<open>std::path\<close> that the sources use, on Windows.
\<close>

section \<open>Definitions\<close>

text \<open>
  \<^verbatim>\<open>Path::file_name\<close> on Windows. A path may begin with a drive, a share, a device or the prefix that turns
  interpretation off; in a path of the last kind only the backslash separates and a dot is not skipped.
\<close>

definition win_sep :: "char \<Rightarrow> bool" where
  "win_sep c \<longleftrightarrow> c = CHR 0x5C \<or> c = CHR ''/''"

definition verbatim_prefix :: string where
  "verbatim_prefix = [CHR 0x5C, CHR 0x5C, CHR ''?'', CHR 0x5C]"

definition after_component :: "(char \<Rightarrow> bool) \<Rightarrow> string \<Rightarrow> string" where
  "after_component sep s = dropWhile (\<lambda>c. \<not> sep c) s"

definition drive_letter :: "char \<Rightarrow> bool" where
  "drive_letter c \<longleftrightarrow> 65 \<le> byte c \<and> byte c \<le> 90 \<or> 97 \<le> byte c \<and> byte c \<le> 122"

text \<open>What follows the server and share of a network path, when both are there.\<close>

definition after_share :: "(char \<Rightarrow> bool) \<Rightarrow> string \<Rightarrow> string option" where
  "after_share sep s =
     (case after_component sep s of
        [] \<Rightarrow> None
      | _ # share \<Rightarrow> if s = [] \<or> sep (hd s) \<or> share = [] \<or> sep (hd share) then None else Some (after_component sep share))"

fun strip_prefix :: "string \<Rightarrow> string" where
  "strip_prefix (a # b # r) =
     (if b = CHR '':'' \<and> drive_letter a then r
      else if win_sep a \<and> win_sep b
      then (case r of
              d # s # q \<Rightarrow> if d = CHR ''.'' \<and> win_sep s then after_component win_sep q
                          else unwrap_or (after_share win_sep r) (a # b # r)
            | _ \<Rightarrow> a # b # r)
      else a # b # r)"
| "strip_prefix p = p"

definition win_file_name :: "string \<Rightarrow> string option" where
  "win_file_name p =
     (if take 4 p = verbatim_prefix
      then (let r = drop 4 p;
                rest = (if take 4 r = ''UNC'' @ [CHR 0x5C] 
                        then after_component (\<lambda>c. c = CHR 0x5C) (drop 1 (after_component (\<lambda>c. c = CHR 0x5C) (drop 4 r)))
                        else after_component (\<lambda>c. c = CHR 0x5C) r)
            in case dropWhile (\<lambda>c. c = []) (rev (split_on CHR 0x5C rest)) of
                 [] \<Rightarrow> None
               | c # _ \<Rightarrow> if c = ''..'' \<or> c = ''.'' then None else Some c)
      else (case dropWhile (\<lambda>c. c = [] \<or> c = ''.'') (rev (concat (map (split_on CHR 0x5C) (split_on CHR ''/'' (strip_prefix p))))) of
              [] \<Rightarrow> None
            | c # _ \<Rightarrow> if c = ''..'' then None else Some c))"

text \<open>\<^verbatim>\<open>Path::join\<close> of a relative path.\<close>

definition win_join :: "string \<Rightarrow> string \<Rightarrow> string" where
  "win_join d f = (if d = [] \<or> win_sep (last d) then d @ f else d @ [CHR 0x5C] @ f)"

text \<open>\<^verbatim>\<open>Path::parent\<close> of a path without dot components, outside the uninterpreted kind.\<close>

definition drop_trailing_seps :: "string \<Rightarrow> string" where
  "drop_trailing_seps s = rev (dropWhile win_sep (rev s))"

definition win_parent :: "string \<Rightarrow> string option" where
  "win_parent p =
     (let body = strip_prefix p; pre = take (length p - length body) p; trimmed = drop_trailing_seps body
      in if trimmed = [] then None
         else (let dir = rev (dropWhile (\<lambda>c. \<not> win_sep c) (rev trimmed)); parent = drop_trailing_seps dir
               in Some (pre @ (if parent = [] then take 1 dir else parent))))"

section \<open>Lemmas\<close>

lemma concat_split_last:
  assumes "\<forall>c\<in>set n. \<not> win_sep c"
  shows "\<exists>xs. concat (map (split_on CHR 0x5C) (split_on CHR ''/'' (d @ CHR 0x5C # n))) = xs @ [n]"
proof -
  have n: "CHR 0x5C \<notin> set n" "CHR ''/'' \<notin> set n"
    using assms by (auto simp: win_sep_def)
  have slash: "\<exists>xs m. split_on CHR ''/'' (d @ CHR 0x5C # n) = xs @ [m @ CHR 0x5C # n]"
  proof (induction d)
    case Nil
    with n have "split_on CHR ''/'' (CHR 0x5C # n) = [] @ [[] @ CHR 0x5C # n]"
      by (simp add: split_on_no_sep)
    then show ?case by (metis append_Nil)
  next
    case (Cons c d)
    then obtain xs m where d: "split_on CHR ''/'' (d @ CHR 0x5C # n) = xs @ [m @ CHR 0x5C # n]" by blast
    show ?case
    proof (cases xs)
      case Nil
      with d show ?thesis by (cases "c = CHR ''/''") (auto intro: exI [of _ "c # m"])
    next
      case (Cons x xs')
      with d show ?thesis by (cases "c = CHR ''/''") auto
    qed
  qed
  then obtain xs m where "split_on CHR ''/'' (d @ CHR 0x5C # n) = xs @ [m @ CHR 0x5C # n]" by blast
  moreover have "split_on CHR 0x5C (m @ CHR 0x5C # n) = split_on CHR 0x5C m @ [n]"
    using split_on_append [OF n(1), of m] by simp
  ultimately show ?thesis by simp
qed

text \<open>A plain file name: no separator, no drive, and not one of the two names that stand for directories.\<close>

definition win_plain_name :: "string \<Rightarrow> bool" where
  "win_plain_name n \<longleftrightarrow> n \<noteq> [] \<and> n \<noteq> ''.'' \<and> n \<noteq> ''..'' \<and> CHR '':'' \<notin> set n \<and> (\<forall>c\<in>set n. \<not> win_sep c)"

lemma win_file_name_drive:
  assumes "drive_letter a" and "win_plain_name n"
  shows "win_file_name (a # CHR '':'' # d @ CHR 0x5C # n) = Some n"
proof -
  obtain xs where "concat (map (split_on CHR 0x5C) (split_on CHR ''/'' (d @ CHR 0x5C # n))) = xs @ [n]"
    using concat_split_last [of n d] assms(2) by (auto simp: win_plain_name_def)
  with assms show ?thesis
    by (simp add: win_file_name_def verbatim_prefix_def win_plain_name_def)
qed

lemma win_file_name_plain:
  assumes "win_plain_name n"
  shows "win_file_name n = Some n"
proof -
  have n: "CHR 0x5C \<notin> set n" "CHR ''/'' \<notin> set n"
    using assms by (auto simp: win_plain_name_def win_sep_def)
  have "strip_prefix n = n"
    using assms by (cases n rule: strip_prefix.cases) (auto simp: win_plain_name_def)
  moreover have "take 4 n \<noteq> verbatim_prefix"
    using n by (cases n) (auto simp: verbatim_prefix_def)
  ultimately show ?thesis
    using n assms by (simp add: win_file_name_def split_on_no_sep win_plain_name_def)
qed

text \<open>A directory on a drive, below its root.\<close>

definition drive_dir :: "string \<Rightarrow> bool" where
  "drive_dir d \<longleftrightarrow> (case d of a # b # x \<Rightarrow> drive_letter a \<and> b = CHR '':'' \<and> x \<noteq> [] \<and> \<not> win_sep (last x) | _ \<Rightarrow> False)"

lemma drive_dirE:
  assumes "drive_dir d"
  obtains a x where "d = a # CHR '':'' # x" "drive_letter a" "x \<noteq> []" "\<not> win_sep (last x)"
  using assms by (auto simp: drive_dir_def split: list.splits)

lemma win_join_dir: "drive_dir d \<Longrightarrow> win_join d f = d @ CHR 0x5C # f"
  by (erule drive_dirE) (simp add: win_join_def)

lemma win_parent_join:
  assumes "drive_dir d" and "win_plain_name n"
  shows "win_parent (win_join d n) = Some d"
proof -
  obtain a x where d: "d = a # CHR '':'' # x" "drive_letter a" "x \<noteq> []" "\<not> win_sep (last x)"
    using assms(1) by (rule drive_dirE)
  obtain y c where x: "x = y @ [c]" "\<not> win_sep c"
    using d(3,4) by (cases x rule: rev_cases) auto
  have n: "\<forall>c\<in>set (rev n). \<not> win_sep c" "n \<noteq> []"
    using assms(2) by (auto simp: win_plain_name_def)
  have sep: "win_sep CHR 0x5C"
    by (simp add: win_sep_def)
  have body: "strip_prefix (win_join d n) = x @ CHR 0x5C # n"
    using d win_join_dir [OF assms(1), of n] by simp
  have "drop_trailing_seps (x @ CHR 0x5C # n) = x @ CHR 0x5C # n"
    unfolding drop_trailing_seps_def using n by (cases n rule: rev_cases) auto
  moreover have "rev (dropWhile (\<lambda>c. \<not> win_sep c) (rev (x @ CHR 0x5C # n))) = x @ [CHR 0x5C]"
  proof -
    have "dropWhile (\<lambda>c. \<not> win_sep c) (rev n @ CHR 0x5C # rev x) = CHR 0x5C # rev x"
      using n(1) sep by (subst dropWhile_append2) auto
    then show ?thesis by simp
  qed
  moreover have "drop_trailing_seps (x @ [CHR 0x5C]) = x"
    unfolding drop_trailing_seps_def using x sep by simp
  ultimately show ?thesis
    unfolding win_parent_def body using d win_join_dir [OF assms(1), of n] by (simp add: Let_def)
qed

end
