(* ===== verification/Windows_Bpf.thy ===== *)
theory Windows_Bpf
  imports Redirector Windows_Path
begin

text \<open>
  The Windows redirector below \<^verbatim>\<open>redirector/windows.rs\<close>: the structures of \<^verbatim>\<open>bpf_obj.rs\<close> as they lie in memory,
  the calls into \<^verbatim>\<open>EbpfApi.dll\<close> of \<^verbatim>\<open>bpf_api.rs\<close>, and \<^verbatim>\<open>bpf_prog.rs\<close> on top of them. The library is not part of the
  sources: its functions are a record of functions on a state of the operating system, of which only what its
  documentation promises is assumed. Pointers and file descriptors are numbers, zero is the null pointer.
\<close>

section \<open>Memory\<close>

text \<open>The bytes of an unsigned integer on a little-endian machine.\<close>

fun le_bytes :: "nat \<Rightarrow> nat \<Rightarrow> u8 list" where
  "le_bytes 0 v = []"
| "le_bytes (Suc n) v = word_of_nat (v mod 256) # le_bytes n (v div 256)"

fun le_value :: "u8 list \<Rightarrow> nat" where
  "le_value [] = 0"
| "le_value (b # bs) = unat b + 256 * le_value bs"

record win_destination_entry =
  wd_ip :: "u32 list"
  wd_port :: "u16 list"
  wd_protocol :: u32

definition win_ip_empty :: "u32 list" where "win_ip_empty = [0, 0, 0, 0]"

definition win_ip_from_ipv4 :: "u32 \<Rightarrow> u32 list" where
  "win_ip_from_ipv4 ipv4 = win_ip_empty[0 := ipv4]"

definition win_ip_from_ipv6 :: "u32 list \<Rightarrow> u32 list" where
  "win_ip_from_ipv6 ipv6 = fold (\<lambda>i ip. ip[i := ipv6 ! i]) [0..<4] win_ip_empty"

definition win_destination_empty :: win_destination_entry where
  "win_destination_empty = \<lparr>wd_ip = win_ip_empty, wd_port = [0, 0], wd_protocol = IPPROTO_TCP\<rparr>"

definition win_destination_from_ipv4 :: "u32 \<Rightarrow> u16 \<Rightarrow> win_destination_entry" where
  "win_destination_from_ipv4 ipv4 port =
     win_destination_empty\<lparr>wd_ip := win_ip_from_ipv4 ipv4, wd_port := (wd_port win_destination_empty)[0 := swap16 port]\<rparr>"

record win_audit_key =
  wk_protocol :: u32
  wk_source_port :: "u16 list"

definition win_audit_key_from_source_port :: "u16 \<Rightarrow> win_audit_key" where
  "win_audit_key_from_source_port port = \<lparr>wk_protocol = IPPROTO_TCP, wk_source_port = [swap16 port, 0]\<rparr>"

text \<open>The layouts of \<^verbatim>\<open>repr(C)\<close>. An audit entry ends with two bytes of padding.\<close>

definition destination_bytes :: "win_destination_entry \<Rightarrow> u8 list" where
  "destination_bytes d =
     concat (map (\<lambda>w. le_bytes 4 (unat w)) (wd_ip d)) @ concat (map (\<lambda>w. le_bytes 2 (unat w)) (wd_port d))
     @ le_bytes 4 (unat (wd_protocol d))"

definition audit_key_bytes :: "win_audit_key \<Rightarrow> u8 list" where
  "audit_key_bytes k = le_bytes 4 (unat (wk_protocol k)) @ concat (map (\<lambda>w. le_bytes 2 (unat w)) (wk_source_port k))"

definition skip_entry_bytes :: "u32 \<Rightarrow> u8 list" where
  "skip_entry_bytes process_id = le_bytes 4 (unat process_id)"

definition audit_entry_bytes :: "u8 list \<Rightarrow> audit_entry \<Rightarrow> u8 list" where
  "audit_entry_bytes padding e =
     le_bytes 8 (unat (ae_logon_id e)) @ le_bytes 4 (unat (ae_process_id e)) @ le_bytes 4 (unat (ae_is_admin e))
     @ le_bytes 4 (unat (ae_destination_ipv4 e)) @ le_bytes 2 (unat (ae_destination_port e)) @ padding"

definition audit_entry_of_bytes :: "u8 list \<Rightarrow> audit_entry" where
  "audit_entry_of_bytes b =
     \<lparr>ae_logon_id = word_of_nat (le_value (take 8 b)), ae_process_id = word_of_nat (le_value (take 4 (drop 8 b))),
      ae_is_admin = word_of_nat (le_value (take 4 (drop 12 b))),
      ae_destination_ipv4 = word_of_nat (le_value (take 4 (drop 16 b))),
      ae_destination_port = word_of_nat (le_value (take 2 (drop 20 b)))\<rparr>"

section \<open>The library\<close>

text \<open>
  \<open>dll_symbol\<close> says which functions the library exports. A lookup writes into the buffer it is given.
\<close>

record 'k ebpf_dll =
  dll_symbol :: "string \<Rightarrow> bool"
  dll_open :: "string \<Rightarrow> 'k \<Rightarrow> nat \<times> 'k"
  dll_load :: "nat \<Rightarrow> 'k \<Rightarrow> int \<times> 'k"
  dll_close :: "nat \<Rightarrow> 'k \<Rightarrow> unit \<times> 'k"
  dll_find_program :: "nat \<Rightarrow> string \<Rightarrow> 'k \<Rightarrow> nat \<times> 'k"
  dll_program_fd :: "nat \<Rightarrow> 'k \<Rightarrow> int \<times> 'k"
  dll_attach :: "int \<Rightarrow> int \<Rightarrow> nat \<Rightarrow> nat \<Rightarrow> 'k \<Rightarrow> int \<times> 'k"
  dll_find_map :: "nat \<Rightarrow> string \<Rightarrow> 'k \<Rightarrow> nat \<times> 'k"
  dll_map_fd :: "nat \<Rightarrow> 'k \<Rightarrow> int \<times> 'k"
  dll_update :: "int \<Rightarrow> u8 list \<Rightarrow> u8 list \<Rightarrow> nat \<Rightarrow> 'k \<Rightarrow> int \<times> 'k"
  dll_lookup :: "int \<Rightarrow> u8 list \<Rightarrow> u8 list \<Rightarrow> 'k \<Rightarrow> (int \<times> u8 list) \<times> 'k"

record 'k win_redirector =
  EBPF_API :: "'k ebpf_dll option"
  W_BPF_OBJECT :: "nat option"
  W_IS_STARTED :: bool
  W_STATUS_MESSAGE :: string
  w_ready_calls :: nat
  w_os :: 'k

definition win_redirector_new :: "'k \<Rightarrow> 'k win_redirector" where
  "win_redirector_new k = \<lparr>EBPF_API = None, W_BPF_OBJECT = None, W_IS_STARTED = False,
     W_STATUS_MESSAGE = ''Redirector has not started yet.'', w_ready_calls = 0, w_os = k\<rparr>"

section \<open>Calling the library\<close>

definition load_ebpf_api ::
    "(string \<Rightarrow> 'k ebpf_dll option) \<Rightarrow> string \<Rightarrow> 'k win_redirector \<Rightarrow> unit io_result \<times> 'k win_redirector" where
  "load_ebpf_api library bpf_api_file_path st =
     (case library bpf_api_file_path of
        Some api \<Rightarrow> (Inr (), st\<lparr>EBPF_API := Some api\<rparr>)
      | None \<Rightarrow> (Inl Other, st))"

definition get_ebpf_api :: "'k win_redirector \<Rightarrow> 'k ebpf_dll io_result" where
  "get_ebpf_api st = (case EBPF_API st of Some api \<Rightarrow> Inr api | None \<Rightarrow> Inl Other)"

definition get_ebpf_api_fun :: "'k ebpf_dll \<Rightarrow> string \<Rightarrow> unit io_result" where
  "get_ebpf_api_fun api name = (if dll_symbol api name then Inr () else Inl Other)"

text \<open>\<^verbatim>\<open>CString::new\<close> refuses a string with a zero byte.\<close>

definition get_cstring :: "string \<Rightarrow> string io_result" where
  "get_cstring s = (if CHR 0x00 \<in> set s then Inl InvalidInput else Inr s)"

text \<open>What all the wrappers do: find the library and the function, convert the argument, call.\<close>

definition api_call ::
    "string \<Rightarrow> 'x io_result \<Rightarrow> ('k ebpf_dll \<Rightarrow> 'x \<Rightarrow> 'k \<Rightarrow> 'a \<times> 'k) \<Rightarrow> 'k win_redirector \<Rightarrow> 'a io_result \<times> 'k win_redirector" where
  "api_call name arg f st =
     (case get_ebpf_api st of
        Inl e \<Rightarrow> (Inl e, st)
      | Inr api \<Rightarrow>
          (case get_ebpf_api_fun api name of
             Inl e \<Rightarrow> (Inl e, st)
           | Inr _ \<Rightarrow>
               (case arg of
                  Inl e \<Rightarrow> (Inl e, st)
                | Inr x \<Rightarrow> (let (r, k) = f api x (w_os st) in (Inr r, st\<lparr>w_os := k\<rparr>)))))"

definition bpf_object_open :: "string \<Rightarrow> 'k win_redirector \<Rightarrow> nat io_result \<times> 'k win_redirector" where
  "bpf_object_open path = api_call ''bpf_object__open'' (get_cstring path) dll_open"

definition bpf_object_load :: "nat \<Rightarrow> 'k win_redirector \<Rightarrow> int io_result \<times> 'k win_redirector" where
  "bpf_object_load obj = api_call ''bpf_object__load'' (Inr obj) dll_load"

definition bpf_object_close :: "nat \<Rightarrow> 'k win_redirector \<Rightarrow> unit io_result \<times> 'k win_redirector" where
  "bpf_object_close obj = api_call ''bpf_object__close'' (Inr obj) dll_close"

definition bpf_object_find_program_by_name :: "nat \<Rightarrow> string \<Rightarrow> 'k win_redirector \<Rightarrow> nat io_result \<times> 'k win_redirector" where
  "bpf_object_find_program_by_name obj name =
     api_call ''bpf_object__find_program_by_name'' (get_cstring name) (\<lambda>api. dll_find_program api obj)"

definition bpf_program_fd :: "nat \<Rightarrow> 'k win_redirector \<Rightarrow> int io_result \<times> 'k win_redirector" where
  "bpf_program_fd prog = api_call ''bpf_program__fd'' (Inr prog) dll_program_fd"

definition bpf_prog_attach :: "int \<Rightarrow> int \<Rightarrow> nat \<Rightarrow> nat \<Rightarrow> 'k win_redirector \<Rightarrow> int io_result \<times> 'k win_redirector" where
  "bpf_prog_attach prog_fd attachable_fd attach_type flags =
     api_call ''bpf_prog_attach'' (Inr prog_fd) (\<lambda>api fd. dll_attach api fd attachable_fd attach_type flags)"

definition bpf_object_find_map_by_name :: "nat \<Rightarrow> string \<Rightarrow> 'k win_redirector \<Rightarrow> nat io_result \<times> 'k win_redirector" where
  "bpf_object_find_map_by_name obj name =
     api_call ''bpf_object__find_map_by_name'' (get_cstring name) (\<lambda>api. dll_find_map api obj)"

definition bpf_map_fd :: "nat \<Rightarrow> 'k win_redirector \<Rightarrow> int io_result \<times> 'k win_redirector" where
  "bpf_map_fd m = api_call ''bpf_map__fd'' (Inr m) dll_map_fd"

definition bpf_map_update_elem :: "int \<Rightarrow> u8 list \<Rightarrow> u8 list \<Rightarrow> nat \<Rightarrow> 'k win_redirector \<Rightarrow> int io_result \<times> 'k win_redirector" where
  "bpf_map_update_elem fd key v flags =
     api_call ''bpf_map_update_elem'' (Inr fd) (\<lambda>api fd. dll_update api fd key v flags)"

definition bpf_map_lookup_elem ::
    "int \<Rightarrow> u8 list \<Rightarrow> u8 list \<Rightarrow> 'k win_redirector \<Rightarrow> (int \<times> u8 list) io_result \<times> 'k win_redirector" where
  "bpf_map_lookup_elem fd key buffer =
     api_call ''bpf_map_lookup_elem'' (Inr fd) (\<lambda>api fd. dll_lookup api fd key buffer)"

section \<open>Loading and attaching\<close>

definition EBPF_API_FILE_NAME :: string where "EBPF_API_FILE_NAME = ''EbpfApi.dll''"
definition EBPF_OBJECT_NULL :: int where [agent_defs]: "EBPF_OBJECT_NULL = 2022"
definition EBPF_OPEN_ERROR :: int where [agent_defs]: "EBPF_OPEN_ERROR = 2023"
definition EBPF_LOAD_ERROR :: int where [agent_defs]: "EBPF_LOAD_ERROR = 2024"
definition EBPF_FIND_PROGRAM_ERROR :: int where [agent_defs]: "EBPF_FIND_PROGRAM_ERROR = 2025"
definition EBPF_ATTACH_PROGRAM_ERROR :: int where [agent_defs]: "EBPF_ATTACH_PROGRAM_ERROR = 2026"
definition EBPF_FIND_MAP_ERROR :: int where [agent_defs]: "EBPF_FIND_MAP_ERROR = 2027"
definition EBPF_UPDATE_MAP_ERROR :: int where [agent_defs]: "EBPF_UPDATE_MAP_ERROR = 2028"
definition BPF_CGROUP_INET4_CONNECT :: nat where [agent_defs]: "BPF_CGROUP_INET4_CONNECT = 3"

definition bpf_prog_init ::
    "(string \<Rightarrow> 'k ebpf_dll option) \<Rightarrow> string option \<Rightarrow> 'k win_redirector \<Rightarrow> unit io_result \<times> 'k win_redirector" where
  "bpf_prog_init library program_files st =
     (let program_files_dir = (case program_files of Some d \<Rightarrow> d | None \<Rightarrow> ''C:'' @ [CHR 0x5C] @ ''Program Files'');
          bpf_api_file_path = win_join (win_join program_files_dir ''ebpf-for-windows'') EBPF_API_FILE_NAME
      in case load_ebpf_api library bpf_api_file_path st of
           (Inr _, st1) \<Rightarrow> (Inr (), st1)
         | (Inl e, st1) \<Rightarrow> load_ebpf_api library EBPF_API_FILE_NAME st1)"

definition close_bpf_object :: "'k win_redirector \<Rightarrow> 'k win_redirector" where
  "close_bpf_object st =
     (case W_BPF_OBJECT st of
        Some obj \<Rightarrow> (snd (bpf_object_close obj st))\<lparr>W_BPF_OBJECT := None\<rparr>
      | None \<Rightarrow> st)"

definition load_bpf_object :: "string \<Rightarrow> 'k win_redirector \<Rightarrow> int \<times> 'k win_redirector" where
  "load_bpf_object bpf_file_path st =
     (case bpf_object_open bpf_file_path (close_bpf_object st) of
        (Inl e, st1) \<Rightarrow> (EBPF_OPEN_ERROR, st1)
      | (Inr obj, st1) \<Rightarrow>
          if obj = 0 then (EBPF_OBJECT_NULL, st1)
          else (case bpf_object_load obj st1 of
                  (Inl e, st2) \<Rightarrow> (EBPF_LOAD_ERROR, st2)
                | (Inr result, st2) \<Rightarrow>
                    (result, if result = 0 then st2\<lparr>W_BPF_OBJECT := Some obj\<rparr> else st2)))"

definition attach_bpf_prog :: "'k win_redirector \<Rightarrow> int \<times> 'k win_redirector" where
  "attach_bpf_prog st =
     (case W_BPF_OBJECT st of
        None \<Rightarrow> (EBPF_OBJECT_NULL, st)
      | Some obj \<Rightarrow>
          (case bpf_object_find_program_by_name obj ''authorize_connect4'' st of
             (Inl e, st1) \<Rightarrow> (EBPF_FIND_PROGRAM_ERROR, st1)
           | (Inr connect4_program, st1) \<Rightarrow>
               if connect4_program = 0 then (EBPF_FIND_PROGRAM_ERROR, st1)
               else (case bpf_program_fd connect4_program st1 of
                       (Inl e, st2) \<Rightarrow> (EBPF_FIND_PROGRAM_ERROR, st2)
                     | (Inr fd_id, st2) \<Rightarrow>
                         (case bpf_prog_attach fd_id 0 BPF_CGROUP_INET4_CONNECT 0 st2 of
                            (Inr r, st3) \<Rightarrow> (r, st3)
                          | (Inl e, st3) \<Rightarrow> (EBPF_ATTACH_PROGRAM_ERROR, st3)))))"

section \<open>Maps\<close>

text \<open>The start of every map operation: the map by name, not null, and its descriptor.\<close>

definition find_map_fd :: "nat \<Rightarrow> string \<Rightarrow> 'k win_redirector \<Rightarrow> int option \<times> 'k win_redirector" where
  "find_map_fd obj name st =
     (case bpf_object_find_map_by_name obj name st of
        (Inl e, st1) \<Rightarrow> (None, st1)
      | (Inr m, st1) \<Rightarrow>
          if m = 0 then (None, st1)
          else (case bpf_map_fd m st1 of (Inl e, st2) \<Rightarrow> (None, st2) | (Inr fd, st2) \<Rightarrow> (Some fd, st2)))"

definition update_elem :: "string \<Rightarrow> u8 list \<Rightarrow> u8 list \<Rightarrow> 'k win_redirector \<Rightarrow> int \<times> 'k win_redirector" where
  "update_elem name key v st =
     (case W_BPF_OBJECT st of
        None \<Rightarrow> (EBPF_OBJECT_NULL, st)
      | Some obj \<Rightarrow>
          (case find_map_fd obj name st of
             (None, st1) \<Rightarrow> (EBPF_FIND_MAP_ERROR, st1)
           | (Some fd, st1) \<Rightarrow>
               (case bpf_map_update_elem fd key v 0 st1 of
                  (Inr r, st2) \<Rightarrow> (r, st2)
                | (Inl e, st2) \<Rightarrow> (EBPF_UPDATE_MAP_ERROR, st2))))"

definition update_bpf_map :: "u16 \<Rightarrow> u32 \<Rightarrow> u16 \<Rightarrow> 'k win_redirector \<Rightarrow> int \<times> 'k win_redirector" where
  "update_bpf_map local_port dest_ipv4 dest_port =
     update_elem ''policy_map'' (destination_bytes (win_destination_from_ipv4 dest_ipv4 dest_port))
       (destination_bytes (win_destination_from_ipv4 PROXY_AGENT_IP_NETWORK_BYTE_ORDER local_port))"

definition update_bpf_skip_process_map :: "u32 \<Rightarrow> 'k win_redirector \<Rightarrow> int \<times> 'k win_redirector" where
  "update_bpf_skip_process_map process_id = update_elem ''skip_process_map'' (skip_entry_bytes process_id) (skip_entry_bytes process_id)"

definition lookup_bpf_audit_map :: "u16 \<Rightarrow> 'k win_redirector \<Rightarrow> audit_entry io_result \<times> 'k win_redirector" where
  "lookup_bpf_audit_map source_port st =
     (case W_BPF_OBJECT st of
        None \<Rightarrow> (Inl InvalidInput, st)
      | Some obj \<Rightarrow>
          (case find_map_fd obj ''audit_map'' st of
             (None, st1) \<Rightarrow> (Inl InvalidInput, st1)
           | (Some fd, st1) \<Rightarrow>
               (case bpf_map_lookup_elem fd (audit_key_bytes (win_audit_key_from_source_port source_port))
                       (audit_entry_bytes [0, 0] audit_entry_empty) st1 of
                  (Inl e, st2) \<Rightarrow> (Inl InvalidInput, st2)
                | (Inr (r, buffer), st2) \<Rightarrow>
                    if r \<noteq> 0 then (Inl InvalidInput, st2) else (Inr (audit_entry_of_bytes buffer), st2))))"

section \<open>Layouts\<close>

lemma length_le_bytes [simp]: "length (le_bytes n v) = n"
  by (induction n arbitrary: v) simp_all

lemma le_value_bytes: "le_value (le_bytes n v) = v mod 256 ^ n"
proof (induction n arbitrary: v)
  case (Suc n)
  have "unat (word_of_nat (v mod 256) :: u8) = v mod 256"
    by (simp add: unat_of_nat)
  then show ?case
    using Suc by (simp add: mod_mult2_eq)
qed simp

lemma le_word [simp]:
  "word_of_nat (le_value (le_bytes 8 (unat (x :: u64)))) = x"
  "word_of_nat (le_value (le_bytes 4 (unat (y :: u32)))) = y"
  "word_of_nat (le_value (le_bytes 2 (unat (z :: u16)))) = z"
proof -
  have "unat x < 2 ^ 64" "unat y < 2 ^ 32" "unat z < 2 ^ 16"
    by (rule unsigned_less [THEN order_less_le_trans], simp)+
  then show "word_of_nat (le_value (le_bytes 8 (unat x))) = x" "word_of_nat (le_value (le_bytes 4 (unat y))) = y"
    "word_of_nat (le_value (le_bytes 2 (unat z))) = z"
    by (simp_all add: le_value_bytes)
qed

lemma le_bytes_inj:
  "le_bytes 4 (unat (a :: u32)) = le_bytes 4 (unat b) \<longleftrightarrow> a = b"
  "le_bytes 2 (unat (p :: u16)) = le_bytes 2 (unat q) \<longleftrightarrow> p = q"
  by (metis le_word(2)) (metis le_word(3))

lemma audit_entry_roundtrip: "audit_entry_of_bytes (audit_entry_bytes padding e) = e"
  by (simp add: audit_entry_of_bytes_def audit_entry_bytes_def)

lemma destination_bytes_inj:
  "destination_bytes (win_destination_from_ipv4 a p) = destination_bytes (win_destination_from_ipv4 b q) \<longleftrightarrow> a = b \<and> p = q"
  by (simp add: destination_bytes_def win_destination_from_ipv4_def win_destination_empty_def win_ip_from_ipv4_def
      win_ip_empty_def le_bytes_inj)

lemma audit_key_bytes_inj:
  "audit_key_bytes (win_audit_key_from_source_port p) = audit_key_bytes (win_audit_key_from_source_port q) \<longleftrightarrow> p = q"
  by (simp add: audit_key_bytes_def win_audit_key_from_source_port_def le_bytes_inj)

lemma win_ip_from_ipv6_id: "length ipv6 = 4 \<Longrightarrow> win_ip_from_ipv6 ipv6 = ipv6"
  using ip_address_from_ipv6_id [of ipv6]
  by (simp add: win_ip_from_ipv6_def win_ip_empty_def ip_address_from_ipv6_def ip_address_empty_def)

section \<open>What the library promises\<close>

text \<open>
  \<open>maps\<close> reads the contents of the maps by name off the state of the operating system, \<open>fd_name\<close> says which map
  a descriptor stands for. A descriptor obtained for a map by name stands for this map; an update that returns 0
  has stored the value; a lookup that returns 0 has filled the buffer with the value of the key.
\<close>

definition documented_dll ::
    "('k \<Rightarrow> string \<Rightarrow> u8 list \<Rightarrow> u8 list option) \<Rightarrow> (int \<Rightarrow> string) \<Rightarrow> 'k ebpf_dll \<Rightarrow> bool" where
  "documented_dll maps fd_name dll \<longleftrightarrow>
     (\<forall>obj name k m k1 fd k2. dll_find_map dll obj name k = (m, k1) \<longrightarrow> m \<noteq> 0 \<longrightarrow> dll_map_fd dll m k1 = (fd, k2)
        \<longrightarrow> fd_name fd = name \<and> maps k2 = maps k)
     \<and> (\<forall>fd key v k k'. dll_update dll fd key v 0 k = (0, k')
        \<longrightarrow> maps k' = (maps k)(fd_name fd := (maps k (fd_name fd))(key \<mapsto> v)))
     \<and> (\<forall>fd key b k b' k'. dll_lookup dll fd key b k = ((0, b'), k')
        \<longrightarrow> maps k (fd_name fd) key = Some b' \<and> maps k' = maps k)"

lemma documented_find:
  "documented_dll maps fd_name dll \<Longrightarrow> dll_find_map dll obj name k = (m, k1) \<Longrightarrow> m \<noteq> 0 \<Longrightarrow> dll_map_fd dll m k1 = (fd, k2)
   \<Longrightarrow> fd_name fd = name \<and> maps k2 = maps k"
  unfolding documented_dll_def by blast

lemma documented_update:
  "documented_dll maps fd_name dll \<Longrightarrow> dll_update dll fd key v 0 k = (0, k')
   \<Longrightarrow> maps k' = (maps k)(fd_name fd := (maps k (fd_name fd))(key \<mapsto> v))"
  unfolding documented_dll_def by blast

lemma documented_lookup:
  "documented_dll maps fd_name dll \<Longrightarrow> dll_lookup dll fd key b k = ((0, b'), k')
   \<Longrightarrow> maps k (fd_name fd) key = Some b' \<and> maps k' = maps k"
  unfolding documented_dll_def by blast

section \<open>Frames\<close>

text \<open>A call of the library changes nothing but the state of the operating system.\<close>

definition os_only :: "'k win_redirector \<Rightarrow> 'k win_redirector \<Rightarrow> bool" where
  "os_only st st' \<longleftrightarrow> st' = st\<lparr>w_os := w_os st'\<rparr>"

lemma os_only_refl [simp]: "os_only st st"
  by (simp add: os_only_def)

lemma os_only_trans: "os_only st st1 \<Longrightarrow> os_only st1 st2 \<Longrightarrow> os_only st st2"
  unfolding os_only_def by (metis win_redirector.update_convs(6) win_redirector.select_convs(6) win_redirector.surjective)

lemma os_only_fields:
  "os_only st st' \<Longrightarrow> EBPF_API st' = EBPF_API st \<and> W_BPF_OBJECT st' = W_BPF_OBJECT st \<and> W_IS_STARTED st' = W_IS_STARTED st
    \<and> W_STATUS_MESSAGE st' = W_STATUS_MESSAGE st \<and> w_ready_calls st' = w_ready_calls st"
  unfolding os_only_def by (metis win_redirector.ext_inject win_redirector.surjective win_redirector.update_convs(6))

lemma api_call_os: "os_only st (snd (api_call name arg f st))"
  by (auto simp: api_call_def os_only_def Let_def split: sum.split prod.split)

lemmas bpf_api_defs = bpf_object_open_def bpf_object_load_def bpf_object_close_def bpf_object_find_program_by_name_def
  bpf_program_fd_def bpf_prog_attach_def bpf_object_find_map_by_name_def bpf_map_fd_def bpf_map_update_elem_def
  bpf_map_lookup_elem_def

lemma api_os:
  "os_only st (snd (bpf_object_open p st))" "os_only st (snd (bpf_object_load obj st))"
  "os_only st (snd (bpf_object_close obj st))" "os_only st (snd (bpf_object_find_program_by_name obj n st))"
  "os_only st (snd (bpf_program_fd obj st))" "os_only st (snd (bpf_prog_attach fd a t fl st))"
  "os_only st (snd (bpf_object_find_map_by_name obj n st))" "os_only st (snd (bpf_map_fd obj st))"
  "os_only st (snd (bpf_map_update_elem fd key v fl st))" "os_only st (snd (bpf_map_lookup_elem fd key b st))"
  by (simp_all add: bpf_api_defs api_call_os)

lemma api_os_eq:
  "bpf_object_open p st = (a1, st') \<Longrightarrow> os_only st st'" "bpf_object_load obj st = (a2, st') \<Longrightarrow> os_only st st'"
  "bpf_object_close obj st = (a3, st') \<Longrightarrow> os_only st st'" "bpf_object_find_program_by_name obj n st = (a4, st') \<Longrightarrow> os_only st st'"
  "bpf_program_fd obj st = (a5, st') \<Longrightarrow> os_only st st'" "bpf_prog_attach fd a t fl st = (a6, st') \<Longrightarrow> os_only st st'"
  "bpf_object_find_map_by_name obj n st = (a7, st') \<Longrightarrow> os_only st st'" "bpf_map_fd obj st = (a8, st') \<Longrightarrow> os_only st st'"
  "bpf_map_update_elem fd key v fl st = (a9, st') \<Longrightarrow> os_only st st'" "bpf_map_lookup_elem fd key b st = (a10, st') \<Longrightarrow> os_only st st'"
  using api_os by (metis snd_conv)+

lemma find_map_fd_os: "find_map_fd obj name st = (r, st') \<Longrightarrow> os_only st st'"
  by (auto simp: find_map_fd_def split: prod.splits sum.splits if_splits dest!: api_os_eq intro: os_only_trans)

lemma attach_bpf_prog_os: "attach_bpf_prog st = (r, st') \<Longrightarrow> os_only st st'"
  by (auto simp: attach_bpf_prog_def split: prod.splits sum.splits if_splits option.splits dest!: api_os_eq
      intro: os_only_trans)

lemma update_elem_os: "update_elem name key v st = (r, st') \<Longrightarrow> os_only st st'"
  by (auto simp: update_elem_def split: prod.splits sum.splits if_splits option.splits
      dest!: api_os_eq find_map_fd_os intro: os_only_trans)

lemma lookup_bpf_audit_map_os: "lookup_bpf_audit_map port st = (r, st') \<Longrightarrow> os_only st st'"
  by (auto simp: lookup_bpf_audit_map_def split: prod.splits sum.splits if_splits option.splits
      dest!: api_os_eq find_map_fd_os intro: os_only_trans)

section \<open>The effect on the maps\<close>

lemma api_call_Inr:
  "api_call name arg f st = (Inr r, st') \<longleftrightarrow>
     (\<exists>api x k. EBPF_API st = Some api \<and> dll_symbol api name \<and> arg = Inr x \<and> f api x (w_os st) = (r, k) \<and> st' = st\<lparr>w_os := k\<rparr>)"
  by (auto simp: api_call_def get_ebpf_api_def get_ebpf_api_fun_def split: option.split sum.splits if_splits prod.splits)

lemma find_map_fd_documented:
  assumes "documented_dll maps fd_name dll" and "EBPF_API st = Some dll" and "find_map_fd obj name st = (Some fd, st')"
  shows "fd_name fd = name \<and> maps (w_os st') = maps (w_os st)"
proof -
  from assms(3) obtain m st1 where m: "bpf_object_find_map_by_name obj name st = (Inr m, st1)" "m \<noteq> 0"
    and fd: "bpf_map_fd m st1 = (Inr fd, st')"
    by (auto simp: find_map_fd_def split: prod.splits sum.splits if_splits)
  have api1: "EBPF_API st1 = Some dll"
    using os_only_fields [OF api_os_eq(7) [OF m(1)]] assms(2) by simp
  from m(1) assms(2) have "dll_find_map dll obj name (w_os st) = (m, w_os st1)"
    by (auto simp: bpf_object_find_map_by_name_def api_call_Inr get_cstring_def split: if_splits)
  moreover from fd api1 have "dll_map_fd dll m (w_os st1) = (fd, w_os st')"
    by (auto simp: bpf_map_fd_def api_call_Inr)
  ultimately show ?thesis
    using documented_find [OF assms(1)] m(2) by blast
qed

lemma update_elem_documented:
  assumes "documented_dll maps fd_name dll" and "EBPF_API st = Some dll" and "update_elem name key v st = (0, st')"
  shows "maps (w_os st') = (maps (w_os st))(name := (maps (w_os st) name)(key \<mapsto> v))"
proof -
  from assms(3) obtain obj fd st1 where fd: "find_map_fd obj name st = (Some fd, st1)"
    and up: "bpf_map_update_elem fd key v 0 st1 = (Inr 0, st')"
    by (auto simp: update_elem_def agent_defs split: prod.splits sum.splits option.splits)
  note find = find_map_fd_documented [OF assms(1,2) fd]
  have "EBPF_API st1 = Some dll"
    using os_only_fields [OF find_map_fd_os [OF fd]] assms(2) by simp
  with up have "dll_update dll fd key v 0 (w_os st1) = (0, w_os st')"
    by (auto simp: bpf_map_update_elem_def api_call_Inr)
  from documented_update [OF assms(1) this] find show ?thesis
    by simp
qed

lemma lookup_documented:
  assumes "documented_dll maps fd_name dll" and "EBPF_API st = Some dll" and "lookup_bpf_audit_map port st = (Inr e, st')"
  shows "\<exists>b. maps (w_os st) ''audit_map'' (audit_key_bytes (win_audit_key_from_source_port port)) = Some b
    \<and> e = audit_entry_of_bytes b"
proof -
  let ?key = "audit_key_bytes (win_audit_key_from_source_port port)"
  from assms(3) obtain obj fd st1 b where fd: "find_map_fd obj ''audit_map'' st = (Some fd, st1)"
    and look: "bpf_map_lookup_elem fd ?key (audit_entry_bytes [0, 0] audit_entry_empty) st1 = (Inr (0, b), st')"
    and e: "e = audit_entry_of_bytes b"
    by (auto simp: lookup_bpf_audit_map_def split: prod.splits sum.splits option.splits if_splits)
  note find = find_map_fd_documented [OF assms(1,2) fd]
  have "EBPF_API st1 = Some dll"
    using os_only_fields [OF find_map_fd_os [OF fd]] assms(2) by simp
  with look obtain k' where "dll_lookup dll fd ?key (audit_entry_bytes [0, 0] audit_entry_empty) (w_os st1) = ((0, b), k')"
    by (auto simp: bpf_map_lookup_elem_def api_call_Inr)
  from documented_lookup [OF assms(1) this] find e show ?thesis
    by auto
qed

lemma close_bpf_object_core:
  "EBPF_API (close_bpf_object st) = EBPF_API st \<and> W_IS_STARTED (close_bpf_object st) = W_IS_STARTED st
   \<and> w_ready_calls (close_bpf_object st) = w_ready_calls st
   \<and> W_STATUS_MESSAGE (close_bpf_object st) = W_STATUS_MESSAGE st \<and> W_BPF_OBJECT (close_bpf_object st) = None"
proof (cases "W_BPF_OBJECT st")
  case (Some obj)
  with os_only_fields [OF api_os(3) [of st obj]] show ?thesis
    by (simp add: close_bpf_object_def)
qed (simp add: close_bpf_object_def)

lemma load_bpf_object_core:
  assumes "load_bpf_object path st = (r, st')"
  shows "EBPF_API st' = EBPF_API st \<and> W_IS_STARTED st' = W_IS_STARTED st \<and> w_ready_calls st' = w_ready_calls st
    \<and> W_STATUS_MESSAGE st' = W_STATUS_MESSAGE st \<and> (W_BPF_OBJECT st' \<noteq> None \<longleftrightarrow> r = 0)"
proof -
  note close = close_bpf_object_core [of st]
  let ?c = "close_bpf_object st"
  obtain o1 st1 where op: "bpf_object_open path ?c = (o1, st1)"
    by (cases "bpf_object_open path ?c")
  note f1 = os_only_fields [OF api_os_eq(1) [OF op]]
  show ?thesis
  proof (cases "\<exists>obj. o1 = Inr obj \<and> obj \<noteq> 0")
    case False
    then have "st' = st1" "r \<noteq> 0"
      using assms op by (auto simp: load_bpf_object_def agent_defs split: sum.splits if_splits)
    with f1 close show ?thesis
      by simp
  next
    case True
    then obtain obj where obj: "o1 = Inr obj" "obj \<noteq> 0"
      by blast
    obtain l st2 where ld: "bpf_object_load obj st1 = (l, st2)"
      by (cases "bpf_object_load obj st1")
    note f2 = os_only_fields [OF api_os_eq(2) [OF ld]]
    have "st' = (if r = 0 then st2\<lparr>W_BPF_OBJECT := Some obj\<rparr> else st2)"
      using assms op obj ld by (auto simp: load_bpf_object_def agent_defs split: sum.splits if_splits)
    with f1 f2 close show ?thesis
      by simp
  qed
qed

end
