(* ===== verification/Windows_Redirector.thy ===== *)
theory Windows_Redirector
  imports Windows_Bpf Key_Status
begin

text \<open>
  \<^verbatim>\<open>redirector/windows.rs\<close> with \<^verbatim>\<open>common/windows.rs\<close> and \<^verbatim>\<open>common/http/windows.rs\<close>: starting and stopping the Windows
  redirector, the audit entry of a connection, and the connection to the host that carries the redirect record.
  The interface \<open>redirector_backend\<close> is what \<^verbatim>\<open>redirector.rs\<close> relies on; both platforms are shown to provide it.
\<close>

section \<open>Start and stop\<close>

text \<open>
  The channel state is read twice; the two fields are what the reads return.
\<close>

record 'k win_env =
  we_library :: "string \<Rightarrow> 'k ebpf_dll option"
  we_program_files :: "string option"
  we_ebpf_path :: string
  we_process_id :: u32
  we_config :: config
  we_channel_state :: string
  we_channel_state2 :: string
  we_load_error :: string
  we_startup_event :: "string \<Rightarrow> string"

definition win_set_error_status :: "string \<Rightarrow> 'k win_redirector \<Rightarrow> 'k win_redirector" where
  "win_set_error_status message st = st\<lparr>W_STATUS_MESSAGE := message\<rparr>"

text \<open>The endpoints to redirect, with the name used in the messages, in the order of the code.\<close>

definition windows_endpoints :: "'k win_env \<Rightarrow> (string \<times> u32 \<times> u16) list" where
  "windows_endpoints env =
     (if we_channel_state env \<noteq> DISABLE_STATE \<or> 0 < wireServerSupport (we_config env)
      then [(''WireServer'', WIRE_SERVER_IP_NETWORK_BYTE_ORDER, WIRE_SERVER_PORT)] else [])
     @ (if 0 < hostGAPluginSupport (we_config env)
        then [(''Host GAPlugin'', GA_PLUGIN_IP_NETWORK_BYTE_ORDER, GA_PLUGIN_PORT)] else [])
     @ (if we_channel_state2 env = MUST_SIG_WIRESERVER_IMDS \<or> 0 < imdsSupport (we_config env)
        then [(''IMDS'', IMDS_IP_NETWORK_BYTE_ORDER, IMDS_PORT)] else [])"

fun windows_policies :: "u16 \<Rightarrow> (string \<times> u32 \<times> u16) list \<Rightarrow> 'k win_redirector \<Rightarrow> bool \<times> 'k win_redirector" where
  "windows_policies local_port [] st = (True, st)"
| "windows_policies local_port ((endpoint, ip, port) # rest) st =
     (case update_bpf_map local_port ip port st of
        (r, st1) \<Rightarrow>
          if r \<noteq> 0
          then (False, win_set_error_status
                  (''Failed to update bpf map for '' @ endpoint @ '' support with result: '' @ show_int r) st1)
          else windows_policies local_port rest st1)"

definition windows_start :: "'k win_env \<Rightarrow> u16 \<Rightarrow> 'k win_redirector \<Rightarrow> bool \<times> 'k win_redirector" where
  "windows_start env local_port st =
     (case bpf_prog_init (we_library env) (we_program_files env) st of
        (Inl e, st1) \<Rightarrow> (False, win_set_error_status (''Failed to init bpf_prog with error: '' @ we_load_error env) st1)
      | (Inr _, st1) \<Rightarrow>
          (case load_bpf_object (we_ebpf_path env) st1 of
             (r, st2) \<Rightarrow>
               if r \<noteq> 0 then (False, win_set_error_status (''Failed to load bpf object with result: '' @ show_int r) st2)
               else (case attach_bpf_prog st2 of
                       (r, st3) \<Rightarrow>
                         if r \<noteq> 0 then (False, win_set_error_status (''Failed to attach bpf prog with result: '' @ show_int r) st3)
                         else (case update_bpf_skip_process_map (we_process_id env) st3 of
                                 (r, st4) \<Rightarrow>
                                   if r \<noteq> 0
                                   then (False, win_set_error_status
                                           (''Failed to update bpf skip_process map with result: '' @ show_int r) st4)
                                   else (case windows_policies local_port (windows_endpoints env) st4 of
                                           (False, st5) \<Rightarrow> (False, st5)
                                         | (True, st5) \<Rightarrow>
                                             (True, st5\<lparr>W_IS_STARTED := True,
                                                W_STATUS_MESSAGE := we_startup_event env ''Started Redirector with eBPF maps'',
                                                w_ready_calls := Suc (w_ready_calls st5)\<rparr>))))))"

definition windows_close :: "u16 \<Rightarrow> 'k win_redirector \<Rightarrow> 'k win_redirector" where
  "windows_close local_port st = (close_bpf_object st)\<lparr>W_IS_STARTED := False\<rparr>"

definition windows_lookup_audit :: "u16 \<Rightarrow> 'k win_redirector \<Rightarrow> audit_entry io_result \<times> 'k win_redirector" where
  "windows_lookup_audit source_port st = lookup_bpf_audit_map source_port st"

section \<open>Sockets\<close>

text \<open>
  The calls of Winsock the code makes, on a state of the operating system. The return values are ignored and the
  last error of the thread is asked after each call.
\<close>

record 'k winsock =
  ws_last_error :: "'k \<Rightarrow> int"
  ws_redirect_context :: "nat \<Rightarrow> u8 list \<Rightarrow> 'k \<Rightarrow> u8 list \<times> 'k"
  ws_socket :: "'k \<Rightarrow> nat \<times> 'k"
  ws_query_records :: "nat \<Rightarrow> 'k \<Rightarrow> u8 list \<times> 'k"
  ws_set_records :: "nat \<Rightarrow> u8 list \<Rightarrow> 'k \<Rightarrow> 'k"
  ws_connect :: "nat \<Rightarrow> u16 \<times> u16 \<times> u32 \<Rightarrow> 'k \<Rightarrow> 'k"

definition check_winsock_last_error :: "'k winsock \<Rightarrow> 'k \<Rightarrow> unit io_result" where
  "check_winsock_last_error ws k = (if ws_last_error ws k \<noteq> 0 then Inl InvalidInput else Inr ())"

definition get_audit_from_redirect_context :: "'k winsock \<Rightarrow> nat \<Rightarrow> 'k \<Rightarrow> audit_entry io_result \<times> 'k" where
  "get_audit_from_redirect_context ws socket k =
     (let (buffer, k1) = ws_redirect_context ws socket (audit_entry_bytes [0, 0] audit_entry_empty) k
      in (io_bind (check_winsock_last_error ws k1) (\<lambda>_. Inr (audit_entry_of_bytes buffer)), k1))"

text \<open>The audit entry of a connection on Windows: the map first, then the context of the socket.\<close>

definition windows_audit_entry ::
    "'k winsock \<Rightarrow> nat \<Rightarrow> u16 \<Rightarrow> 'k win_redirector \<Rightarrow> audit_entry io_result \<times> 'k win_redirector" where
  "windows_audit_entry ws socket source_port st =
     (case windows_lookup_audit source_port st of
        (Inr entry, st1) \<Rightarrow> (Inr entry, st1)
      | (Inl e, st1) \<Rightarrow>
          (let (r, k) = get_audit_from_redirect_context ws socket (w_os st1) in (r, st1\<lparr>w_os := k\<rparr>)))"

text \<open>An octet of \<^verbatim>\<open>Ipv4Addr::from_str\<close>: at most three digits, no leading zero.\<close>

definition parse_octet :: "string \<Rightarrow> nat option" where
  "parse_octet s =
     (if s = [] \<or> 3 < length s \<or> (1 < length s \<and> hd s = CHR ''0'') \<or> hd s = CHR ''+'' then None else parse_uint 8 s)"

definition parse_ipv4 :: "string \<Rightarrow> nat list option" where
  "parse_ipv4 s =
     (let parts = map parse_octet (split_on CHR ''.'' s)
      in if length parts = 4 \<and> None \<notin> set parts then Some (map the parts) else None)"

text \<open>\<^verbatim>\<open>u32::from_ne_bytes\<close> on a little-endian machine.\<close>

definition to_in_addr :: "nat list \<Rightarrow> u32" where
  "to_in_addr octets = word_of_nat (le_value (map word_of_nat octets))"

text \<open>The family, the port and the address of a \<^verbatim>\<open>SOCKADDR_IN\<close>, as they lie in memory.\<close>

definition AF_INET :: u16 where "AF_INET = 2"

definition as_sockaddr_storage :: "nat list \<Rightarrow> u16 \<Rightarrow> u16 \<times> u16 \<times> u32" where
  "as_sockaddr_storage octets port = (AF_INET, swap16 port, to_in_addr octets)"

text \<open>\<^const>\<open>None\<close> is the panic on an address that cannot be parsed.\<close>

definition connect_with_redirect_record :: "'k winsock \<Rightarrow> string \<Rightarrow> u16 \<Rightarrow> nat \<Rightarrow> 'k \<Rightarrow> (nat io_result \<times> 'k) option" where
  "connect_with_redirect_record ws ip port client k =
     (let (socket, k1) = ws_socket ws k;
          (records, k2) = ws_query_records ws client k1
      in case check_winsock_last_error ws k2 of
           Inl e \<Rightarrow> Some (Inl e, k2)
         | Inr _ \<Rightarrow>
             (let k3 = ws_set_records ws socket records k2
              in case check_winsock_last_error ws k3 of
                   Inl e \<Rightarrow> Some (Inl e, k3)
                 | Inr _ \<Rightarrow>
                     (case parse_ipv4 ip of
                        None \<Rightarrow> None
                      | Some octets \<Rightarrow>
                          (let k4 = ws_connect ws socket (as_sockaddr_storage octets port) k3
                           in case check_winsock_last_error ws k4 of
                                Inl e \<Rightarrow> Some (Inl e, k4)
                              | Inr _ \<Rightarrow> Some (Inr socket, k4)))))"

text \<open>\<^verbatim>\<open>redirector::start\<close> on Windows: at most five attempts.\<close>

definition windows_redirector_start :: "(nat \<Rightarrow> 'k win_env) \<Rightarrow> u16 \<Rightarrow> 'k win_redirector \<Rightarrow> bool \<times> 'k win_redirector" where
  "windows_redirector_start attempt local_port st =
     (let st' = retry_start windows_start W_IS_STARTED (map attempt [0..<5]) local_port st in (W_IS_STARTED st', st'))"

section \<open>The start, step by step\<close>

lemma bpf_prog_init_core:
  assumes "bpf_prog_init library pf st = (r, st')"
  shows "W_IS_STARTED st' = W_IS_STARTED st \<and> w_ready_calls st' = w_ready_calls st"
    and "r = Inr () \<Longrightarrow> \<exists>path dll. library path = Some dll \<and> EBPF_API st' = Some dll"
  using assms by (auto simp: bpf_prog_init_def load_ebpf_api_def Let_def split: option.splits)

lemma windows_policies_core:
  "windows_policies port es st = (ok, st') \<Longrightarrow>
   W_IS_STARTED st' = W_IS_STARTED st \<and> w_ready_calls st' = w_ready_calls st \<and> EBPF_API st' = EBPF_API st
   \<and> W_BPF_OBJECT st' = W_BPF_OBJECT st"
proof (induction es arbitrary: st)
  case (Cons e es)
  obtain n ip p where e: "e = (n, ip, p)"
    by (cases e)
  obtain r st1 where up: "update_bpf_map port ip p st = (r, st1)"
    by fastforce
  note f = os_only_fields [OF update_elem_os [OF up [unfolded update_bpf_map_def]]]
  have "(\<exists>m. st' = win_set_error_status m st1) \<or> windows_policies port es st1 = (ok, st')"
    using Cons.prems up e by (auto split: if_splits)
  with Cons.IH [of st1] f show ?case
    by (auto simp: win_set_error_status_def)
qed simp

text \<open>A successful start went through all the steps.\<close>

lemma windows_start_success:
  assumes "windows_start env port st = (True, st')"
  obtains st1 st2 st3 st4 st5 where "bpf_prog_init (we_library env) (we_program_files env) st = (Inr (), st1)"
    and "load_bpf_object (we_ebpf_path env) st1 = (0, st2)" and "attach_bpf_prog st2 = (0, st3)"
    and "update_bpf_skip_process_map (we_process_id env) st3 = (0, st4)"
    and "windows_policies port (windows_endpoints env) st4 = (True, st5)"
    and "st' = st5\<lparr>W_IS_STARTED := True, W_STATUS_MESSAGE := we_startup_event env ''Started Redirector with eBPF maps'',
           w_ready_calls := Suc (w_ready_calls st5)\<rparr>"
  using assms unfolding windows_start_def by (auto split: prod.splits sum.splits if_splits bool.splits)

lemma windows_start_core:
  assumes "bpf_prog_init (we_library env) (we_program_files env) st = (r1, st1)"
    and "load_bpf_object (we_ebpf_path env) st1 = (r2, st2)" and "attach_bpf_prog st2 = (r3, st3)"
    and "update_bpf_skip_process_map (we_process_id env) st3 = (r4, st4)"
    and "windows_policies port (windows_endpoints env) st4 = (r5, st5)"
  shows "W_IS_STARTED st1 = W_IS_STARTED st \<and> w_ready_calls st1 = w_ready_calls st"
    and "W_IS_STARTED st2 = W_IS_STARTED st \<and> w_ready_calls st2 = w_ready_calls st"
    and "W_IS_STARTED st3 = W_IS_STARTED st \<and> w_ready_calls st3 = w_ready_calls st"
    and "W_IS_STARTED st4 = W_IS_STARTED st \<and> w_ready_calls st4 = w_ready_calls st"
    and "W_IS_STARTED st5 = W_IS_STARTED st \<and> w_ready_calls st5 = w_ready_calls st"
    and "EBPF_API st5 = EBPF_API st1" and "W_BPF_OBJECT st5 = W_BPF_OBJECT st2"
    and "EBPF_API st3 = EBPF_API st1" and "EBPF_API st4 = EBPF_API st1"
  using bpf_prog_init_core(1) [OF assms(1)] load_bpf_object_core [OF assms(2)]
    os_only_fields [OF attach_bpf_prog_os [OF assms(3)]]
    os_only_fields [OF update_elem_os [OF assms(4) [unfolded update_bpf_skip_process_map_def]]]
    windows_policies_core [OF assms(5)]
  by simp_all

lemma windows_start_ok:
  assumes "windows_start env port st = (True, st')"
  shows "W_IS_STARTED st' \<and> w_ready_calls st' = Suc (w_ready_calls st)"
proof -
  from assms obtain st1 st2 st3 st4 st5 where s: "bpf_prog_init (we_library env) (we_program_files env) st = (Inr (), st1)"
    "load_bpf_object (we_ebpf_path env) st1 = (0, st2)" "attach_bpf_prog st2 = (0, st3)"
    "update_bpf_skip_process_map (we_process_id env) st3 = (0, st4)"
    "windows_policies port (windows_endpoints env) st4 = (True, st5)"
    and st': "st' = st5\<lparr>W_IS_STARTED := True, W_STATUS_MESSAGE := we_startup_event env ''Started Redirector with eBPF maps'',
           w_ready_calls := Suc (w_ready_calls st5)\<rparr>"
    by (rule windows_start_success)
  with windows_start_core(5) [OF s] show ?thesis
    by simp
qed

lemma windows_start_failed:
  assumes "windows_start env port st = (False, st')"
  shows "W_IS_STARTED st' = W_IS_STARTED st \<and> w_ready_calls st' = w_ready_calls st"
proof -
  obtain r1 st1 where s1: "bpf_prog_init (we_library env) (we_program_files env) st = (r1, st1)" by fastforce
  obtain r2 st2 where s2: "load_bpf_object (we_ebpf_path env) st1 = (r2, st2)" by fastforce
  obtain r3 st3 where s3: "attach_bpf_prog st2 = (r3, st3)" by fastforce
  obtain r4 st4 where s4: "update_bpf_skip_process_map (we_process_id env) st3 = (r4, st4)" by fastforce
  obtain r5 st5 where s5: "windows_policies port (windows_endpoints env) st4 = (r5, st5)" by fastforce
  have "\<exists>m. st' = st1\<lparr>W_STATUS_MESSAGE := m\<rparr> \<or> st' = st2\<lparr>W_STATUS_MESSAGE := m\<rparr> \<or> st' = st3\<lparr>W_STATUS_MESSAGE := m\<rparr>
      \<or> st' = st4\<lparr>W_STATUS_MESSAGE := m\<rparr> \<or> st' = st5"
    using assms s1 s2 s3 s4 s5
    by (auto simp: windows_start_def win_set_error_status_def split: sum.splits if_splits bool.splits)
  with windows_start_core [OF s1 s2 s3 s4 s5] show ?thesis
    by auto
qed

lemma windows_close_core:
  "w_ready_calls (windows_close port st) = w_ready_calls st" "W_BPF_OBJECT (windows_close port st) = None"
  "\<not> W_IS_STARTED (windows_close port st)"
  using close_bpf_object_core [of st] by (simp_all add: windows_close_def)

interpretation windows: redirector_backend windows_start windows_close W_IS_STARTED w_ready_calls
    "\<lambda>_ port st. fst (windows_lookup_audit port st)"
proof unfold_locales
  fix env :: "'k win_env" and port st st'
  show "windows_start env port st = (True, st') \<Longrightarrow> W_IS_STARTED st' \<and> w_ready_calls st' = Suc (w_ready_calls st)"
    by (rule windows_start_ok)
  show "windows_start env port st = (False, st') \<Longrightarrow> W_IS_STARTED st' = W_IS_STARTED st \<and> w_ready_calls st' = w_ready_calls st"
    by (rule windows_start_failed)
qed (simp_all add: windows_close_core windows_lookup_audit_def lookup_bpf_audit_map_def)

section \<open>The maps after a start\<close>

abbreviation policy_key :: "u32 \<Rightarrow> u16 \<Rightarrow> u8 list" where
  "policy_key ip p \<equiv> destination_bytes (win_destination_from_ipv4 ip p)"

lemma windows_policies_maps:
  assumes doc: "documented_dll maps fd_name dll"
  shows "windows_policies port es st = (True, st') \<Longrightarrow> EBPF_API st = Some dll \<Longrightarrow>
    maps (w_os st') = (maps (w_os st))(''policy_map'' := \<lambda>key.
      if key \<in> (\<lambda>(n, ip, p). policy_key ip p) ` set es then Some (policy_key PROXY_AGENT_IP_NETWORK_BYTE_ORDER port)
      else maps (w_os st) ''policy_map'' key)"
proof (induction es arbitrary: st)
  case (Cons e es)
  obtain n ip p where e: "e = (n, ip, p)"
    by (cases e)
  obtain st1 where up: "update_bpf_map port ip p st = (0, st1)" and rest: "windows_policies port es st1 = (True, st')"
    using Cons.prems(1) e by (auto split: prod.splits if_splits)
  have api: "EBPF_API st1 = Some dll"
    using os_only_fields [OF update_elem_os [OF up [unfolded update_bpf_map_def]]] Cons.prems(2) by simp
  show ?case
    using Cons.IH [OF rest api] update_elem_documented [OF doc Cons.prems(2) up [unfolded update_bpf_map_def]] e
    by (auto simp: fun_eq_iff)
qed (simp add: fun_upd_idem_iff fun_eq_iff)

lemma windows_policies_maps_entry:
  assumes "documented_dll maps fd_name dll" and "windows_policies port es st = (True, st')" and "EBPF_API st = Some dll"
    and "(n, ip, p) \<in> set es"
  shows "maps (w_os st') ''policy_map'' (policy_key ip p) = Some (policy_key PROXY_AGENT_IP_NETWORK_BYTE_ORDER port)"
proof -
  have "policy_key ip p \<in> (\<lambda>(n, ip, p). policy_key ip p) ` set es"
    using assms(4) by force
  with windows_policies_maps [OF assms(1-3)] show ?thesis
    by simp
qed

section \<open>Addresses\<close>

lemma show_nat_octet:
  assumes "n < 256"
  shows "length (show_nat n) \<le> 3" and "1 < length (show_nat n) \<Longrightarrow> hd (show_nat n) \<noteq> CHR ''0''"
proof -
  have d: "n div 10 < 10 \<longleftrightarrow> n < 100" "show_nat (n div 100) = [digit_char (n div 100)]"
    using assms by (simp_all add: show_nat.simps [of "n div 100"] div_less_iff_less_mult)
  have "show_nat n = (if n < 10 then [digit_char n] else if n < 100 then [digit_char (n div 10), digit_char (n mod 10)]
      else [digit_char (n div 100), digit_char (n div 10 mod 10), digit_char (n mod 10)])"
    using assms by (simp add: show_nat.simps [of n] show_nat.simps [of "n div 10"] d div_mult2_eq [symmetric])
  moreover have "digit_char m \<noteq> CHR ''0''" if "0 < m" "m < 10" for m
  proof
    assume "digit_char m = CHR ''0''"
    with digit_val_digit_char [OF that(2)] have "digit_val CHR ''0'' = Some m"
      by simp
    with that(1) show False
      by (simp add: digit_val_def)
  qed
  ultimately show "length (show_nat n) \<le> 3" "1 < length (show_nat n) \<Longrightarrow> hd (show_nat n) \<noteq> CHR ''0''"
    using assms by auto
qed

lemma parse_octet_show: "n < 256 \<Longrightarrow> parse_octet (show_nat n) = Some n"
proof -
  assume n: "n < 256"
  have "hd (show_nat n) \<noteq> CHR ''+''"
    using show_nat_digits [of "hd (show_nat n)" n] by auto
  with n show_nat_octet [OF n] parse_u8_show [OF n] show ?thesis
    by (auto simp: parse_octet_def)
qed

lemma parse_ipv4_to_string:
  "parse_ipv4 (ip_to_string ip) = Some [unat ip mod 256, unat ip div 256 mod 256, unat ip div 256 div 256 mod 256,
     unat ip div 256 div 256 div 256 mod 256]"
  by (simp add: parse_ipv4_def ip_to_string_segs parse_octet_show)

lemma to_in_addr_segments:
  "to_in_addr [unat ip mod 256, unat ip div 256 mod 256, unat ip div 256 div 256 mod 256, unat ip div 256 div 256 div 256 mod 256]
   = ip"
  using ip_segments_sum [of ip]
  by (simp add: to_in_addr_def unat_of_nat algebra_simps)

lemma sockaddr_of_entry:
  "\<exists>octets. parse_ipv4 (ip_to_string ip) = Some octets \<and> as_sockaddr_storage octets (swap16 port) = (AF_INET, port, ip)"
  by (simp add: parse_ipv4_to_string as_sockaddr_storage_def to_in_addr_segments)

section \<open>Properties\<close>


text \<open>A library that keeps the maps in a function and numbers the three of them.\<close>

definition example_fd_name :: "int \<Rightarrow> string" where
  "example_fd_name fd = (if fd = 1 then ''policy_map'' else if fd = 2 then ''skip_process_map'' else ''audit_map'')"

definition example_dll :: "(string \<Rightarrow> u8 list \<Rightarrow> u8 list option) ebpf_dll" where
  "example_dll = \<lparr>dll_symbol = (\<lambda>_. True), dll_open = (\<lambda>_ k. (7, k)), dll_load = (\<lambda>_ k. (0, k)), dll_close = (\<lambda>_ k. ((), k)),
     dll_find_program = (\<lambda>_ _ k. (9, k)), dll_program_fd = (\<lambda>_ k. (4, k)), dll_attach = (\<lambda>_ _ _ _ k. (0, k)),
     dll_find_map = (\<lambda>_ name k. (if name = ''policy_map'' then 1 else if name = ''skip_process_map'' then 2
                                  else if name = ''audit_map'' then 3 else 0, k)),
     dll_map_fd = (\<lambda>m k. (int m, k)),
     dll_update = (\<lambda>fd key v _ k. (0, k(example_fd_name fd := (k (example_fd_name fd))(key \<mapsto> v)))),
     dll_lookup = (\<lambda>fd key b k. (case k (example_fd_name fd) key of Some v \<Rightarrow> ((0, v), k) | None \<Rightarrow> ((1, b), k)))\<rparr>"

lemma example_dll_documented: "documented_dll (\<lambda>k. k) example_fd_name example_dll"
  by (auto simp: documented_dll_def example_dll_def example_fd_name_def split: if_splits option.splits)

definition example_win_env :: "(string \<Rightarrow> u8 list \<Rightarrow> u8 list option) win_env" where
  "example_win_env = \<lparr>we_library = (\<lambda>p. if p = ''EbpfApi.dll'' then Some example_dll else None), we_program_files = None,
     we_ebpf_path = ''redirect.bpf.o'', we_process_id = 42, we_config = example_redirector_config,
     we_channel_state = ''Unknown'', we_channel_state2 = ''Unknown'', we_load_error = [], we_startup_event = (\<lambda>m. m)\<rparr>"

lemma example_windows_start: "fst (windows_start example_win_env 3080 (win_redirector_new (\<lambda>_. Map.empty)))"
  by (simp add: windows_start_def bpf_prog_init_def load_ebpf_api_def example_win_env_def EBPF_API_FILE_NAME_def Let_def
      win_join_def win_redirector_new_def load_bpf_object_def close_bpf_object_def bpf_api_defs api_call_def get_ebpf_api_def
      get_ebpf_api_fun_def get_cstring_def example_dll_def attach_bpf_prog_def update_bpf_skip_process_map_def update_elem_def
      find_map_fd_def windows_endpoints_def DISABLE_STATE_def example_redirector_config_def update_bpf_map_def)


lemma le_bytes_two: "le_bytes 2 v = [word_of_nat (v mod 256), word_of_nat (v div 256 mod 256)]"
proof -
  have "le_bytes (Suc (Suc 0)) v = [word_of_nat (v mod 256), word_of_nat (v div 256 mod 256)]"
    by simp
  then show ?thesis
    by (simp only: Suc_1 One_nat_def [symmetric])
qed

lemma audit_key_of_port:
  "audit_key_bytes (win_audit_key_from_source_port q)
    = [6, 0, 0, 0, word_of_nat (unat q div 256), word_of_nat (unat q mod 256), 0, 0]"
proof -
  have proto: "le_bytes 4 (unat IPPROTO_TCP) = [6, 0, 0, 0]"
    by code_simp
  have "le_bytes 2 (unat (swap16 q)) = [word_of_nat (unat q div 256), word_of_nat (unat q mod 256)]"
    using unat_u16_div [of q] by (simp add: le_bytes_two unat_swap16 del: of_nat_add of_nat_mult)
  with proto show ?thesis
    by (simp add: audit_key_bytes_def win_audit_key_from_source_port_def le_bytes_two)
qed

text \<open>C19: The Windows audit lookup: the entry that is returned for a source port is, field by field, the one the
  eBPF program stored in its C layout, whatever the padding, under the key of this port: the protocol number 6 of
  TCP in little endian, the port in network byte order and two bytes of padding. A port without an entry gives an
  error, and so does every lookup after the redirector was closed.\<close>

theorem windows_lookup_spec:
  assumes "documented_dll maps fd_name dll" and "EBPF_API st = Some dll"
    and "\<forall>q :: u16. maps (w_os st) ''audit_map'' [6, 0, 0, 0, word_of_nat (unat q div 256), word_of_nat (unat q mod 256), 0, 0]
           = map_option (audit_entry_bytes (padding q)) (entries q)"
  shows "(case fst (windows_lookup_audit source_port st) of Inr entry \<Rightarrow> entries source_port = Some entry | Inl e \<Rightarrow> e = InvalidInput)
    \<and> (entries source_port = None \<longrightarrow> fst (windows_lookup_audit source_port st) = Inl InvalidInput)
    \<and> fst (windows_lookup_audit source_port (windows_close port st)) = Inl InvalidInput"
proof -
  obtain r st' where run: "lookup_bpf_audit_map source_port st = (r, st')"
    by fastforce
  have ok: "entries source_port = Some entry" if "r = Inr entry" for entry
    using lookup_documented [OF assms(1,2), of source_port entry st'] run that assms(3) [rule_format, of source_port]
    by (auto simp: audit_entry_roundtrip audit_key_of_port)
  have err: "e = InvalidInput" if "r = Inl e" for e
    using run that by (auto simp: lookup_bpf_audit_map_def split: option.splits prod.splits sum.splits if_splits)
  have "fst (windows_lookup_audit source_port (windows_close port st)) = Inl InvalidInput"
    by (simp add: windows_lookup_audit_def lookup_bpf_audit_map_def windows_close_core)
  with ok err run show ?thesis
    by (cases r) (auto simp: windows_lookup_audit_def)
qed

definition example_audit_entry :: audit_entry where
  "example_audit_entry = \<lparr>ae_logon_id = 999, ae_process_id = 4, ae_is_admin = 1, ae_destination_ipv4 = 0x10813FA8,
     ae_destination_port = 0x5000\<rparr>"

theorem windows_lookup_spec_witness:
  "fst (windows_lookup_audit 4321 \<lparr>EBPF_API = Some example_dll, W_BPF_OBJECT = Some 7, W_IS_STARTED = True, W_STATUS_MESSAGE = [],
      w_ready_calls = 1, w_os = (\<lambda>_. Map.empty)(''audit_map'' :=
        [[6, 0, 0, 0, 16, 225, 0, 0] \<mapsto> audit_entry_bytes [7, 8] example_audit_entry])\<rparr>)
   = Inr example_audit_entry"
proof -
  let ?st = "\<lparr>EBPF_API = Some example_dll, W_BPF_OBJECT = Some 7, W_IS_STARTED = True, W_STATUS_MESSAGE = [],
      w_ready_calls = 1, w_os = (\<lambda>_. Map.empty)(''audit_map'' :=
        [[6, 0, 0, 0, 16, 225, 0, 0] \<mapsto> audit_entry_bytes [7, 8] example_audit_entry])\<rparr>"
  have "\<forall>q :: u16. w_os ?st ''audit_map'' [6, 0, 0, 0, word_of_nat (unat q div 256), word_of_nat (unat q mod 256), 0, 0]
      = map_option (audit_entry_bytes ((\<lambda>_. [7, 8]) q)) ([4321 \<mapsto> example_audit_entry] q)"
    using audit_key_bytes_inj [of _ 4321] by (simp add: audit_key_of_port)
  note spec = windows_lookup_spec [where maps = "\<lambda>k. k" and st = ?st and padding = "\<lambda>_. [7, 8]" and source_port = 4321,
      OF example_dll_documented _ this]
  have "is_ok (fst (windows_lookup_audit 4321 ?st))"
    by (simp add: windows_lookup_audit_def lookup_bpf_audit_map_def find_map_fd_def bpf_api_defs api_call_def get_ebpf_api_def
        get_ebpf_api_fun_def get_cstring_def example_dll_def example_fd_name_def audit_key_of_port)
  with spec show ?thesis
    by (auto simp: is_ok_iff)
qed

text \<open>On Windows the connection for a forwarded request is made to exactly the address and port of the audit
  entry, in network byte order, on the socket that got the redirect record, and it is reported as made only when
  none of the three socket calls left an error; the address of an entry never makes the code panic.\<close>

theorem windows_connect_spec:
  "\<exists>r k'. connect_with_redirect_record ws (ip_to_string ip) (swap16 port) client k = Some (r, k')
    \<and> (case r of
         Inr socket \<Rightarrow> \<exists>k1 k2 records. ws_socket ws k = (socket, k1) \<and> ws_query_records ws client k1 = (records, k2)
           \<and> k' = ws_connect ws socket (AF_INET, port, ip) (ws_set_records ws socket records k2)
           \<and> ws_last_error ws k2 = 0 \<and> ws_last_error ws (ws_set_records ws socket records k2) = 0 \<and> ws_last_error ws k' = 0
       | Inl e \<Rightarrow> e = InvalidInput \<and> ws_last_error ws k' \<noteq> 0)"
proof -
  obtain socket k1 where s: "ws_socket ws k = (socket, k1)"
    by fastforce
  obtain records k2 where q: "ws_query_records ws client k1 = (records, k2)"
    by fastforce
  obtain octets where o: "parse_ipv4 (ip_to_string ip) = Some octets" "as_sockaddr_storage octets (swap16 port) = (AF_INET, port, ip)"
    using sockaddr_of_entry by blast
  show ?thesis
    by (simp add: connect_with_redirect_record_def s q o Let_def check_winsock_last_error_def)
qed

end
