(* ===== verification/Windows_Identity.thy ===== *)
theory Windows_Identity
  imports Authorization Windows_Path
begin

text \<open>
  Who opened a connection, on Windows: \<^verbatim>\<open>proxy_agent/src/proxy/windows.rs\<close>, the Windows branches of \<^verbatim>\<open>proxy.rs\<close> and the
  platform processes of \<^verbatim>\<open>proxy_authentication.rs\<close>. The system calls are parameters. Memory behind a pointer is a
  function from the offset, so that a read past the end of a buffer sees what lies there. \<^const>\<open>None\<close> is a panic or an
  access the language leaves undefined.
\<close>

unbundle bit_operations_syntax

section \<open>Text\<close>

text \<open>The UTF-8 bytes of a character given by its number.\<close>

definition utf8_char :: "nat \<Rightarrow> string" where
  "utf8_char c =
     (if c < 128 then [char_of c]
      else if c < 2048 then [char_of (192 + c div 64), char_of (128 + c mod 64)]
      else if c < 65536 then [char_of (224 + c div 4096), char_of (128 + c div 64 mod 64), char_of (128 + c mod 64)]
      else [char_of (240 + c div 262144), char_of (128 + c div 4096 mod 64), char_of (128 + c div 64 mod 64),
            char_of (128 + c mod 64)])"

definition utf8_of :: "nat list \<Rightarrow> string" where
  "utf8_of cs = concat (map utf8_char cs)"

text \<open>\<^verbatim>\<open>String::from_utf16_lossy\<close>: a surrogate without its partner is replaced.\<close>

definition high_surrogate :: "u16 \<Rightarrow> bool" where "high_surrogate u \<longleftrightarrow> 0xD800 \<le> u \<and> u < 0xDC00"
definition low_surrogate :: "u16 \<Rightarrow> bool" where "low_surrogate u \<longleftrightarrow> 0xDC00 \<le> u \<and> u < 0xE000"

fun utf16_decode :: "u16 list \<Rightarrow> nat list" where
  "utf16_decode [] = []"
| "utf16_decode (u # us) =
     (if \<not> high_surrogate u \<and> \<not> low_surrogate u then unat u # utf16_decode us
      else if high_surrogate u
      then (case us of
              v # vs \<Rightarrow>
                if low_surrogate v
                then (65536 + (unat u - 0xD800) * 1024 + (unat v - 0xDC00)) # utf16_decode vs
                else 0xFFFD # utf16_decode us
            | [] \<Rightarrow> [0xFFFD])
      else 0xFFFD # utf16_decode us)"

definition from_utf16_lossy :: "u16 list \<Rightarrow> string" where
  "from_utf16_lossy us = utf8_of (utf16_decode us)"

text \<open>
  \<^verbatim>\<open>from_unicode_string\<close>: the lengths are numbers of bytes, but the code takes them for numbers of code units, so
  that it reads twice as far as the string is long; then it keeps the low byte of every unit up to the first zero.
\<close>

record unicode_string =
  us_length :: u16
  us_max :: u16
  us_buffer :: "nat \<Rightarrow> u16"

definition low_bytes :: "u16 list \<Rightarrow> nat list" where
  "low_bytes v = takeWhile (\<lambda>c. c \<noteq> 0) (map (\<lambda>u. unat u mod 256) v)"

definition from_unicode_string :: "unicode_string \<Rightarrow> nat list option" where
  "from_unicode_string s =
     (if us_max s < us_length s then None
      else (let v = map (us_buffer s) [0..<unat (us_length s)] @ replicate (unat (us_max s) - unat (us_length s)) 0
            in Some (low_bytes v)))"

text \<open>\<^verbatim>\<open>from_pwstr\<close>: up to the first unit whose low byte is zero, if there is one.\<close>

partial_function (option) from_pwstr_loop :: "(nat \<Rightarrow> u16) \<Rightarrow> nat \<Rightarrow> nat list \<Rightarrow> nat list option" where
  [code]: "from_pwstr_loop mem i acc =
     (let c = unat (mem i) mod 256 in if c = 0 then Some acc else from_pwstr_loop mem (i + 1) (acc @ [c]))"

definition from_pwstr :: "(nat \<Rightarrow> u16) \<Rightarrow> nat list option" where
  "from_pwstr mem = from_pwstr_loop mem 0 []"

text \<open>\<^verbatim>\<open>str::encode_utf16\<close> of the characters of a string, and \<^verbatim>\<open>to_pwstr\<close>.\<close>

definition utf16_char :: "nat \<Rightarrow> u16 list" where
  "utf16_char c =
     (if c < 65536 then [word_of_nat c]
      else [word_of_nat (0xD800 + (c - 65536) div 1024), word_of_nat (0xDC00 + (c - 65536) mod 1024)])"

definition encode_utf16 :: "nat list \<Rightarrow> u16 list" where
  "encode_utf16 cs = concat (map utf16_char cs)"

definition to_pwstr :: "nat list \<Rightarrow> u16 list" where
  "to_pwstr s = encode_utf16 s @ [0]"

section \<open>Users\<close>

text \<open>\<^verbatim>\<open>load_dll_with_retry\<close>: \<open>library i\<close> is the outcome of attempt \<open>i\<close>; \<^const>\<open>None\<close> is the panic after the last.\<close>

function load_dll_with_retry :: "(nat \<Rightarrow> 'l option) \<Rightarrow> nat \<Rightarrow> nat \<Rightarrow> 'l option" where
  "load_dll_with_retry library max_retry retry =
     (case library retry of
        Some lib \<Rightarrow> Some lib
      | None \<Rightarrow> if max_retry \<le> retry then None else load_dll_with_retry library max_retry (retry + 1))"
  by pat_completeness auto
termination
  by (relation "measure (\<lambda>(library, m, r). m - r)") auto

declare load_dll_with_retry.simps [simp del]

definition load_users :: "(u64, string) hmap" where
  "load_users = fold (\<lambda>(k, v). hm_insert k v)
     [(0x3e4, ''NETWORK SERVICE''), (0x3e5, ''LOCAL SERVICE''), (0x3e6, ''SYSTEM''), (0x3e7, ''SYSTEM''),
      (0x3e8, ''IIS_IUSRS''), (0x3e9, ''IUSR'')] []"

text \<open>
  The session of a logon: its account and domain names, \<^const>\<open>None\<close> when the call fails, whose status is ignored. Each
  attempt to load \<^verbatim>\<open>netapi32.dll\<close> may give the library, which may export \<^verbatim>\<open>NetUserGetLocalGroups\<close>: the status and the
  names of the groups of an account.
\<close>

type_synonym net_user_groups = "u16 list \<Rightarrow> u32 \<times> (nat \<Rightarrow> u16) list"

record win_users =
  wu_session :: "u32 \<times> u32 \<Rightarrow> (unicode_string \<times> unicode_string) option"
  wu_netapi :: "nat \<Rightarrow> net_user_groups option option"

definition net_user_get_local_groups :: "win_users \<Rightarrow> u16 list \<Rightarrow> (u32 \<times> (nat \<Rightarrow> u16) list) io_result option" where
  "net_user_get_local_groups env account =
     (case load_dll_with_retry (wu_netapi env) 3 0 of
        None \<Rightarrow> None
      | Some None \<Rightarrow> Some (Inl Other)
      | Some (Some get_groups) \<Rightarrow> Some (Inr (get_groups account)))"

definition luid_of :: "u64 \<Rightarrow> u32 \<times> u32" where
  "luid_of l = (word_of_nat (unat l mod 2 ^ 32), word_of_nat (unat l div 2 ^ 32))"

fun collect_groups :: "(nat \<Rightarrow> u16) list \<Rightarrow> nat list list option" where
  "collect_groups [] = Some []"
| "collect_groups (g # gs) =
     (case from_pwstr g of
        None \<Rightarrow> None
      | Some name \<Rightarrow> map_option (\<lambda>ns. name # ns) (collect_groups gs))"

definition undefined_name :: "nat list" where
  "undefined_name = [117, 110, 100, 101, 102, 105, 110, 101, 100]"

text \<open>The names \<^verbatim>\<open>user_name\<close> and \<^verbatim>\<open>domain_user_name\<close> of a session.\<close>

definition session_names :: "unicode_string \<times> unicode_string \<Rightarrow> (nat list \<times> nat list) option" where
  "session_names session =
     (case (if us_length (fst session) \<noteq> 0 then from_unicode_string (fst session) else Some undefined_name) of
        None \<Rightarrow> None
      | Some name \<Rightarrow>
          if us_length (snd session) \<noteq> 0
          then map_option (\<lambda>domain. (name, domain @ [0x5C] @ name)) (from_unicode_string (snd session))
          else Some (name, name))"

definition windows_get_user :: "win_users \<Rightarrow> u64 \<Rightarrow> (string \<times> string list) option" where
  "windows_get_user env l =
     (case wu_session env (luid_of l) of
        None \<Rightarrow> None
      | Some session \<Rightarrow>
          (case session_names session of
             None \<Rightarrow> None
           | Some (name, domain_user_name) \<Rightarrow>
               (case net_user_get_local_groups env (to_pwstr domain_user_name) of
                  None \<Rightarrow> None
                | Some (Inl _) \<Rightarrow> None
                | Some (Inr (status, group_info)) \<Rightarrow>
                    (case (if status = 0 then collect_groups group_info else Some []) of
                       None \<Rightarrow> None
                     | Some groups \<Rightarrow>
                         Some (case hm_get load_users l of Some builtin \<Rightarrow> builtin | None \<Rightarrow> utf8_of name,
                               map utf8_of groups)))))"

definition windows_user_from_logon_id :: "win_users \<Rightarrow> u64 \<Rightarrow> user option" where
  "windows_user_from_logon_id env l =
     map_option (\<lambda>u. \<lparr>logon_id = l, user_name = fst u, user_groups = snd u\<rparr>) (windows_get_user env l)"

text \<open>\<^verbatim>\<open>proxy::get_user\<close> with its cache.\<close>

definition windows_cached_user :: "win_users \<Rightarrow> u64 \<Rightarrow> users_cache \<Rightarrow> (user \<times> users_cache) option" where
  "windows_cached_user env l USERS =
     (case hm_get USERS l of
        Some u \<Rightarrow> Some (u, USERS)
      | None \<Rightarrow> map_option (\<lambda>u. (u, hm_insert l u USERS)) (windows_user_from_logon_id env l))"

section \<open>Processes\<close>

text \<open>
  The calls about processes: opening one gives a handle, zero on failure; a query gives a status and what it wrote.
  The command line is queried twice, first for the length and then for the text.
\<close>

record win_processes =
  wp_open :: "u32 \<Rightarrow> u32 \<Rightarrow> nat"
  wp_last_error :: error_kind
  wp_basic_info :: "nat \<Rightarrow> int"
  wp_cmd_length :: "nat \<Rightarrow> int"
  wp_cmd :: "nat \<Rightarrow> int \<times> unicode_string"
  wp_base_name :: "nat \<Rightarrow> u16 list"
  wp_full_name :: "nat \<Rightarrow> u16 list"

definition PROCESS_QUERY_INFORMATION :: u32 where [agent_defs]: "PROCESS_QUERY_INFORMATION = 0x0400"
definition PROCESS_VM_READ :: u32 where [agent_defs]: "PROCESS_VM_READ = 0x0010"
definition STATUS_BUFFER_OVERFLOW :: int where [agent_defs]: "STATUS_BUFFER_OVERFLOW = - 2147483643"
definition STATUS_BUFFER_TOO_SMALL :: int where [agent_defs]: "STATUS_BUFFER_TOO_SMALL = - 1073741789"
definition STATUS_INFO_LENGTH_MISMATCH :: int where [agent_defs]: "STATUS_INFO_LENGTH_MISMATCH = - 1073741820"

text \<open>\<^verbatim>\<open>Error::from_raw_os_error\<close> of a status.\<close>

definition raw_os_error :: "int \<Rightarrow> error_kind" where
  "raw_os_error status = OsError (nat (status mod 2 ^ 32))"

definition query_basic_process_info :: "win_processes \<Rightarrow> nat \<Rightarrow> unit io_result" where
  "query_basic_process_info env handler =
     (if wp_basic_info env handler \<noteq> 0 then Inl (raw_os_error (wp_basic_info env handler)) else Inr ())"

definition get_process_handler :: "win_processes \<Rightarrow> u32 \<Rightarrow> nat io_result" where
  "get_process_handler env p =
     (if p = 0 then Inl InvalidInput
      else (let options = PROCESS_QUERY_INFORMATION OR PROCESS_VM_READ; handler = wp_open env options p
            in if handler = 0 then Inl (wp_last_error env) else Inr handler))"

definition get_process_cmd :: "win_processes \<Rightarrow> nat \<Rightarrow> string io_result" where
  "get_process_cmd env handler =
     (if wp_cmd_length env handler \<noteq> STATUS_BUFFER_OVERFLOW \<and> wp_cmd_length env handler \<noteq> STATUS_BUFFER_TOO_SMALL
         \<and> wp_cmd_length env handler \<noteq> STATUS_INFO_LENGTH_MISMATCH
      then Inl (raw_os_error (wp_cmd_length env handler))
      else if fst (wp_cmd env handler) < 0 then Inl (raw_os_error (fst (wp_cmd env handler)))
      else (let s = snd (wp_cmd env handler)
            in Inr (from_utf16_lossy (map (us_buffer s) [0..<unat (us_length s) div 2]))))"

text \<open>The names: an empty answer is an error.\<close>

definition get_process_name :: "win_processes \<Rightarrow> nat \<Rightarrow> string io_result" where
  "get_process_name env handler =
     (let name = wp_base_name env handler in if length name = 0 then Inl (wp_last_error env) else Inr (from_utf16_lossy name))"

definition get_process_full_name :: "win_processes \<Rightarrow> nat \<Rightarrow> string io_result" where
  "get_process_full_name env handler =
     (let name = wp_full_name env handler in if length name = 0 then Inl (wp_last_error env) else Inr (from_utf16_lossy name))"

definition windows_process_info :: "win_processes \<Rightarrow> u32 \<Rightarrow> string \<times> string" where
  "windows_process_info env p =
     (let handler = (case get_process_handler env p of Inr h \<Rightarrow> h | Inl e \<Rightarrow> 0)
      in case query_basic_process_info env handler of
           Inr _ \<Rightarrow> ((case get_process_full_name env handler of Inr n \<Rightarrow> n | Inl _ \<Rightarrow> UNDEFINED),
                     (case get_process_cmd env handler of Inr c \<Rightarrow> c | Inl _ \<Rightarrow> UNDEFINED))
         | Inl e \<Rightarrow> (UNDEFINED, UNDEFINED))"

definition windows_process_from_pid :: "win_processes \<Rightarrow> u32 \<Rightarrow> process" where
  "windows_process_from_pid env p =
     (let (process_full_path, cmd) = windows_process_info env p
      in \<lparr>command_line = cmd, proc_name = unwrap_or (win_file_name process_full_path) [],
          exe_full_name = process_full_path, pid = p\<rparr>)"

definition windows_from_audit_entry ::
  "win_processes \<Rightarrow> win_users \<Rightarrow> audit_entry \<Rightarrow> string \<Rightarrow> users_cache \<Rightarrow> (claims \<times> users_cache) option" where
  "windows_from_audit_entry procs users entry client_ip USERS =
     (let p = windows_process_from_pid procs (ae_process_id entry)
      in map_option (\<lambda>(u, USERS').
           (\<lparr>userId = ae_logon_id entry, userName = user_name u, userGroups = user_groups u, processId = pid p,
             processName = proc_name p, processFullPath = exe_full_name p, processCmdLine = command_line p,
             runAsElevated = (ae_is_admin entry = 1), clientIp = client_ip\<rparr>, USERS'))
         (windows_cached_user users (ae_logon_id entry) USERS))"

section \<open>Platform processes\<close>

definition windows_platform_names :: "string list" where
  "windows_platform_names = [''vm-application-manager'', ''windowsazureguestagent.exe'', ''waappagent.exe'',
     ''collectguestlogs.exe'', ''wasecagentprov.exe'', ''immediateruncommandservice.exe'']"

definition windows_is_platform_process :: "claims \<Rightarrow> bool" where
  "windows_is_platform_process c =
     (let process_name = to_lowercase (unwrap_or (win_file_name (processName c)) ''InvalidPath'')
      in process_name \<in> set windows_platform_names)"

section \<open>Text is well formed\<close>

text \<open>The characters of a string: the numbers of Unicode that are not surrogates.\<close>

definition scalar :: "nat \<Rightarrow> bool" where
  "scalar c \<longleftrightarrow> c < 0xD800 \<or> 0xE000 \<le> c \<and> c < 0x110000"

lemma byte_char_of [simp]: "n < 256 \<Longrightarrow> byte (char_of n) = n"
  by simp

lemma utf8_char_valid: "scalar c \<Longrightarrow> utf8_valid (utf8_char c @ r) = utf8_valid r"
proof -
  assume c: "scalar c"
  consider "c < 128" | "128 \<le> c" "c < 2048" | "2048 \<le> c" "c < 65536" | "65536 \<le> c" "c < 1114112"
    using c unfolding scalar_def by linarith
  then show ?thesis
  proof cases
    case 1
    then show ?thesis by (simp add: utf8_char_def)
  next
    case 2
    then have "2 \<le> c div 64" "c div 64 < 32" by auto
    with 2 show ?thesis by (simp add: utf8_char_def is_cont_def)
  next
    case 3
    then have "c div 4096 < 16" "c div 4096 = 0 \<longrightarrow> 32 \<le> c div 64 mod 64" by auto
    moreover have "c div 64 = 64 * (c div 4096) + c div 64 mod 64" by (simp add: div_mult2_eq [of c 64 64, simplified])
    then have "c div 4096 = 13 \<longrightarrow> c div 64 mod 64 < 32"
      using c unfolding scalar_def by linarith
    ultimately show ?thesis using 3 by (auto simp: utf8_char_def is_cont_def)
  next
    case 4
    have "c div 4096 = 64 * (c div 262144) + c div 4096 mod 64" by (simp add: div_mult2_eq [of c 4096 64, simplified])
    with 4 have "c div 262144 < 5" "c div 262144 = 0 \<longrightarrow> 16 \<le> c div 4096 mod 64"
        "c div 262144 = 4 \<longrightarrow> c div 4096 mod 64 < 16" by linarith+
    with 4 show ?thesis by (auto simp: utf8_char_def is_cont_def)
  qed
qed

lemma utf8_of_valid: "list_all scalar cs \<Longrightarrow> utf8_valid (utf8_of cs)"
  by (induction cs) (simp_all add: utf8_of_def utf8_char_valid)

lemma utf16_decode_scalar: "list_all scalar (utf16_decode us)"
proof (induction us rule: utf16_decode.induct)
  case (2 u us)
  show ?case
  proof (cases "high_surrogate u \<or> low_surrogate u")
    case False
    moreover have "unat u < 65536"
      by (rule unat_u16_less)
    ultimately have "scalar (unat u)"
      by (auto simp: scalar_def high_surrogate_def low_surrogate_def word_le_nat_alt word_less_nat_alt)
    with False 2 show ?thesis by simp
  next
    case True
    have bad: "scalar 0xFFFD" by (simp add: scalar_def)
    have pair: "scalar (65536 + (unat u - 0xD800) * 1024 + (unat v - 0xDC00))" if "high_surrogate u" "low_surrogate v" for v
      using that by (auto simp: scalar_def high_surrogate_def low_surrogate_def word_le_nat_alt word_less_nat_alt)
    show ?thesis
    proof (cases us)
      case Nil
      with True bad show ?thesis by auto
    next
      case (Cons v vs)
      with True bad 2 pair [of v] show ?thesis
        by (cases "high_surrogate u"; cases "low_surrogate v"; simp)
    qed
  qed
qed simp

lemma from_utf16_lossy_valid: "utf8_valid (from_utf16_lossy us)"
  by (simp add: from_utf16_lossy_def utf8_of_valid utf16_decode_scalar)

lemma utf16_decode_char:
  assumes "scalar c"
  shows "utf16_decode (utf16_char c @ us) = c # utf16_decode us"
proof (cases "c < 65536")
  case True
  then have "unat (word_of_nat c :: u16) = c"
    by (simp add: unat_of_nat)
  with True assms show ?thesis
    by (auto simp: utf16_char_def scalar_def high_surrogate_def low_surrogate_def word_le_nat_alt word_less_nat_alt)
next
  case False
  define h where "h = (c - 65536) div 1024"
  define l where "l = (c - 65536) mod 1024"
  have bound: "h < 1024" "l < 1024" and c: "65536 + h * 1024 + l = c"
    using assms False by (auto simp: h_def l_def scalar_def)
  then have "unat (word_of_nat (0xD800 + h) :: u16) = 0xD800 + h" "unat (word_of_nat (0xDC00 + l) :: u16) = 0xDC00 + l"
    by (simp_all only: unat_of_nat) simp_all
  with bound c False show ?thesis
    unfolding utf16_char_def h_def [symmetric] l_def [symmetric]
    by (simp add: high_surrogate_def low_surrogate_def word_le_nat_alt word_less_nat_alt del: of_nat_add)
qed

text \<open>The two text conversions at the boundary to Windows fit together: what \<^verbatim>\<open>to_pwstr\<close> writes, decoded up to the
  terminating zero, is the text it was given, for every string of Unicode characters, and decoding any code units
  whatever, broken surrogate pairs included, gives a valid string.\<close>

theorem utf16_roundtrip:
  "(list_all scalar cs \<longrightarrow> from_utf16_lossy (butlast (to_pwstr cs)) = utf8_of cs \<and> last (to_pwstr cs) = 0)
   \<and> utf8_valid (from_utf16_lossy us)"
proof -
  have "utf16_decode (encode_utf16 cs) = cs" if "list_all scalar cs"
    using that by (induction cs) (simp_all add: encode_utf16_def utf16_decode_char)
  then show ?thesis
    by (simp add: from_utf16_lossy_valid) (simp add: from_utf16_lossy_def to_pwstr_def)
qed

theorem utf16_roundtrip_witness:
  "from_utf16_lossy (butlast (to_pwstr [0x41, 0x1F600])) = utf8_of [0x41, 0x1F600]"
  using utf16_roundtrip [of "[0x41, 0x1F600]" "[]"] by (simp add: scalar_def)

section \<open>Names of accounts\<close>

text \<open>A counted string as Windows documents it: the length in bytes, the capacity at least that.\<close>

definition counted :: "unicode_string \<Rightarrow> u16 list \<Rightarrow> bool" where
  "counted s name \<longleftrightarrow> unat (us_length s) = 2 * length name \<and> us_length s \<le> us_max s
     \<and> map (us_buffer s) [0..<length name] = name"

lemma takeWhile_all_append: "\<forall>x\<in>set xs. P x \<Longrightarrow> takeWhile P (xs @ ys) = xs @ takeWhile P ys"
  by (induction xs) simp_all

lemma from_unicode_string_counted:
  assumes "counted s name" and "\<forall>u\<in>set name. 0 < unat u \<and> unat u < 256"
  shows "from_unicode_string s = Some (map unat name
           @ low_bytes (map (us_buffer s) [length name..<2 * length name] @ replicate (unat (us_max s) - 2 * length name) 0))"
proof -
  have "map (us_buffer s) [0..<2 * length name] = name @ map (us_buffer s) [length name..<2 * length name]"
    using assms(1) upt_add_eq_append [of 0 "length name" "length name"] by (simp add: counted_def mult_2)
  moreover have "map (\<lambda>u. unat u mod 256) name = map unat name"
    using assms(2) by auto
  ultimately show ?thesis
    using assms by (auto simp: from_unicode_string_def counted_def low_bytes_def Let_def takeWhile_all_append
        map_append [symmetric] simp del: map_append) (simp_all add: takeWhile_all_append)
qed

text \<open>C21: \<^verbatim>\<open>from_unicode_string\<close> treats the byte length of a counted Windows string as a number of 16-bit units. For a
  non-empty name of characters below 256 the result is that name exactly when the memory after the name begins with
  a unit whose low byte is zero; otherwise the result is the name followed by what lies behind it.\<close>

theorem account_name_exact:
  assumes "counted s name" and "name \<noteq> []" and "\<forall>u\<in>set name. 0 < unat u \<and> unat u < 256"
  shows "(from_unicode_string s = Some (map unat name) \<longleftrightarrow> unat (us_buffer s (length name)) mod 256 = 0)
    \<and> (\<exists>behind. from_unicode_string s = Some (map unat name @ behind))"
proof -
  have "[length name..<2 * length name] = length name # [Suc (length name)..<2 * length name]"
    using assms(2) by (simp add: upt_conv_Cons)
  then show ?thesis
    using from_unicode_string_counted [OF assms(1,3)] by (simp add: low_bytes_def)
qed

definition example_name :: "u16 \<Rightarrow> unicode_string" where
  "example_name after = \<lparr>us_length = 4, us_max = 4, us_buffer = (\<lambda>i. if i = 0 then 65 else if i = 1 then 66 else after)\<rparr>"

theorem account_name_exact_witness:
  "from_unicode_string (example_name 0) = Some [65, 66] \<and> from_unicode_string (example_name 67) \<noteq> Some [65, 66]"
proof -
  have "counted (example_name a) [65, 66]" for a
    by (simp add: counted_def example_name_def upt_rec)
  from account_name_exact [OF this [of 0]] account_name_exact [OF this [of 67]] show ?thesis
    by (simp add: example_name_def)
qed

section \<open>Users and their groups\<close>

text \<open>Characters below 256 other than zero, which the code keeps as they are.\<close>

definition latin1 :: "u16 list \<Rightarrow> bool" where
  "latin1 name \<longleftrightarrow> (\<forall>u\<in>set name. 0 < unat u \<and> unat u < 256)"

text \<open>Memory that holds a name and a zero after it.\<close>

definition terminated :: "(nat \<Rightarrow> u16) \<Rightarrow> u16 list \<Rightarrow> bool" where
  "terminated mem name \<longleftrightarrow> map mem [0..<length name] = name \<and> mem (length name) = 0"

lemma from_pwstr_loop_terminated:
  "\<forall>u\<in>set name. 0 < unat u \<and> unat u < 256 \<Longrightarrow> (\<And>k. k < length name \<Longrightarrow> mem (i + k) = name ! k) \<Longrightarrow>
   mem (i + length name) = 0 \<Longrightarrow> from_pwstr_loop mem i acc = Some (acc @ map unat name)"
proof (induction name arbitrary: i acc)
  case Nil
  then show ?case by (subst from_pwstr_loop.simps) simp
next
  case (Cons u name)
  from Cons.prems(2) [of 0] have "mem i = u" by simp
  moreover have "mem (Suc i + k) = name ! k" if "k < length name" for k
    using Cons.prems(2) [of "Suc k"] that by simp
  ultimately show ?case
    using Cons.prems Cons.IH [of "Suc i" "acc @ [unat u]"] by (subst from_pwstr_loop.simps) simp
qed

lemma from_pwstr_terminated: "terminated mem name \<Longrightarrow> latin1 name \<Longrightarrow> from_pwstr mem = Some (map unat name)"
proof -
  assume t: "terminated mem name" and l: "latin1 name"
  have "mem k = name ! k" if "k < length name" for k
  proof -
    have "map mem [0..<length name] ! k = mem k" using that by simp
    with t show ?thesis by (simp add: terminated_def)
  qed
  with t l show ?thesis
    unfolding from_pwstr_def by (subst from_pwstr_loop_terminated [of name]) (simp_all add: terminated_def latin1_def)
qed

lemma collect_groups_terminated:
  "list_all2 terminated gs names \<Longrightarrow> list_all latin1 names \<Longrightarrow> collect_groups gs = Some (map (map unat) names)"
  by (induction rule: list_all2_induct) (simp_all add: from_pwstr_terminated)

lemma from_unicode_string_terminated:
  assumes "counted s name" and "us_buffer s (length name) = 0" and "latin1 name" and "name \<noteq> []"
  shows "from_unicode_string s = Some (map unat name)"
proof -
  have "[length name..<2 * length name] = length name # [Suc (length name)..<2 * length name]"
    using assms(4) by (simp add: upt_conv_Cons)
  with assms from_unicode_string_counted [of s name] show ?thesis
    by (simp add: latin1_def low_bytes_def)
qed

text \<open>The loop over the attempts is the first success among them, the first attempt and \<open>max_retry\<close> more.\<close>

lemma load_dll_with_retry_eq:
  "r \<le> m \<Longrightarrow> load_dll_with_retry library m r = (case filter (\<lambda>i. library i \<noteq> None) [r..<Suc m] of [] \<Rightarrow> None | i # _ \<Rightarrow> library i)"
proof (induction library m r rule: load_dll_with_retry.induct)
  case (1 library m r)
  show ?case
  proof (cases "library r")
    case None
    show ?thesis
    proof (cases "m \<le> r")
      case True
      with None 1 show ?thesis by (subst load_dll_with_retry.simps) simp
    next
      case False
      with None 1 show ?thesis
        by (subst load_dll_with_retry.simps) (simp add: upt_conv_Cons [of r])
    qed
  next
    case (Some lib)
    with 1 show ?thesis by (subst load_dll_with_retry.simps) (simp add: upt_conv_Cons [of r] del: upt_Suc)
  qed
qed

text \<open>Loading a library tries at most \<open>max_retry + 1\<close> times and stops at the first success: the result is that of
  the first successful attempt, and the panic comes exactly when all of them have failed.\<close>

theorem load_dll_spec:
  "load_dll_with_retry library max_retry 0 =
     (case filter (\<lambda>i. library i \<noteq> None) [0..<Suc max_retry] of [] \<Rightarrow> None | i # _ \<Rightarrow> library i)"
  by (rule load_dll_with_retry_eq) simp

text \<open>What Windows documents of a logon: its session data and the groups of its account.\<close>

definition logon_as :: "win_users \<Rightarrow> u64 \<Rightarrow> u16 list \<Rightarrow> u16 list \<Rightarrow> u16 list list \<Rightarrow> bool" where
  "logon_as env l name domain groups \<longleftrightarrow>
     name \<noteq> [] \<and> domain \<noteq> [] \<and> latin1 name \<and> latin1 domain \<and> list_all latin1 groups
     \<and> (case wu_session env (luid_of l) of
          None \<Rightarrow> False
        | Some (u, d) \<Rightarrow> counted u name \<and> us_buffer u (length name) = 0 \<and> counted d domain \<and> us_buffer d (length domain) = 0)
     \<and> (case load_dll_with_retry (wu_netapi env) 3 0 of
          Some (Some get_groups) \<Rightarrow>
            (case get_groups (domain @ [0x5C] @ name @ [0]) of
               (status, gs) \<Rightarrow> status = 0 \<and> list_all2 terminated gs groups)
        | _ \<Rightarrow> False)"

lemma encode_latin1: "latin1 name \<Longrightarrow> encode_utf16 (map unat name) = name"
proof (induction name)
  case (Cons u name)
  then have "unat u < 65536" "latin1 name" by (simp_all add: latin1_def)
  with Cons.IH show ?case by (simp add: encode_utf16_def utf16_char_def)
qed (simp add: encode_utf16_def)

lemma encode_utf16_append [simp]: "encode_utf16 (a @ b) = encode_utf16 a @ encode_utf16 b"
  by (simp add: encode_utf16_def)

lemma counted_nonempty: "counted s name \<Longrightarrow> name \<noteq> [] \<Longrightarrow> us_length s \<noteq> 0"
  by (auto simp: counted_def)

lemma session_names_counted:
  assumes "counted u name" "us_buffer u (length name) = 0" "counted d domain" "us_buffer d (length domain) = 0"
    and "latin1 name" "latin1 domain" "name \<noteq> []" "domain \<noteq> []"
  shows "session_names (u, d) = Some (map unat name, map unat domain @ [0x5C] @ map unat name)"
  using assms counted_nonempty [OF assms(1)] counted_nonempty [OF assms(3)]
  by (simp add: session_names_def from_unicode_string_terminated [of u name] from_unicode_string_terminated [of d domain])

text \<open>The user of a Windows logon: for a logon whose account and groups have names of characters below 256, the
  lookup does not panic and gives the groups of \<open>domain\<close>, backslash, \<open>name\<close> and the name of the account, except that the
  six built-in logons have their fixed names whatever the session says.\<close>

theorem windows_user_spec:
  assumes "logon_as env l name domain groups"
  shows "windows_user_from_logon_id env l = Some
    \<lparr>logon_id = l,
     user_name = (case hm_get load_users l of Some builtin \<Rightarrow> builtin | None \<Rightarrow> utf8_of (map unat name)),
     user_groups = map (\<lambda>g. utf8_of (map unat g)) groups\<rparr>"
proof -
  from assms obtain u d where session: "wu_session env (luid_of l) = Some (u, d)"
    and names: "counted u name" "us_buffer u (length name) = 0" "counted d domain" "us_buffer d (length domain) = 0"
    by (auto simp: logon_as_def split: option.splits)
  from assms have chars: "latin1 name" "latin1 domain" "name \<noteq> []" "domain \<noteq> []" "list_all latin1 groups"
    by (simp_all add: logon_as_def)
  from assms obtain get_groups gs where
    dll: "load_dll_with_retry (wu_netapi env) 3 0 = Some (Some get_groups)"
    and groups: "get_groups (domain @ [0x5C] @ name @ [0]) = (0, gs)" "list_all2 terminated gs groups"
    by (auto simp: logon_as_def split: option.splits prod.splits)
  have "to_pwstr (map unat domain @ [0x5C] @ map unat name) = domain @ [0x5C] @ name @ [0]"
    using chars encode_latin1 [of "domain @ [0x5C] @ name"] by (simp add: to_pwstr_def latin1_def ball_Un)
  with dll groups have "net_user_get_local_groups env (to_pwstr (map unat domain @ [0x5C] @ map unat name))
      = Some (Inr (0, gs))"
    by (simp add: net_user_get_local_groups_def)
  with session session_names_counted [OF names chars(1-4)] collect_groups_terminated [OF groups(2) chars(5)]
  show ?thesis
    by (simp add: windows_user_from_logon_id_def windows_get_user_def comp_def)
qed

definition example_users :: win_users where
  "example_users = \<lparr>wu_session = (\<lambda>luid. Some (example_name 0, example_name 0)),
     wu_netapi = (\<lambda>i. if i < 2 then None
                      else Some (Some (\<lambda>account. (0, [\<lambda>i. if i = 0 then 71 else 0]))))\<rparr>"

theorem windows_user_spec_witness:
  "windows_user_from_logon_id example_users 5 = Some \<lparr>logon_id = 5, user_name = ''AB'', user_groups = [''G'']\<rparr>
   \<and> windows_user_from_logon_id example_users 0x3e7 = Some \<lparr>logon_id = 0x3e7, user_name = ''SYSTEM'', user_groups = [''G'']\<rparr>"
proof -
  have "load_dll_with_retry (wu_netapi example_users) 3 0 = Some (Some (\<lambda>account. (0, [\<lambda>i. if i = 0 then 71 else 0])))"
    by (simp add: example_users_def load_dll_with_retry_eq upt_rec)
  then have "logon_as example_users l [65, 66] [65, 66] [[71]]" for l :: u64
    by (simp add: logon_as_def latin1_def terminated_def) (simp add: example_users_def counted_def example_name_def upt_rec)
  note logon = this
  from windows_user_spec [OF logon, of 5] windows_user_spec [OF logon, of "0x3e7"] show ?thesis
    by (simp add: utf8_of_def utf8_char_def load_users_def char_of_def bit_0)
qed

section \<open>Claims\<close>

definition windows_users_inv :: "win_users \<Rightarrow> users_cache \<Rightarrow> bool" where
  "windows_users_inv env c \<longleftrightarrow> hm_inv c \<and> (\<forall>l u. hm_get c l = Some u \<longrightarrow> windows_user_from_logon_id env l = Some u)"

lemma windows_cached_user_spec:
  assumes "windows_users_inv env c"
  shows "map_option fst (windows_cached_user env l c) = windows_user_from_logon_id env l"
    and "windows_cached_user env l c = Some (u, c') \<Longrightarrow> windows_users_inv env c'"
  using assms by (auto simp: windows_cached_user_def windows_users_inv_def option.map_comp comp_def option.map_ident_strong
      split: option.splits if_splits)

text \<open>The cache after any earlier lookups; one that panics leaves it as it was.\<close>

definition windows_cache_user :: "win_users \<Rightarrow> u64 \<Rightarrow> users_cache \<Rightarrow> users_cache" where
  "windows_cache_user env l c = (case windows_cached_user env l c of Some (u, c') \<Rightarrow> c' | None \<Rightarrow> c)"

interpretation windows_users: step_system "windows_cache_user env" "windows_users_inv env" for env
  by unfold_locales (auto simp: windows_cache_user_def split: option.splits dest: windows_cached_user_spec(2))

definition windows_cache_after :: "win_users \<Rightarrow> u64 list \<Rightarrow> users_cache" where
  "windows_cache_after env ls = fold (windows_cache_user env) ls []"

lemma windows_cache_after_inv: "windows_users_inv env (windows_cache_after env ls)"
  unfolding windows_cache_after_def by (rule windows_users.run_inv) (simp add: windows_users_inv_def)

lemma process_names_valid:
  "utf8_valid (fst (windows_process_info env p)) \<and> utf8_valid (snd (windows_process_info env p))"
proof -
  have undef: "utf8_valid UNDEFINED"
    by (rule utf8_valid_ascii) (simp add: UNDEFINED_def is_ascii_def)
  have "get_process_full_name env h = Inr n \<Longrightarrow> utf8_valid n" "get_process_cmd env h = Inr n \<Longrightarrow> utf8_valid n" for h n
    by (auto simp: get_process_full_name_def get_process_cmd_def Let_def from_utf16_lossy_valid split: if_splits)
  with undef show ?thesis
    by (simp add: windows_process_info_def Let_def split: sum.splits)
qed

text \<open>The process is unknown when it cannot be opened and the null handle cannot be queried either.\<close>

lemma windows_process_unopened:
  assumes "get_process_handler env p = Inl e" and "wp_basic_info env 0 \<noteq> 0"
  shows "windows_process_info env p = (UNDEFINED, UNDEFINED)"
  using assms by (simp add: windows_process_info_def query_basic_process_info_def)



section \<open>Platform processes are told by file name\<close>

text \<open>On Windows a process counts as part of the platform by the file name of its executable alone: for a program
  at any path on a drive, the claims the agent builds are those of a platform process exactly when that name, in lower
  case, is one of the six known ones; the directory and the command line play no part.\<close>

theorem windows_platform_by_name:
  assumes "windows_process_info procs (ae_process_id entry) = (a # CHR '':'' # d @ CHR 0x5C # n, cmd)"
    and "drive_letter a" and "win_plain_name n"
    and "windows_from_audit_entry procs users entry ip cache = Some (c, cache')"
  shows "windows_is_platform_process c \<longleftrightarrow> to_lowercase n \<in> set windows_platform_names"
proof -
  have "processName c = n"
    using assms(1,4) win_file_name_drive [OF assms(2,3), of d]
    by (auto simp: windows_from_audit_entry_def windows_process_from_pid_def Let_def unwrap_or_def)
  then show ?thesis
    using win_file_name_plain [OF assms(3)] by (simp add: windows_is_platform_process_def unwrap_or_def)
qed

definition example_procs :: win_processes where
  "example_procs = \<lparr>wp_open = (\<lambda>a b. 1), wp_last_error = NotFound, wp_basic_info = (\<lambda>h. 0), wp_cmd_length = (\<lambda>h. 0),
     wp_cmd = (\<lambda>h. (0, example_name 0)), wp_base_name = (\<lambda>h. []),
     wp_full_name = (\<lambda>h. map (\<lambda>c. word_of_nat (byte c)) (''C:'' @ CHR 0x5C # ''x'' @ CHR 0x5C # ''WaAppAgent.exe''))\<rparr>"

theorem windows_platform_by_name_witness:
  "\<exists>c cache. windows_from_audit_entry example_procs example_users (audit_entry_empty\<lparr>ae_process_id := 4\<rparr>) ''ip''
       [(0, \<lparr>logon_id = 0, user_name = ''AB'', user_groups = []\<rparr>)] = Some (c, cache)
     \<and> windows_is_platform_process c"
proof -
  have info: "windows_process_info example_procs (ae_process_id (audit_entry_empty\<lparr>ae_process_id := 4\<rparr>))
      = (CHR ''C'' # CHR '':'' # (CHR 0x5C # ''x'') @ CHR 0x5C # ''WaAppAgent.exe'', UNDEFINED)"
    by code_simp
  have n: "drive_letter CHR ''C''" "win_plain_name ''WaAppAgent.exe''"
    by code_simp+
  obtain c cache where run: "windows_from_audit_entry example_procs example_users (audit_entry_empty\<lparr>ae_process_id := 4\<rparr>)
      ''ip'' [(0, \<lparr>logon_id = 0, user_name = ''AB'', user_groups = []\<rparr>)] = Some (c, cache)"
    by (simp add: windows_from_audit_entry_def windows_cached_user_def audit_entry_empty_def Let_def)
  moreover have "to_lowercase ''WaAppAgent.exe'' \<in> set windows_platform_names"
    by code_simp
  ultimately show ?thesis
    using windows_platform_by_name [OF info n run] by blast
qed

end
