(* ===== verification/Windows_Acl.thy ===== *)
theory Windows_Acl
  imports Rust_Str
begin

text \<open>
  \<^verbatim>\<open>proxy_agent/src/acl/windows_acl.rs\<close>: the access rules of the key and log directories on Windows. The access
  control library (\<^verbatim>\<open>windows_acl\<close>) is a parameter, over the state of the file system it changes.
\<close>

section \<open>Definitions\<close>

datatype ace_type = AccessAllow | AccessDeny | OtherAce nat

record acl_entry =
  entry_sid :: "string option"
  entry_type :: ace_type
  entry_flags :: u8
  entry_mask :: u32

text \<open>The library: \<open>'h\<close> is an access list opened for a path, \<open>'a\<close> the file system; errors are system codes.\<close>

record ('h, 'a) acl_lib =
  acl_from_file_path :: "string \<Rightarrow> bool \<Rightarrow> 'a \<Rightarrow> u32 + 'h"
  string_to_sid :: "string \<Rightarrow> u32 + string"
  acl_all :: "'h \<Rightarrow> 'a \<Rightarrow> u32 + acl_entry list"
  acl_remove_entry :: "'h \<Rightarrow> string \<Rightarrow> ace_type option \<Rightarrow> u8 option \<Rightarrow> 'a \<Rightarrow> (u32 + nat) \<times> 'a"
  acl_add_entry :: "'h \<Rightarrow> string \<Rightarrow> ace_type \<Rightarrow> u8 \<Rightarrow> u32 \<Rightarrow> 'a \<Rightarrow> (u32 + bool) \<times> 'a"

definition LOCAL_SYSTEM_SID :: string where "LOCAL_SYSTEM_SID = ''S-1-5-18''"
definition BUILDIN_ADMIN_SID :: string where "BUILDIN_ADMIN_SID = ''S-1-5-32-544''"
definition FULL_CONTROL :: u32 where "FULL_CONTROL = 2032127"

text \<open>\<^verbatim>\<open>CONTAINER_INHERIT_ACE\<close> or \<^verbatim>\<open>OBJECT_INHERIT_ACE\<close>, which are 2 and 1.\<close>

definition inherit_flags :: u8 where "inherit_flags = 3"

text \<open>A failure to remove an entry is only logged.\<close>

fun remove_entries :: "('h, 'a) acl_lib \<Rightarrow> 'h \<Rightarrow> acl_entry list \<Rightarrow> 'a \<Rightarrow> 'a" where
  "remove_entries lib acl [] a = a"
| "remove_entries lib acl (entry # entries) a =
     (case entry_sid entry of
        Some sid \<Rightarrow>
          remove_entries lib acl entries
            (snd (acl_remove_entry lib acl sid (Some (entry_type entry)) (Some (entry_flags entry)) a))
      | None \<Rightarrow> remove_entries lib acl entries a)"

definition windows_acl_directory :: "('h, 'a) acl_lib \<Rightarrow> string \<Rightarrow> 'a \<Rightarrow> unit io_result \<times> 'a" where
  "windows_acl_directory lib dir_str a =
     (case acl_from_file_path lib dir_str True a of
        Inl e \<Rightarrow> (Inl Other, a)
      | Inr acl \<Rightarrow>
          (case string_to_sid lib LOCAL_SYSTEM_SID of
             Inl e \<Rightarrow> (Inl Other, a)
           | Inr system_sid \<Rightarrow>
               (case string_to_sid lib BUILDIN_ADMIN_SID of
                  Inl e \<Rightarrow> (Inl Other, a)
                | Inr admin_sid \<Rightarrow>
                    (case acl_all lib acl a of
                       Inl e \<Rightarrow> (Inl Other, a)
                     | Inr entries \<Rightarrow>
                         (let a = remove_entries lib acl entries a
                          in case acl_add_entry lib acl system_sid AccessAllow inherit_flags FULL_CONTROL a of
                               (Inl e, a) \<Rightarrow> (Inl Other, a)
                             | (Inr r, a) \<Rightarrow>
                                 (case acl_add_entry lib acl admin_sid AccessAllow inherit_flags FULL_CONTROL a of
                                    (Inl e, a) \<Rightarrow> (Inl Other, a)
                                  | (Inr r, a) \<Rightarrow> (Inr (), a)))))))"

section \<open>What the library documents\<close>

definition entry_matches :: "string \<Rightarrow> ace_type option \<Rightarrow> u8 option \<Rightarrow> acl_entry \<Rightarrow> bool" where
  "entry_matches sid t f e \<longleftrightarrow> entry_sid e = Some sid \<and> (t = None \<or> t = Some (entry_type e)) \<and> (f = None \<or> f = Some (entry_flags e))"

abbreviation full_access :: "string \<Rightarrow> acl_entry" where
  "full_access sid \<equiv> \<lparr>entry_sid = Some sid, entry_type = AccessAllow, entry_flags = inherit_flags, entry_mask = FULL_CONTROL\<rparr>"

text \<open>
  The rules of a directory, as the function \<open>rules\<close> sees them: a listing gives them; a removal that succeeds removes the entries that
  match and one that fails removes nothing; an addition that succeeds leaves the entry in place, and one that fails
  adds nothing.
\<close>

definition documented_acl :: "('h, 'a) acl_lib \<Rightarrow> ('h \<Rightarrow> 'a \<Rightarrow> acl_entry set) \<Rightarrow> bool" where
  "documented_acl lib rules \<longleftrightarrow>
     (\<forall>h a. case acl_all lib h a of Inr es \<Rightarrow> set es = rules h a | Inl _ \<Rightarrow> True)
     \<and> (\<forall>h sid t f a. case acl_remove_entry lib h sid t f a of
          (Inr n, a') \<Rightarrow> rules h a' = {e \<in> rules h a. \<not> entry_matches sid t f e}
        | (Inl _, a') \<Rightarrow> rules h a' = rules h a)
     \<and> (\<forall>h sid ty fl m a. case acl_add_entry lib h sid ty fl m a of
          (Inr b, a') \<Rightarrow>
            rules h a' = insert \<lparr>entry_sid = Some sid, entry_type = ty, entry_flags = fl, entry_mask = m\<rparr> (rules h a)
        | (Inl _, a') \<Rightarrow> rules h a' = rules h a)"

lemma documented_acl_rules:
  assumes "documented_acl lib rules"
  shows all_rules: "acl_all lib h a = Inr es \<Longrightarrow> set es = rules h a"
    and remove_ok: "acl_remove_entry lib h sid t f a = (Inr n, a') \<Longrightarrow> rules h a' = {e \<in> rules h a. \<not> entry_matches sid t f e}"
    and remove_failed: "acl_remove_entry lib h sid t f a = (Inl err, a') \<Longrightarrow> rules h a' = rules h a"
    and add_ok: "acl_add_entry lib h sid ty fl m a = (Inr b, a') \<Longrightarrow>
      rules h a' = insert \<lparr>entry_sid = Some sid, entry_type = ty, entry_flags = fl, entry_mask = m\<rparr> (rules h a)"
proof -
  have "case acl_all lib h a of Inr es \<Rightarrow> set es = rules h a | Inl _ \<Rightarrow> True"
    using assms unfolding documented_acl_def by blast
  then show "acl_all lib h a = Inr es \<Longrightarrow> set es = rules h a"
    by simp
  have "case acl_remove_entry lib h sid t f a of
          (Inr n, a') \<Rightarrow> rules h a' = {e \<in> rules h a. \<not> entry_matches sid t f e}
        | (Inl _, a') \<Rightarrow> rules h a' = rules h a"
    by (rule assms [unfolded documented_acl_def, THEN conjunct2, THEN conjunct1, rule_format])
  then show "acl_remove_entry lib h sid t f a = (Inr n, a') \<Longrightarrow> rules h a' = {e \<in> rules h a. \<not> entry_matches sid t f e}"
    and "acl_remove_entry lib h sid t f a = (Inl err, a') \<Longrightarrow> rules h a' = rules h a"
    by simp_all
  have "case acl_add_entry lib h sid ty fl m a of
          (Inr b, a') \<Rightarrow>
            rules h a' = insert \<lparr>entry_sid = Some sid, entry_type = ty, entry_flags = fl, entry_mask = m\<rparr> (rules h a)
        | (Inl _, a') \<Rightarrow> rules h a' = rules h a"
    by (rule assms [unfolded documented_acl_def, THEN conjunct2, THEN conjunct2, rule_format])
  then show "acl_add_entry lib h sid ty fl m a = (Inr b, a') \<Longrightarrow>
      rules h a' = insert \<lparr>entry_sid = Some sid, entry_type = ty, entry_flags = fl, entry_mask = m\<rparr> (rules h a)"
    by simp
qed

section \<open>What is left of the rules\<close>

text \<open>An entry may stay when it names no account or the library refuses to remove it.\<close>

definition unremovable :: "('h, 'a) acl_lib \<Rightarrow> 'h \<Rightarrow> acl_entry \<Rightarrow> bool" where
  "unremovable lib h e \<longleftrightarrow> (case entry_sid e of
     None \<Rightarrow> True
   | Some sid \<Rightarrow> \<exists>a err a'. acl_remove_entry lib h sid (Some (entry_type e)) (Some (entry_flags e)) a = (Inl err, a'))"

lemma remove_entry_sub:
  "documented_acl lib rules \<Longrightarrow> rules h (snd (acl_remove_entry lib h sid t f a)) \<subseteq> rules h a"
  by (cases "acl_remove_entry lib h sid t f a"; cases "fst (acl_remove_entry lib h sid t f a)")
    (auto dest: remove_ok remove_failed)

lemma remove_entries_sub: "documented_acl lib rules \<Longrightarrow> rules h (remove_entries lib h es a) \<subseteq> rules h a"
proof (induction es arbitrary: a)
  case (Cons e es)
  show ?case
  proof (cases "entry_sid e")
    case None
    with Cons show ?thesis by simp
  next
    case (Some sid)
    with Cons.IH [OF Cons.prems] remove_entry_sub [OF Cons.prems] show ?thesis by (simp, blast)
  qed
qed simp

lemma remove_entries_rest:
  assumes "documented_acl lib rules"
  shows "e \<in> set es \<Longrightarrow> e \<in> rules h (remove_entries lib h es a) \<Longrightarrow> unremovable lib h e"
proof (induction es arbitrary: a)
  case (Cons x es)
  show ?case
  proof (cases "entry_sid x")
    case None
    with Cons show ?thesis by (auto simp: unremovable_def)
  next
    case (Some sid)
    obtain r a' where run: "acl_remove_entry lib h sid (Some (entry_type x)) (Some (entry_flags x)) a = (r, a')"
      by fastforce
    with Some Cons.prems(2) have rest: "e \<in> rules h (remove_entries lib h es a')" by simp
    show ?thesis
    proof (cases "e \<in> set es")
      case True
      with rest Cons.IH show ?thesis by blast
    next
      case False
      with Cons.prems(1) have x: "x = e" by simp
      from rest have "e \<in> rules h a'"
        using remove_entries_sub [OF assms] by blast
      with run x Some have "\<exists>err. r = Inl err"
        using remove_ok [OF assms, of h sid "Some (entry_type e)" "Some (entry_flags e)" a _ a']
        by (cases r) (auto simp: entry_matches_def)
      with run x Some show ?thesis by (auto simp: unremovable_def)
    qed
  qed
qed simp

lemma directory_ok:
  assumes "documented_acl lib rules" and "windows_acl_directory lib dir a = (Inr (), a')"
  shows "\<exists>h system_sid admin_sid es. acl_from_file_path lib dir True a = Inr h
    \<and> string_to_sid lib LOCAL_SYSTEM_SID = Inr system_sid \<and> string_to_sid lib BUILDIN_ADMIN_SID = Inr admin_sid
    \<and> acl_all lib h a = Inr es
    \<and> rules h a' = {full_access system_sid, full_access admin_sid} \<union> rules h (remove_entries lib h es a)"
  using assms(2)
  by (auto simp: windows_acl_directory_def Let_def split: sum.splits prod.splits dest!: add_ok [OF assms(1)])

text \<open>C22: The access rules of a protected directory on Windows: when \<^verbatim>\<open>acl_directory\<close> reports success, the local system
  and the administrators have full, inherited access, and any other rule that is left was there before and either names
  no account or is one the library refused to remove; so that nothing else is left when every rule names an account
  and no removal fails.\<close>

theorem acl_directory_spec:
  assumes "documented_acl lib rules" and "windows_acl_directory lib dir a = (Inr (), a')"
  shows "\<exists>h system_sid admin_sid. acl_from_file_path lib dir True a = Inr h
    \<and> string_to_sid lib LOCAL_SYSTEM_SID = Inr system_sid \<and> string_to_sid lib BUILDIN_ADMIN_SID = Inr admin_sid
    \<and> {full_access system_sid, full_access admin_sid} \<subseteq> rules h a'
    \<and> (\<forall>e\<in>rules h a' - {full_access system_sid, full_access admin_sid}. e \<in> rules h a \<and> unremovable lib h e)"
proof -
  from directory_ok [OF assms] obtain h system_sid admin_sid es where
    h: "acl_from_file_path lib dir True a = Inr h"
    "string_to_sid lib LOCAL_SYSTEM_SID = Inr system_sid" "string_to_sid lib BUILDIN_ADMIN_SID = Inr admin_sid"
    and es: "acl_all lib h a = Inr es"
    and after: "rules h a' = {full_access system_sid, full_access admin_sid} \<union> rules h (remove_entries lib h es a)"
    by blast
  have "e \<in> rules h a \<and> unremovable lib h e" if "e \<in> rules h (remove_entries lib h es a)" for e
    using that remove_entries_sub [OF assms(1)] remove_entries_rest [OF assms(1)] all_rules [OF assms(1) es] by blast
  with h after show ?thesis by auto
qed

text \<open>A file system with one list of rules and a library over it; removing the rules of one account is refused.\<close>

definition example_acl :: "(unit, acl_entry list) acl_lib" where
  "example_acl = \<lparr>acl_from_file_path = (\<lambda>p w a. Inr ()), string_to_sid = Inr, acl_all = (\<lambda>h a. Inr a),
     acl_remove_entry = (\<lambda>h sid t f a. if sid = ''S-1-1-1'' then (Inl 5, a)
       else (Inr 1, filter (\<lambda>e. \<not> entry_matches sid t f e) a)),
     acl_add_entry = (\<lambda>h sid ty fl m a. (Inr True,
       \<lparr>entry_sid = Some sid, entry_type = ty, entry_flags = fl, entry_mask = m\<rparr> # a))\<rparr>"

lemma example_acl_documented: "documented_acl example_acl (\<lambda>h a. set a)"
  by (auto simp: documented_acl_def example_acl_def)

theorem acl_directory_spec_witness:
  "windows_acl_directory example_acl ''d'' [full_access ''S-1-1-0'', full_access ''S-1-1-1''] =
     (Inr (), [full_access ''S-1-5-32-544'', full_access ''S-1-5-18'', full_access ''S-1-1-1''])
   \<and> unremovable example_acl () (full_access ''S-1-1-1'')"
proof -
  have run: "windows_acl_directory example_acl ''d'' [full_access ''S-1-1-0'', full_access ''S-1-1-1''] =
      (Inr (), [full_access ''S-1-5-32-544'', full_access ''S-1-5-18'', full_access ''S-1-1-1''])"
    by (simp add: windows_acl_directory_def example_acl_def LOCAL_SYSTEM_SID_def BUILDIN_ADMIN_SID_def entry_matches_def Let_def)
  have sid: "string_to_sid example_acl s = Inr s" for s
    by (simp add: example_acl_def)
  show ?thesis
    using acl_directory_spec [OF example_acl_documented run] run
    by (auto simp: sid LOCAL_SYSTEM_SID_def BUILDIN_ADMIN_SID_def)
qed

end
