(* ===== verification/Windows_Service.thy ===== *)
theory Windows_Service
  imports Agent_Version
begin

text \<open>
  Services on Windows: \<^verbatim>\<open>proxy_agent_shared/src/service/windows_service.rs\<close>, the Windows branches of
  \<^verbatim>\<open>service.rs\<close>, \<^verbatim>\<open>proxy_agent_shared/src/windows.rs\<close> and \<^verbatim>\<open>get_file_version\<close> of the extension. The service
  manager (\<^verbatim>\<open>windows_service\<close>), the registry (\<^verbatim>\<open>winreg\<close>) and the version resource of a file are parameters. A service
  handle is named by its service, since a handle is never kept across operations.
\<close>

unbundle bit_operations_syntax

section \<open>The service manager\<close>

datatype service_state =
  Stopped | StartPending | StopPending | Running | ContinuePending | PausePending | Paused

datatype manager_access = SC_Connect | SC_Create_Service
datatype service_access = QUERY_STATUS | START | STOP | DELETE | CHANGE_CONFIG | QUERY_CONFIG

datatype service_type = OWN_PROCESS
datatype service_start_type = AutoStart
datatype service_error_control = ErrorNormal

record service_info =
  si_name :: string
  si_display_name :: string
  si_service_type :: service_type
  si_start_type :: service_start_type
  si_error_control :: service_error_control
  si_executable_path :: string
  si_launch_arguments :: "string list"
  si_dependencies :: "string list"
  si_account_name :: "string option"
  si_account_password :: "string option"

text \<open>
  The calls, over the state \<open>'s\<close> of the machine; errors are the numbers of the library's errors, with their text. A
  query of the configuration gives the executable path. While the caller sleeps, services may change their state.
\<close>

record 's scm =
  scm_connect :: "manager_access \<Rightarrow> 's \<Rightarrow> nat + unit"
  open_service :: "string \<Rightarrow> service_access list \<Rightarrow> 's \<Rightarrow> nat + unit"
  query_status :: "string \<Rightarrow> 's \<Rightarrow> nat + service_state"
  query_config :: "string \<Rightarrow> 's \<Rightarrow> nat + string"
  svc_start :: "string \<Rightarrow> string list \<Rightarrow> 's \<Rightarrow> (nat + unit) \<times> 's"
  svc_stop :: "string \<Rightarrow> 's \<Rightarrow> (nat + service_state) \<times> 's"
  svc_delete :: "string \<Rightarrow> 's \<Rightarrow> (nat + unit) \<times> 's"
  change_config :: "string \<Rightarrow> service_info \<Rightarrow> 's \<Rightarrow> (nat + unit) \<times> 's"
  scm_create_service :: "service_info \<Rightarrow> service_access list \<Rightarrow> 's \<Rightarrow> (nat + unit) \<times> 's"
  scm_sleep :: "nat \<Rightarrow> 's \<Rightarrow> 's"
  scm_error_text :: "nat \<Rightarrow> string"

text \<open>\<^verbatim>\<open>ServiceManager::local_computer\<close> and then \<^verbatim>\<open>open_service\<close>, as every operation on a service begins.\<close>

definition connect_open :: "'s scm \<Rightarrow> string \<Rightarrow> service_access list \<Rightarrow> 's \<Rightarrow> nat + unit" where
  "connect_open m service_name access s =
     (case scm_connect m SC_Connect s of
        Inl e \<Rightarrow> Inl e
      | Inr _ \<Rightarrow> open_service m service_name access s)"

section \<open>Operations\<close>

definition query_service_status :: "'s scm \<Rightarrow> string \<Rightarrow> 's \<Rightarrow> nat + service_state" where
  "query_service_status m service_name s =
     (case connect_open m service_name [QUERY_STATUS] s of Inl e \<Rightarrow> Inl e | Inr _ \<Rightarrow> query_status m service_name s)"

definition query_service_config :: "'s scm \<Rightarrow> string \<Rightarrow> 's \<Rightarrow> nat + string" where
  "query_service_config m service_name s =
     (case connect_open m service_name [QUERY_CONFIG] s of Inl e \<Rightarrow> Inl e | Inr _ \<Rightarrow> query_config m service_name s)"

definition start_service_once :: "'s scm \<Rightarrow> string \<Rightarrow> 's \<Rightarrow> (nat + service_state) \<times> 's" where
  "start_service_once m service_name s =
     (case query_service_status m service_name s of
        Inl e \<Rightarrow> (Inl e, s)
      | Inr current_state \<Rightarrow>
          if current_state = Running then (Inr current_state, s)
          else (case connect_open m service_name [START, QUERY_STATUS] s of
                  Inl e \<Rightarrow> (Inl e, s)
                | Inr _ \<Rightarrow>
                    (case svc_start m service_name [[]] s of
                       (Inl e, s) \<Rightarrow> (Inl e, s)
                     | (Inr _, s) \<Rightarrow> (let s = scm_sleep m 1 s in (query_status m service_name s, s)))))"

text \<open>\<open>retry_count\<close> attempts, a wait of \<open>duration\<close> seconds after each one that does not find the service running.\<close>

fun start_service_with_retry :: "'s scm \<Rightarrow> string \<Rightarrow> nat \<Rightarrow> nat \<Rightarrow> 's \<Rightarrow> 's" where
  "start_service_with_retry m service_name 0 duration s = s"
| "start_service_with_retry m service_name (Suc n) duration s =
     (case start_service_once m service_name s of
        (Inr current_state, s) \<Rightarrow>
          if current_state = Running then s
          else start_service_with_retry m service_name n duration (scm_sleep m duration s)
      | (Inl e, s) \<Rightarrow> start_service_with_retry m service_name n duration (scm_sleep m duration s))"

text \<open>\<^verbatim>\<open>stop_service\<close>: a stop that fails is only logged.\<close>

definition scm_stop_service :: "'s scm \<Rightarrow> string \<Rightarrow> 's \<Rightarrow> (nat + service_state) \<times> 's" where
  "scm_stop_service m service_name s =
     (case query_service_status m service_name s of
        Inl e \<Rightarrow> (Inl e, s)
      | Inr current_state \<Rightarrow>
          if current_state = Running
          then (case connect_open m service_name [STOP, QUERY_STATUS] s of
                  Inl e \<Rightarrow> (Inl e, s)
                | Inr _ \<Rightarrow>
                    (let s = (case svc_stop m service_name s of
                                (Inr st, s) \<Rightarrow> scm_sleep m 1 s
                              | (Inl e, s) \<Rightarrow> s)
                     in (query_status m service_name s, s)))
          else (Inr current_state, s))"

definition delete_service :: "'s scm \<Rightarrow> string \<Rightarrow> 's \<Rightarrow> (nat + unit) \<times> 's" where
  "delete_service m service_name s =
     (case connect_open m service_name [DELETE] s of Inl e \<Rightarrow> (Inl e, s) | Inr _ \<Rightarrow> svc_delete m service_name s)"

definition scm_stop_and_delete_service :: "'s scm \<Rightarrow> string \<Rightarrow> 's \<Rightarrow> (nat + unit) \<times> 's" where
  "scm_stop_and_delete_service m service_name s =
     (case scm_stop_service m service_name s of
        (Inl e, s) \<Rightarrow> (Inl e, s)
      | (Inr _, s) \<Rightarrow> delete_service m service_name s)"

definition own_process_info :: "string \<Rightarrow> string \<Rightarrow> string list \<Rightarrow> string \<Rightarrow> service_info" where
  "own_process_info service_name service_display_name service_dependencies exe_path =
     \<lparr>si_name = service_name, si_display_name = service_display_name, si_service_type = OWN_PROCESS,
      si_start_type = AutoStart, si_error_control = ErrorNormal, si_executable_path = exe_path,
      si_launch_arguments = [], si_dependencies = service_dependencies, si_account_name = None,
      si_account_password = None\<rparr>"

definition scm_update_service :: "'s scm \<Rightarrow> string \<Rightarrow> string \<Rightarrow> string list \<Rightarrow> string \<Rightarrow> 's \<Rightarrow> (nat + unit) \<times> 's" where
  "scm_update_service m service_name service_display_name service_dependencies exe_path s =
     (case connect_open m service_name [CHANGE_CONFIG] s of
        Inl e \<Rightarrow> (Inl e, s)
      | Inr _ \<Rightarrow>
          change_config m service_name (own_process_info service_name service_display_name service_dependencies exe_path) s)"

definition create_service :: "'s scm \<Rightarrow> string \<Rightarrow> string \<Rightarrow> string list \<Rightarrow> string \<Rightarrow> 's \<Rightarrow> (nat + unit) \<times> 's" where
  "create_service m service_name service_display_name service_dependencies exe_path s =
     (case scm_connect m SC_Create_Service s of
        Inl e \<Rightarrow> (Inl e, s)
      | Inr _ \<Rightarrow>
          scm_create_service m (own_process_info service_name service_display_name service_dependencies exe_path)
            [QUERY_STATUS] s)"

text \<open>Errors of the service manager become \<^verbatim>\<open>ErrorKind::Other\<close>.\<close>

definition as_io :: "(nat + 'a) \<times> 's \<Rightarrow> unit io_result \<times> 's" where
  "as_io r = (case r of (Inl e, s) \<Rightarrow> (Inl Other, s) | (Inr _, s) \<Rightarrow> (Inr (), s))"

definition scm_install_or_update_service ::
  "'s scm \<Rightarrow> string \<Rightarrow> string \<Rightarrow> string list \<Rightarrow> string \<Rightarrow> 's \<Rightarrow> unit io_result \<times> 's" where
  "scm_install_or_update_service m service_name service_display_name service_dependencies exe_path s =
     (case query_service_status m service_name s of
        Inr _ \<Rightarrow> as_io (scm_update_service m service_name service_display_name service_dependencies exe_path s)
      | Inl _ \<Rightarrow> as_io (create_service m service_name service_display_name service_dependencies exe_path s))"

section \<open>The operations of the shared library on Windows\<close>

definition windows_install_service ::
  "'s scm \<Rightarrow> string \<Rightarrow> string \<Rightarrow> string list \<Rightarrow> string \<Rightarrow> 's \<Rightarrow> unit io_result \<times> 's" where
  "windows_install_service m service_name display_name dependencies exe_path s =
     (case scm_install_or_update_service m service_name display_name dependencies exe_path s of
        (Inr _, s) \<Rightarrow> (Inr (), s)
      | (Inl e, s) \<Rightarrow> (Inl Other, s))"

definition windows_stop_and_delete_service :: "'s scm \<Rightarrow> string \<Rightarrow> 's \<Rightarrow> unit io_result \<times> 's" where
  "windows_stop_and_delete_service m service_name s = as_io (scm_stop_and_delete_service m service_name s)"

definition windows_start_service :: "'s scm \<Rightarrow> string \<Rightarrow> nat \<Rightarrow> nat \<Rightarrow> 's \<Rightarrow> 's" where
  "windows_start_service m service_name retry_count duration s =
     start_service_with_retry m service_name retry_count duration s"

definition windows_stop_service :: "'s scm \<Rightarrow> string \<Rightarrow> 's \<Rightarrow> unit io_result \<times> 's" where
  "windows_stop_service m service_name s = as_io (scm_stop_service m service_name s)"

definition windows_update_service ::
  "'s scm \<Rightarrow> string \<Rightarrow> string \<Rightarrow> string list \<Rightarrow> string \<Rightarrow> 's \<Rightarrow> unit io_result \<times> 's" where
  "windows_update_service m service_name display_name dependencies exe_path s =
     as_io (scm_update_service m service_name display_name dependencies exe_path s)"

definition query_service_executable_path :: "'s scm \<Rightarrow> string \<Rightarrow> 's \<Rightarrow> string" where
  "query_service_executable_path m service_name s =
     (case query_service_config m service_name s of Inr executable_path \<Rightarrow> executable_path | Inl e \<Rightarrow> [])"

definition check_service_installed :: "'s scm \<Rightarrow> string \<Rightarrow> 's \<Rightarrow> bool \<times> string" where
  "check_service_installed m service_name s =
     (case query_service_config m service_name s of
        Inr _ \<Rightarrow> (True, ''check_service_installed: Ebpf Driver: '' @ service_name @ '' successfully queried.'')
      | Inl e \<Rightarrow> (False, ''check_service_installed: Ebpf Driver: '' @ service_name
                         @ '' unsuccessfully queried with error: '' @ scm_error_text m e @ ''.''))"

text \<open>\<^verbatim>\<open>ensure_service_running\<close> starts the service only from the stopped state.\<close>

definition ensure_service_running :: "'s scm \<Rightarrow> string \<Rightarrow> 's \<Rightarrow> (bool \<times> string) \<times> 's" where
  "ensure_service_running m service_name s =
     (case scm_connect m SC_Connect s of
        Inl e \<Rightarrow> ((False, ''ensure_service_running:: Failed to connect to service manager with error ''
                   @ scm_error_text m e @ ''.''), s)
      | Inr _ \<Rightarrow>
          (case open_service m service_name [QUERY_STATUS, START] s of
             Inl e \<Rightarrow> ((False, ''ensure_service_running:: Failed to open service '' @ service_name @ '' with error ''
                        @ scm_error_text m e @ ''.''), s)
           | Inr _ \<Rightarrow>
               (case query_status m service_name s of
                  Inl e \<Rightarrow> ((False, ''ensure_service_running:: Failed to query service state for '' @ service_name
                             @ '' with error '' @ scm_error_text m e @ ''.''), s)
                | Inr current_state \<Rightarrow>
                    if current_state = Stopped
                    then (case svc_start m service_name [''Started by GuestProxyAgent''] s of
                            (Inr _, s) \<Rightarrow> ((True, ''ensure_service_running:: service '' @ service_name
                                          @ '' started by GuestProxyAgent successfully.''), s)
                          | (Inl e, s) \<Rightarrow> ((False, ''ensure_service_running:: Failed to start service '' @ service_name
                                          @ '' with error '' @ scm_error_text m e @ ''.''), s))
                    else ((True, []), s))))"

section \<open>Operating system and file versions\<close>

text \<open>Values of the local machine's registry, read as a number or as text.\<close>

record registry =
  reg_int :: "string \<Rightarrow> string \<Rightarrow> u32 option"
  reg_string :: "string \<Rightarrow> string \<Rightarrow> string option"

definition read_reg_int :: "registry \<Rightarrow> string \<Rightarrow> string \<Rightarrow> u32 option \<Rightarrow> u32 option" where
  "read_reg_int reg key_name value_name default_value =
     (case reg_int reg key_name value_name of Some val \<Rightarrow> Some val | None \<Rightarrow> default_value)"

definition read_reg_string :: "registry \<Rightarrow> string \<Rightarrow> string \<Rightarrow> string \<Rightarrow> string" where
  "read_reg_string reg key_name value_name default_value =
     (case reg_string reg key_name value_name of Some val \<Rightarrow> val | None \<Rightarrow> default_value)"

definition OS_VERSION_REGISTRY_KEY :: string where
  "OS_VERSION_REGISTRY_KEY = ''Software'' @ [CHR 0x5C] @ ''Microsoft'' @ [CHR 0x5C] @ ''Windows NT'' @ [CHR 0x5C] @ ''CurrentVersion''"
definition PRODUCT_NAME_VAL_STRING :: string where "PRODUCT_NAME_VAL_STRING = ''ProductName''"
definition CURRENT_MAJOR_VERSION_NUMBER_STRING :: string where
  "CURRENT_MAJOR_VERSION_NUMBER_STRING = ''CurrentMajorVersionNumber''"
definition CURRENT_MINOR_VERSION_NUMBER_STRING :: string where
  "CURRENT_MINOR_VERSION_NUMBER_STRING = ''CurrentMinorVersionNumber''"
definition CURRENT_BUILD_NUMBER_STRING :: string where "CURRENT_BUILD_NUMBER_STRING = ''CurrentBuildNumber''"
definition UBRSTRING :: string where "UBRSTRING = ''UBR''"

text \<open>Major and minor: the number, else the text; build and revision: the text, else the number.\<close>

definition int_then_text :: "registry \<Rightarrow> string \<Rightarrow> u32 option" where
  "int_then_text reg value_name =
     (case read_reg_int reg OS_VERSION_REGISTRY_KEY value_name None of
        Some n \<Rightarrow> Some n
      | None \<Rightarrow> parse_u32 (read_reg_string reg OS_VERSION_REGISTRY_KEY value_name []))"

definition text_then_int :: "registry \<Rightarrow> string \<Rightarrow> u32 option" where
  "text_then_int reg value_name =
     (let str = read_reg_string reg OS_VERSION_REGISTRY_KEY value_name []
      in if str = [] then read_reg_int reg OS_VERSION_REGISTRY_KEY value_name None else parse_u32 str)"

definition windows_get_os_version :: "registry \<Rightarrow> version io_result" where
  "windows_get_os_version reg =
     (case int_then_text reg CURRENT_MAJOR_VERSION_NUMBER_STRING of
        None \<Rightarrow> Inl InvalidInput
      | Some maj \<Rightarrow>
          (case int_then_text reg CURRENT_MINOR_VERSION_NUMBER_STRING of
             None \<Rightarrow> Inl InvalidInput
           | Some mnr \<Rightarrow>
               Inr (from_major_minor_build_revision maj mnr (text_then_int reg CURRENT_BUILD_NUMBER_STRING)
                      (text_then_int reg UBRSTRING))))"

definition windows_get_os_name :: "registry \<Rightarrow> string" where
  "windows_get_os_name reg =
     (let os_name = read_reg_string reg OS_VERSION_REGISTRY_KEY PRODUCT_NAME_VAL_STRING []
      in case windows_get_os_version reg of
           Inl e \<Rightarrow> os_name
         | Inr ver \<Rightarrow>
             (case build ver of
                None \<Rightarrow> os_name
              | Some b \<Rightarrow> if 22000 \<le> b then replace_str ''Windows 10 '' ''Windows 11 '' os_name else os_name))"

definition windows_get_long_os_version :: "registry \<Rightarrow> string" where
  "windows_get_long_os_version reg =
     (case windows_get_os_version reg of
        Inr ver \<Rightarrow> ''Windows:'' @ windows_get_os_name reg @ ''-'' @ version_to_string ver
      | Inl e \<Rightarrow> ''Windows:'' @ windows_get_os_name reg @ ''-'')"

text \<open>From the field \<^verbatim>\<open>wProcessorArchitecture\<close> of \<^verbatim>\<open>GetSystemInfo\<close>.\<close>

definition windows_get_processor_arch :: "u16 \<Rightarrow> string" where
  "windows_get_processor_arch arch =
     (if arch = 0 then ''x86'' else if arch = 5 then ''ARM'' else if arch = 6 then ''IA64''
      else if arch = 9 then ''AMD64'' else if arch = 12 then ''ARM64'' else ''unknown'')"

text \<open>
  \<^verbatim>\<open>get_file_version\<close>: the size of the version resource, whether it could be read, and its two words; an error is the
  last error of the system.
\<close>

record version_resource =
  vr_size :: u32
  vr_read :: bool
  vr_fixed :: "(u32 \<times> u32) option"
  vr_last_error :: error_kind

definition get_file_version :: "version_resource \<Rightarrow> string io_result" where
  "get_file_version res =
     (if vr_size res = 0 then Inl (vr_last_error res)
      else if \<not> vr_read res then Inl (vr_last_error res)
      else (case vr_fixed res of
              None \<Rightarrow> Inl (vr_last_error res)
            | Some (ms, ls) \<Rightarrow>
                (let version_info_str = show_nat (unat (drop_bit 16 ms)) @ ''.'' @ show_nat (unat (ms AND 0xFFFF)) @ ''.''
                       @ show_nat (unat (drop_bit 16 ls));
                     rev = ls AND 0xFFFF
                 in Inr (if 0 < rev then version_info_str @ ''.'' @ show_nat (unat rev) else version_info_str))))"

section \<open>What the service manager documents\<close>

text \<open>
  \<open>config\<close> is the database of services. A call that fails changes nothing in it; creating a service and changing its
  configuration store what they are given; deleting a service touches no other one; starting and stopping services and
  waiting do not change configurations. A query gives the path of the executable as it was stored; the library puts
  quotes around a path that has blanks or quotes in it.
\<close>

definition plain_path :: "string \<Rightarrow> bool" where
  "plain_path p \<longleftrightarrow> p \<noteq> [] \<and> (\<forall>c\<in>set p. 32 < byte c \<and> byte c \<noteq> 34)"

definition documented_scm :: "'s scm \<Rightarrow> ('s \<Rightarrow> string \<Rightarrow> service_info option) \<Rightarrow> bool" where
  "documented_scm m config \<longleftrightarrow>
     (\<forall>n i s. config (snd (change_config m n i s)) =
        (if fst (change_config m n i s) = Inr () then (config s)(n \<mapsto> i) else config s))
     \<and> (\<forall>i a s. config (snd (scm_create_service m i a s)) =
        (if fst (scm_create_service m i a s) = Inr () then (config s)(si_name i \<mapsto> i) else config s))
     \<and> (\<forall>n s k. k \<noteq> n \<longrightarrow> config (snd (svc_delete m n s)) k = config s k)
     \<and> (\<forall>n as s. config (snd (svc_start m n as s)) = config s)
     \<and> (\<forall>n s. config (snd (svc_stop m n s)) = config s)
     \<and> (\<forall>d s. config (scm_sleep m d s) = config s)
     \<and> (\<forall>n s p. query_config m n s = Inr p \<longrightarrow>
          (\<exists>i. config s n = Some i \<and> (plain_path (si_executable_path i) \<longrightarrow> p = si_executable_path i)))"

lemma documented_scm_laws:
  assumes "documented_scm m config"
  shows scm_change: "change_config m n i s = (r, s') \<Longrightarrow> config s' = (if r = Inr () then (config s)(n \<mapsto> i) else config s)"
    and scm_create: "scm_create_service m i a s = (r, s') \<Longrightarrow> config s' = (if r = Inr () then (config s)(si_name i \<mapsto> i) else config s)"
    and scm_delete: "svc_delete m n s = (q, s') \<Longrightarrow> k \<noteq> n \<Longrightarrow> config s' k = config s k"
    and scm_start: "svc_start m n as s = (q, s') \<Longrightarrow> config s' = config s"
    and scm_stop: "svc_stop m n s = (p, s') \<Longrightarrow> config s' = config s"
    and scm_wait: "config (scm_sleep m d s) = config s"
    and scm_path: "query_config m n s = Inr x \<Longrightarrow> config s n = Some j \<Longrightarrow> plain_path (si_executable_path j) \<Longrightarrow> x = si_executable_path j"
  using assms unfolding documented_scm_def by (metis fst_conv snd_conv option.inject)+

lemma windows_install_config:
  assumes "documented_scm m config" and "windows_install_service m name display deps exe s = (r, s')"
  shows "config s' = (if r = Inr () then (config s)(name \<mapsto> own_process_info name display deps exe) else config s)"
proof -
  have update: "scm_update_service m name display deps exe s = (q, s1) \<Longrightarrow>
      config s1 = (if q = Inr () then (config s)(name \<mapsto> own_process_info name display deps exe) else config s)" for q s1
    using scm_change [OF assms(1)] by (auto simp: scm_update_service_def split: sum.splits)
  have create: "create_service m name display deps exe s = (q, s1) \<Longrightarrow>
      config s1 = (if q = Inr () then (config s)(name \<mapsto> own_process_info name display deps exe) else config s)" for q s1
    using scm_create [OF assms(1)] by (auto simp: create_service_def own_process_info_def split: sum.splits)
  show ?thesis
    using assms(2) update create
    by (auto simp: windows_install_service_def scm_install_or_update_service_def as_io_def split: sum.splits prod.splits)
qed

text \<open>Installing a service on Windows, whether it exists or not: success means that the database holds exactly the
  description the caller gave (automatic start, own process, local system) and no other service has changed; an error
  means that nothing has changed. Afterwards the executable path the agent reads back, when the query succeeds, is the
  path that was installed, if it has no blanks and no quotes.\<close>

theorem windows_install_service_spec:
  assumes "documented_scm m config" and "windows_install_service m name display deps exe s = (r, s')"
  shows "config s' = (if r = Inr () then (config s)(name \<mapsto> own_process_info name display deps exe) else config s)"
    and "r = Inr () \<Longrightarrow> plain_path exe \<Longrightarrow> query_service_executable_path m name s' \<in> {exe, []}"
proof -
  show config: "config s' = (if r = Inr () then (config s)(name \<mapsto> own_process_info name display deps exe) else config s)"
    by (rule windows_install_config [OF assms])
  show "query_service_executable_path m name s' \<in> {exe, []}" if "r = Inr ()" "plain_path exe"
    using that config scm_path [OF assms(1), of name s' _ "own_process_info name display deps exe"]
    by (auto simp: query_service_executable_path_def query_service_config_def own_process_info_def split: sum.splits)
qed

text \<open>A service manager over the database itself, with the states of the services.\<close>

type_synonym example_machine = "(string \<Rightarrow> service_info option) \<times> (string \<Rightarrow> service_state)"

definition example_scm :: "example_machine scm" where
  "example_scm = \<lparr>scm_connect = (\<lambda>a s. Inr ()),
     open_service = (\<lambda>n a s. case fst s n of None \<Rightarrow> Inl 1060 | Some _ \<Rightarrow> Inr ()),
     query_status = (\<lambda>n s. Inr (snd s n)),
     query_config = (\<lambda>n s. case fst s n of None \<Rightarrow> Inl 1060 | Some i \<Rightarrow> Inr (si_executable_path i)),
     svc_start = (\<lambda>n as s. (Inr (), (fst s, (snd s)(n := Running)))),
     svc_stop = (\<lambda>n s. (Inr Stopped, (fst s, (snd s)(n := Stopped)))),
     svc_delete = (\<lambda>n s. (Inr (), ((fst s)(n := None), snd s))),
     change_config = (\<lambda>n i s. (Inr (), ((fst s)(n \<mapsto> i), snd s))),
     scm_create_service = (\<lambda>i a s. (Inr (), ((fst s)(si_name i \<mapsto> i), snd s))),
     scm_sleep = (\<lambda>d s. s), scm_error_text = (\<lambda>e. [])\<rparr>"

lemma example_scm_documented: "documented_scm example_scm fst"
  by (simp add: documented_scm_def example_scm_def split: option.splits)

theorem windows_install_service_spec_witness:
  "case windows_install_service example_scm ''a'' ''A'' [''b''] ''c'' (Map.empty, \<lambda>n. Stopped) of
     (r, s') \<Rightarrow> r = Inr () \<and> fst s' = [''a'' \<mapsto> own_process_info ''a'' ''A'' [''b''] ''c'']
       \<and> query_service_executable_path example_scm ''a'' s' \<in> {''c'', []}"
proof -
  obtain r s' where run: "windows_install_service example_scm ''a'' ''A'' [''b''] ''c'' (Map.empty, \<lambda>n. Stopped) = (r, s')"
    by (rule prod.exhaust)
  moreover from run have "r = Inr ()"
    by (auto simp: windows_install_service_def scm_install_or_update_service_def query_service_status_def connect_open_def
        create_service_def as_io_def example_scm_def)
  moreover have "plain_path ''c''"
    by (simp add: plain_path_def)
  ultimately show ?thesis
    using windows_install_service_spec [OF example_scm_documented run] by simp
qed

section \<open>Starting a service\<close>

text \<open>The states before the attempts, when no earlier one has found the service running.\<close>

primrec before_start :: "'s scm \<Rightarrow> string \<Rightarrow> nat \<Rightarrow> 's \<Rightarrow> nat \<Rightarrow> 's" where
  "before_start m name d s 0 = s"
| "before_start m name d s (Suc k) = scm_sleep m d (snd (start_service_once m name (before_start m name d s k)))"

abbreviation starts_at :: "'s scm \<Rightarrow> string \<Rightarrow> nat \<Rightarrow> 's \<Rightarrow> nat \<Rightarrow> bool" where
  "starts_at m name d s k \<equiv> fst (start_service_once m name (before_start m name d s k)) = Inr Running"

lemma before_start_shift:
  "before_start m name d (scm_sleep m d (snd (start_service_once m name s))) k = before_start m name d s (Suc k)"
  by (induction k) simp_all

lemma start_service_with_retry_eq:
  "start_service_with_retry m name n d s =
     (case filter (starts_at m name d s) [0..<n] of
        [] \<Rightarrow> before_start m name d s n
      | k # _ \<Rightarrow> snd (start_service_once m name (before_start m name d s k)))"
proof (induction n arbitrary: s)
  case (Suc n)
  define s1 where "s1 = scm_sleep m d (snd (start_service_once m name s))"
  have later: "before_start m name d s1 k = before_start m name d s (Suc k)" for k
    unfolding s1_def by (rule before_start_shift)
  have upt: "[0..<Suc n] = 0 # map Suc [0..<n]"
    by (simp add: map_Suc_upt upt_conv_Cons del: upt_Suc)
  show ?case
  proof (cases "fst (start_service_once m name s) = Inr Running")
    case True
    then show ?thesis
      by (cases "start_service_once m name s") (simp add: upt del: upt_Suc)
  next
    case False
    then have "start_service_with_retry m name (Suc n) d s = start_service_with_retry m name n d s1"
      by (cases "start_service_once m name s") (auto simp: s1_def split: sum.splits)
    also have "\<dots> = (case filter (\<lambda>k. starts_at m name d s (Suc k)) [0..<n] of
        [] \<Rightarrow> before_start m name d s (Suc n)
      | k # _ \<Rightarrow> snd (start_service_once m name (before_start m name d s (Suc k))))"
      unfolding Suc.IH [of s1] later by (rule refl)
    finally show ?thesis
      using False by (simp add: upt filter_map comp_def del: upt_Suc before_start.simps(2) split: list.splits)
  qed
qed simp

lemma start_service_once_config: "documented_scm m config \<Longrightarrow> config (snd (start_service_once m name s)) = config s"
  by (auto simp: start_service_once_def Let_def scm_wait dest: scm_start split: sum.splits prod.splits)

lemma windows_start_config:
  assumes "documented_scm m config"
  shows "config (windows_start_service m name n d s) = config s"
proof -
  have "config (before_start m name d s k) = config s" for k
    by (induction k) (simp_all add: start_service_once_config [OF assms] scm_wait [OF assms])
  then show ?thesis
    by (simp add: windows_start_service_def start_service_with_retry_eq start_service_once_config [OF assms] split: list.split)
qed

text \<open>A start that reports the running state leaves the service in it.\<close>

lemma start_service_once_running:
  "start_service_once m name s = (Inr Running, s') \<Longrightarrow> query_status m name s' = Inr Running"
  by (auto simp: start_service_once_def query_service_status_def Let_def split: sum.splits prod.splits if_splits)

lemma windows_start_running:
  assumes "k < n" and "starts_at m name d s k"
  shows "query_status m name (windows_start_service m name n d s) = Inr Running"
proof -
  have "filter (starts_at m name d s) [0..<n] \<noteq> []"
    using assms by (auto simp: filter_empty_conv)
  then obtain j ks where first: "filter (starts_at m name d s) [0..<n] = j # ks"
    by (cases "filter (starts_at m name d s) [0..<n]") auto
  have "j \<in> set (filter (starts_at m name d s) [0..<n])"
    unfolding first by simp
  then have "starts_at m name d s j"
    by simp
  with first show ?thesis
    unfolding windows_start_service_def start_service_with_retry_eq
    using start_service_once_running [of m name "before_start m name d s j"] by (simp add: prod_eq_iff)
qed

text \<open>C27: Starting a service on Windows with retries: the attempts stop at the first one that finds the service running,
  which it then is; only after \<open>retry_count\<close> attempts without one does the loop give up, and a service that is running
  already is not touched.\<close>

theorem windows_start_service_spec:
  "windows_start_service m name n d s =
     (case filter (starts_at m name d s) [0..<n] of
        [] \<Rightarrow> before_start m name d s n
      | k # _ \<Rightarrow> snd (start_service_once m name (before_start m name d s k)))
   \<and> ((\<exists>k<n. starts_at m name d s k) \<longrightarrow> query_status m name (windows_start_service m name n d s) = Inr Running)
   \<and> (query_service_status m name s = Inr Running \<longrightarrow> windows_start_service m name n d s = s)"
proof (intro conjI impI)
  show "windows_start_service m name n d s =
     (case filter (starts_at m name d s) [0..<n] of
        [] \<Rightarrow> before_start m name d s n
      | k # _ \<Rightarrow> snd (start_service_once m name (before_start m name d s k)))"
    by (simp add: windows_start_service_def start_service_with_retry_eq)
  show "query_status m name (windows_start_service m name n d s) = Inr Running" if "\<exists>k<n. starts_at m name d s k"
    using that by (elim exE conjE) (rule windows_start_running)
  show "windows_start_service m name n d s = s" if "query_service_status m name s = Inr Running"
    using that by (cases n) (simp_all add: windows_start_service_def start_service_once_def)
qed

theorem windows_start_service_spec_witness:
  "query_status example_scm ''a'' (windows_start_service example_scm ''a'' 5 15
     ([''a'' \<mapsto> own_process_info ''a'' ''A'' [] ''c''], \<lambda>n. Stopped)) = Inr Running"
proof -
  have "starts_at example_scm ''a'' 15 ([''a'' \<mapsto> own_process_info ''a'' ''A'' [] ''c''], \<lambda>n. Stopped) 0"
    by (simp add: start_service_once_def query_service_status_def connect_open_def example_scm_def)
  then have "\<exists>k<5. starts_at example_scm ''a'' 15 ([''a'' \<mapsto> own_process_info ''a'' ''A'' [] ''c''], \<lambda>n. Stopped) k"
    by (intro exI [of _ 0]) simp
  then show ?thesis
    using windows_start_service_spec [of example_scm "''a''" 5 15] by blast
qed

section \<open>Stopping and deleting\<close>

text \<open>Stopping a service changes no configuration, and asks for nothing when the service is not running.\<close>

lemma scm_stop_config: "documented_scm m config \<Longrightarrow> scm_stop_service m name s = (r, s') \<Longrightarrow> config s' = config s"
  by (auto simp: scm_stop_service_def Let_def scm_wait dest: scm_stop split: sum.splits prod.splits if_splits)

lemma scm_stop_idle:
  "query_service_status m name s = Inr st \<Longrightarrow> st \<noteq> Running \<Longrightarrow> scm_stop_service m name s = (Inr st, s)"
  by (simp add: scm_stop_service_def)

text \<open>
  A service that cannot be queried is not deleted; one whose stop fails is deleted all the same, as long as its state
  can still be queried.
\<close>

lemma stop_and_delete_unknown:
  "query_service_status m name s = Inl e \<Longrightarrow> windows_stop_and_delete_service m name s = (Inl Other, s)"
  by (simp add: windows_stop_and_delete_service_def scm_stop_and_delete_service_def scm_stop_service_def as_io_def)

lemma stop_failed_still_deletes:
  assumes "query_service_status m name s = Inr Running" "connect_open m name [STOP, QUERY_STATUS] s = Inr ()"
    and "svc_stop m name s = (Inl e, s1)" "query_status m name s1 = Inr Running"
  shows "windows_stop_and_delete_service m name s = as_io (delete_service m name s1)"
  using assms by (simp add: windows_stop_and_delete_service_def scm_stop_and_delete_service_def scm_stop_service_def)

lemma stop_and_delete_others:
  assumes "documented_scm m config" and "windows_stop_and_delete_service m name s = (r, s')" and "k \<noteq> name"
  shows "config s' k = config s k"
proof -
  obtain q s1 where stop: "scm_stop_service m name s = (q, s1)"
    by (rule prod.exhaust)
  show ?thesis
    using assms(2,3) stop scm_stop_config [OF assms(1) stop] scm_delete [OF assms(1)]
    by (auto simp: windows_stop_and_delete_service_def scm_stop_and_delete_service_def delete_service_def as_io_def
        split: sum.splits prod.splits)
qed

text \<open>\<^verbatim>\<open>ensure_service_running\<close> answers yes for a service that is paused or stopping, and does nothing.\<close>

lemma ensure_service_running_paused:
  assumes "scm_connect m SC_Connect s = Inr ()" "open_service m name [QUERY_STATUS, START] s = Inr ()"
    and "query_status m name s = Inr st" "st \<noteq> Stopped"
  shows "ensure_service_running m name s = ((True, []), s)"
  using assms by (simp add: ensure_service_running_def)

section \<open>Versions\<close>

lemma and_ffff: "(w :: u32) AND 0xFFFF = take_bit 16 w"
  by (simp add: take_bit_eq_mask mask_eq_exp_minus_1)

text \<open>The version text of a file is the text of the version in its resource, and reading it back gives that version:
  the high and low halves of the two words, without the last part when it is zero; the only errors are those of the
  system.\<close>

theorem file_version_roundtrip:
  "case get_file_version res of
     Inl e \<Rightarrow> e = vr_last_error res \<and> (vr_size res = 0 \<or> \<not> vr_read res \<or> vr_fixed res = None)
   | Inr str \<Rightarrow> (\<exists>ms ls. vr_fixed res = Some (ms, ls) \<and> version_from_string str =
       Inr \<lparr>major = drop_bit 16 ms, minor = take_bit 16 ms, build = Some (drop_bit 16 ls),
            revision = (if take_bit 16 ls = 0 then None else Some (take_bit 16 ls))\<rparr>)"
proof -
  have "version_from_string (version_to_string v) = Inr v" if "build v \<noteq> None" for v
    using version_roundtrip [of v, THEN conjunct1] that by simp
  note read = this
  have printed: "get_file_version res = Inr (version_to_string \<lparr>major = drop_bit 16 ms, minor = take_bit 16 ms,
      build = Some (drop_bit 16 ls), revision = (if take_bit 16 ls = 0 then None else Some (take_bit 16 ls))\<rparr>)"
    if "vr_size res \<noteq> 0" "vr_read res" "vr_fixed res = Some (ms, ls)" for ms ls
    using that by (auto simp: get_file_version_def version_to_string_def Let_def and_ffff word_neq_0_conv)
  show ?thesis
  proof (cases "vr_size res \<noteq> 0 \<and> vr_read res \<and> vr_fixed res \<noteq> None")
    case True
    then obtain ms ls where "vr_fixed res = Some (ms, ls)" by auto
    with True printed [of ms ls] show ?thesis by (simp add: read)
  next
    case False
    then show ?thesis by (cases "vr_fixed res") (auto simp: get_file_version_def)
  qed
qed

text \<open>Only a Windows of build 22000 or later has the name of its predecessor replaced.\<close>

lemma os_name_windows_11:
  assumes "windows_get_os_version reg = Inr \<lparr>major = a, minor = b, build = Some n, revision = r\<rparr>"
    and "reg_string reg OS_VERSION_REGISTRY_KEY PRODUCT_NAME_VAL_STRING = Some ''Windows 10 Pro''"
  shows "windows_get_os_name reg = (if 22000 \<le> n then ''Windows 11 Pro'' else ''Windows 10 Pro'')"
proof -
  have "replace_str ''Windows 10 '' ''Windows 11 '' ''Windows 10 Pro'' = ''Windows 11 Pro''"
    by (simp add: replace_str.simps)
  with assms show ?thesis
    by (simp add: windows_get_os_name_def read_reg_string_def Let_def)
qed

end
