(* ===== verification/Windows_Extension.thy ===== *)
theory Windows_Extension
  imports Extension_Handler Windows_Service Windows_Path
begin

text \<open>
  The extension on Windows: \<^verbatim>\<open>proxy_agent_extension/src/windows/service_ext.rs\<close>, the Windows branches of
  \<^verbatim>\<open>handler_main.rs\<close> and \<^verbatim>\<open>report_ebpf_status\<close> of \<^verbatim>\<open>service_main.rs\<close>. The handlers act on the files of the extension and
  on the services of the machine. A slash separates the parts of a path on Windows as well, so the shared functions
  that build paths with it name the same files.
\<close>

section \<open>Constants\<close>

definition WINDOWS_EXTENSION_PROCESS_NAME :: string where "WINDOWS_EXTENSION_PROCESS_NAME = ''ProxyAgentExt.exe''"
definition EXTENSION_SERVICE_NAME :: string where "EXTENSION_SERVICE_NAME = ''GuestProxyAgentVMExtension''"
definition EXTENSION_SERVICE_DISPLAY_NAME :: string where
  "EXTENSION_SERVICE_DISPLAY_NAME = ''Microsoft Azure GuestProxyAgent VMExtension''"
definition WINDOWS_TRANSITIONING_STATUS :: string where "WINDOWS_TRANSITIONING_STATUS = ''Transitioning''"
definition WINDOWS_ERROR_STATUS :: string where "WINDOWS_ERROR_STATUS = ''Error''"
definition WINDOWS_SUCCESS_STATUS :: string where "WINDOWS_SUCCESS_STATUS = ''Success''"
definition EXIT_CODE_SERVICE_UPDATE_ERR :: int where "EXIT_CODE_SERVICE_UPDATE_ERR = 4"
definition EXIT_CODE_SERVICE_INSTALL_ERR :: int where "EXIT_CODE_SERVICE_INSTALL_ERR = 5"
definition EXIT_CODE_SERVICE_UNINSTALL_ERR :: int where "EXIT_CODE_SERVICE_UNINSTALL_ERR = 7"
definition EXIT_CODE_SERVICE_STOP_ERR :: int where "EXIT_CODE_SERVICE_STOP_ERR = 14"
definition EXIT_CODE_UPDATE_TO_VERSION_ENV_VAR_NOTFOUND :: int where
  "EXIT_CODE_UPDATE_TO_VERSION_ENV_VAR_NOTFOUND = 15"
definition MIN_SUPPORTED_OS_BUILD :: u32 where "MIN_SUPPORTED_OS_BUILD = 17763"
definition EBPF_CORE :: string where "EBPF_CORE = ''EbpfCore''"
definition EBPF_EXT :: string where "EBPF_EXT = ''NetEbpfExt''"
definition EBPF_SUBSTATUS_NAME :: string where "EBPF_SUBSTATUS_NAME = ''EbpfStatus''"

section \<open>The service of the extension\<close>

text \<open>\<^const>\<open>Some\<close>: the process exits with this code.\<close>

definition exit_on_error :: "int \<Rightarrow> unit io_result \<times> 's \<Rightarrow> int option \<times> 's" where
  "exit_on_error code r = (case r of (Inr _, w) \<Rightarrow> (None, w) | (Inl e, w) \<Rightarrow> (Some code, w))"

definition install_extension_service :: "'s scm \<Rightarrow> string \<Rightarrow> 's \<Rightarrow> int option \<times> 's" where
  "install_extension_service m exe_root_path w =
     exit_on_error EXIT_CODE_SERVICE_INSTALL_ERR
       (windows_install_service m EXTENSION_SERVICE_NAME EXTENSION_SERVICE_DISPLAY_NAME []
          (win_join exe_root_path WINDOWS_EXTENSION_PROCESS_NAME) w)"

definition uninstall_extension_service :: "'s scm \<Rightarrow> 's \<Rightarrow> int option \<times> 's" where
  "uninstall_extension_service m w =
     exit_on_error EXIT_CODE_SERVICE_UNINSTALL_ERR (windows_stop_and_delete_service m EXTENSION_SERVICE_NAME w)"

definition start_extension_service :: "'s scm \<Rightarrow> 's \<Rightarrow> 's" where
  "start_extension_service m w = windows_start_service m EXTENSION_SERVICE_NAME SERVICE_START_RETRY_COUNT 15 w"

definition stop_extension_service :: "'s scm \<Rightarrow> 's \<Rightarrow> int option \<times> 's" where
  "stop_extension_service m w = exit_on_error EXIT_CODE_SERVICE_STOP_ERR (windows_stop_service m EXTENSION_SERVICE_NAME w)"

definition update_extension_service :: "'s scm \<Rightarrow> string \<Rightarrow> 's \<Rightarrow> int option \<times> 's" where
  "update_extension_service m exe_root_path w =
     exit_on_error EXIT_CODE_SERVICE_UPDATE_ERR
       (windows_update_service m EXTENSION_SERVICE_NAME EXTENSION_SERVICE_DISPLAY_NAME []
          (win_join exe_root_path WINDOWS_EXTENSION_PROCESS_NAME) w)"

section \<open>Handlers\<close>

definition check_windows_os_version :: "version \<Rightarrow> bool" where
  "check_windows_os_version v = (case build v of Some b \<Rightarrow> MIN_SUPPORTED_OS_BUILD \<le> b | None \<Rightarrow> False)"

definition windows_check_os_version_supported :: "registry \<Rightarrow> bool" where
  "windows_check_os_version_supported reg =
     (case windows_get_os_version reg of Inr v \<Rightarrow> check_windows_os_version v | Inl e \<Rightarrow> False)"

text \<open>The directory of the executable, the clock in its two formats and the variable \<^verbatim>\<open>VERSION\<close>.\<close>

record win_handler_env =
  wh_exe_dir :: string
  wh_now :: string
  wh_now_ms :: string
  wh_version_var :: "string option"

definition windows_exe_parent :: "win_handler_env \<Rightarrow> string" where
  "windows_exe_parent env = (case win_parent (wh_exe_dir env) of Some p \<Rightarrow> p | None \<Rightarrow> [])"

definition windows_update_tag_file :: "win_handler_env \<Rightarrow> string" where
  "windows_update_tag_file env = win_join (windows_exe_parent env) UPDATE_TAG_FILE"

type_synonym 's win_handler_result = "int option \<times> ext_state \<times> 's"

definition windows_install_handler :: "'s scm \<Rightarrow> win_handler_env \<Rightarrow> ext_state \<Rightarrow> 's \<Rightarrow> 's win_handler_result" where
  "windows_install_handler m env s w =
     (case install_extension_service m (wh_exe_dir env) w of (code, w) \<Rightarrow> (code, s, w))"

definition windows_enable_handler ::
  "'s scm \<Rightarrow> win_handler_env \<Rightarrow> string \<Rightarrow> string option \<Rightarrow> ext_state \<Rightarrow> 's \<Rightarrow> 's win_handler_result" where
  "windows_enable_handler m env status_folder config_seq_no s w =
     (case update_current_seq_no config_seq_no (wh_exe_dir env) s of
        (Inl e, s) \<Rightarrow> (Some EXIT_CODE_NO_CONFIG_SEQ_NO, s, w)
      | (Inr should_report_status, s) \<Rightarrow>
          (let s = (if should_report_status
                    then report_status_enable_command (wh_now env) (wh_now_ms env) status_folder config_seq_no
                           (Some WINDOWS_TRANSITIONING_STATUS) s
                    else s);
               w = start_extension_service m w;
               s = (if hm_get (xs_files s) (windows_update_tag_file env) \<noteq> None
                    then snd (fs_remove (windows_update_tag_file env) s) else s)
           in (None, s, w)))"

definition windows_disable_handler :: "'s scm \<Rightarrow> ext_state \<Rightarrow> 's \<Rightarrow> 's win_handler_result" where
  "windows_disable_handler m s w = (case stop_extension_service m w of (code, w) \<Rightarrow> (code, s, w))"

function write_update_tag :: "win_handler_env \<Rightarrow> nat \<Rightarrow> ext_state \<Rightarrow> ext_state" where
  "write_update_tag env cnt s =
     (if SERVICE_START_RETRY_COUNT < cnt then s
      else (case fs_write (windows_update_tag_file env) (Text_File (wh_now env)) s of
              (True, s) \<Rightarrow> s
            | (False, s) \<Rightarrow> write_update_tag env (cnt + 1) s))"
  by pat_completeness auto
termination
  by (relation "measure (\<lambda>(env, cnt, s). SERVICE_START_RETRY_COUNT + 1 - cnt)") auto

declare write_update_tag.simps [simp del]

definition windows_update_handler :: "'s scm \<Rightarrow> win_handler_env \<Rightarrow> ext_state \<Rightarrow> 's \<Rightarrow> 's win_handler_result" where
  "windows_update_handler m env s w =
     (case wh_version_var env of
        None \<Rightarrow> (Some EXIT_CODE_UPDATE_TO_VERSION_ENV_VAR_NOTFOUND, s, w)
      | Some ver \<Rightarrow>
          (case update_extension_service m (win_join (windows_exe_parent env) ver) w of
             (Some code, w) \<Rightarrow> (Some code, s, w)
           | (None, w) \<Rightarrow> (None, write_update_tag env 0 s, w)))"

section \<open>The status of the eBPF drivers\<close>

definition report_ebpf_status :: "'s scm \<Rightarrow> 's \<Rightarrow> status_obj \<Rightarrow> status_obj" where
  "report_ebpf_status m w status_obj =
     (let push = (\<lambda>st code message. status_obj\<lparr>so_substatus := so_substatus status_obj @
            [\<lparr>ss_name = EBPF_SUBSTATUS_NAME, ss_status = st, ss_code = code,
              ss_formattedMessage = \<lparr>fm_lang = LANG_EN_US, fm_message = message\<rparr>\<rparr>]\<rparr>)
      in if fst (check_service_installed m EBPF_CORE w)
         then (if fst (check_service_installed m EBPF_EXT w)
               then push WINDOWS_SUCCESS_STATUS STATUS_CODE_OK ''Ebpf Drivers successfully queried.''
               else push WINDOWS_ERROR_STATUS STATUS_CODE_NOT_OK (''Ebpf Driver: '' @ EBPF_EXT @ '' unsuccessfully queried.''))
         else push WINDOWS_ERROR_STATUS STATUS_CODE_NOT_OK (''Ebpf Driver: '' @ EBPF_CORE @ '' unsuccessfully queried.''))"

section \<open>Properties\<close>

text \<open>A file is written as soon as one of the attempts does not fail.\<close>

lemma write_update_tag_ok:
  "cnt + k \<le> SERVICE_START_RETRY_COUNT \<Longrightarrow> \<not> (k < length (xs_faults s) \<and> xs_faults s ! k) \<Longrightarrow>
   hm_get (xs_files (write_update_tag env cnt s)) (windows_update_tag_file env) = Some (Text_File (wh_now env))"
proof (induction k arbitrary: cnt s)
  case 0
  then show ?case
    by (subst write_update_tag.simps) (cases "xs_faults s"; simp add: fs_write_def next_ext_fault_def)
next
  case (Suc k)
  show ?case
  proof (cases "xs_faults s")
    case Nil
    with Suc.prems show ?thesis
      by (subst write_update_tag.simps) (simp add: fs_write_def next_ext_fault_def)
  next
    case (Cons f fs)
    with Suc.IH [of "cnt + 1" "s\<lparr>xs_faults := fs\<rparr>"] Suc.prems show ?thesis
      by (subst write_update_tag.simps) (simp add: fs_write_def next_ext_fault_def split: bool.splits)
  qed
qed

lemma update_config:
  assumes "documented_scm m config" and "update_extension_service m root w = (code, w')"
  shows "config w' = (if code = None then (config w)(EXTENSION_SERVICE_NAME \<mapsto>
      own_process_info EXTENSION_SERVICE_NAME EXTENSION_SERVICE_DISPLAY_NAME []
        (win_join root WINDOWS_EXTENSION_PROCESS_NAME)) else config w)
    \<and> (code = None \<or> code = Some EXIT_CODE_SERVICE_UPDATE_ERR)"
  using assms(2) scm_change [OF assms(1)]
  by (auto simp: update_extension_service_def exit_on_error_def windows_update_service_def scm_update_service_def as_io_def
      split: sum.splits prod.splits)

text \<open>Updating the extension on Windows: without the variable \<^verbatim>\<open>VERSION\<close> the handler ends the process with its own code
  and changes nothing; when the service cannot be changed it ends it with another and leaves files and configurations
  alone; otherwise the service points to the executable in the directory of the new version, beside the present one,
  and the update tag is there as soon as one of six attempts to write it does not fail.\<close>

theorem windows_update_handler_spec:
  assumes "documented_scm m config" and "windows_update_handler m env s w = (code, s', w')"
  shows "case wh_version_var env of
      None \<Rightarrow> code = Some EXIT_CODE_UPDATE_TO_VERSION_ENV_VAR_NOTFOUND \<and> s' = s \<and> w' = w
    | Some ver \<Rightarrow>
        if code \<noteq> None then code = Some EXIT_CODE_SERVICE_UPDATE_ERR \<and> s' = s \<and> config w' = config w
        else map_option si_executable_path (config w' EXTENSION_SERVICE_NAME)
               = Some (win_join (win_join (windows_exe_parent env) ver) WINDOWS_EXTENSION_PROCESS_NAME)
             \<and> (\<forall>k. k \<noteq> EXTENSION_SERVICE_NAME \<longrightarrow> config w' k = config w k)
             \<and> ((\<exists>k\<le>SERVICE_START_RETRY_COUNT. \<not> (k < length (xs_faults s) \<and> xs_faults s ! k)) \<longrightarrow>
                  hm_get (xs_files s') (windows_update_tag_file env) = Some (Text_File (wh_now env)))"
proof (cases "wh_version_var env")
  case None
  with assms show ?thesis by (simp add: windows_update_handler_def)
next
  case (Some ver)
  obtain c w1 where run: "update_extension_service m (win_join (windows_exe_parent env) ver) w = (c, w1)"
    by (rule prod.exhaust)
  have tag: "(\<exists>k\<le>SERVICE_START_RETRY_COUNT. \<not> (k < length (xs_faults s) \<and> xs_faults s ! k)) \<longrightarrow>
      hm_get (xs_files (write_update_tag env 0 s)) (windows_update_tag_file env) = Some (Text_File (wh_now env))"
    using write_update_tag_ok [of 0] by auto
  show ?thesis
    using assms(2) Some run update_config [OF assms(1) run] tag
    by (cases c) (auto simp: windows_update_handler_def own_process_info_def)
qed

definition example_win_handler :: win_handler_env where
  "example_win_handler = \<lparr>wh_exe_dir = ''C:'' @ [CHR 0x5C] @ ''p'' @ [CHR 0x5C] @ ''1.0'', wh_now = ''now'', wh_now_ms = ''now'',
     wh_version_var = Some ''1.1''\<rparr>"

definition example_win_ext :: ext_state where
  "example_win_ext = \<lparr>xs_files = [], xs_faults = [True, False], xs_commands = []\<rparr>"

theorem windows_update_handler_spec_witness:
  "case windows_update_handler example_scm example_win_handler example_win_ext
      ([EXTENSION_SERVICE_NAME \<mapsto> own_process_info EXTENSION_SERVICE_NAME [] [] ''old''], \<lambda>n. Running) of
     (code, s', w') \<Rightarrow> code = None
       \<and> map_option si_executable_path (fst w' EXTENSION_SERVICE_NAME)
           = Some (win_join (win_join (windows_exe_parent example_win_handler) ''1.1'') WINDOWS_EXTENSION_PROCESS_NAME)
       \<and> hm_get (xs_files s') (windows_update_tag_file example_win_handler) = Some (Text_File ''now'')"
proof -
  define w where "w = ([EXTENSION_SERVICE_NAME \<mapsto> own_process_info EXTENSION_SERVICE_NAME [] [] ''old''], \<lambda>n :: string. Running)"
  obtain code s' w' where run: "windows_update_handler example_scm example_win_handler example_win_ext w = (code, s', w')"
    by (rule prod_cases3)
  have ver: "wh_version_var example_win_handler = Some ''1.1''" "wh_now example_win_handler = ''now''"
    by (simp_all add: example_win_handler_def)
  have "code = None"
    using run by (auto simp: windows_update_handler_def ver update_extension_service_def exit_on_error_def
        windows_update_service_def scm_update_service_def as_io_def connect_open_def example_scm_def w_def
        split: sum.splits prod.splits)
  moreover have "\<exists>k\<le>SERVICE_START_RETRY_COUNT. \<not> (k < length (xs_faults example_win_ext) \<and> xs_faults example_win_ext ! k)"
    by (intro exI [of _ 1]) (simp add: example_win_ext_def SERVICE_START_RETRY_COUNT_def)
  ultimately show ?thesis
    using windows_update_handler_spec [OF example_scm_documented run] run by (simp add: ver w_def)
qed

text \<open>Enabling the extension on Windows: it fails only when there is no sequence number. Otherwise it reports no error,
  whether or not the service could be started in five attempts; the service is running afterwards when one of the
  attempts finds it so, and without file errors the update tag is gone.\<close>

theorem windows_enable_handler_spec:
  "case windows_enable_handler m env folder seq s w of
     (code, s', w') \<Rightarrow>
       (seq = None \<longrightarrow> code = Some EXIT_CODE_NO_CONFIG_SEQ_NO \<and> s' = s \<and> w' = w)
       \<and> (seq \<noteq> None \<longrightarrow> code = None
           \<and> ((\<exists>k<SERVICE_START_RETRY_COUNT. starts_at m EXTENSION_SERVICE_NAME 15 w k) \<longrightarrow>
                query_status m EXTENSION_SERVICE_NAME w' = Inr Running)
           \<and> (xs_faults s = [] \<longrightarrow> hm_get (xs_files s') (windows_update_tag_file env) = None))"
proof (cases seq)
  case None
  then show ?thesis by (simp add: windows_enable_handler_def update_current_seq_no_def)
next
  case (Some n)
  obtain b s1 where upd: "update_current_seq_no seq (wh_exe_dir env) s = (b, s1)"
    by (rule prod.exhaust)
  with Some obtain should where b: "b = Inr should"
    by (auto simp: update_current_seq_no_def split: prod.splits option.splits if_splits)
  define s2 where "s2 = (if should then report_status_enable_command (wh_now env) (wh_now_ms env) folder seq
      (Some WINDOWS_TRANSITIONING_STATUS) s1 else s1)"
  have faults: "xs_faults s2 = []" if "xs_faults s = []"
    using update_current_seq_no_frame [OF upd] that by (simp add: s2_def report_no_fault)
  have "windows_enable_handler m env folder seq s w = (None,
      if hm_get (xs_files s2) (windows_update_tag_file env) \<noteq> None then snd (fs_remove (windows_update_tag_file env) s2) else s2,
      start_extension_service m w)"
    using upd b by (simp add: windows_enable_handler_def s2_def Let_def)
  moreover have "hm_get (xs_files (snd (fs_remove p s2))) p = None" if "xs_faults s2 = []" for p
    using that by (auto simp: fs_remove_def next_ext_fault_def delete_conv' split: option.splits)
  ultimately show ?thesis
    using Some faults windows_start_running [of _ SERVICE_START_RETRY_COUNT m EXTENSION_SERVICE_NAME 15 w]
    by (auto simp: start_extension_service_def simp del: before_start.simps)
qed

theorem windows_enable_handler_spec_witness:
  "case windows_enable_handler example_scm example_win_handler ''st'' (Some ''1'') (example_win_ext\<lparr>xs_faults := []\<rparr>)
      ([EXTENSION_SERVICE_NAME \<mapsto> own_process_info EXTENSION_SERVICE_NAME [] [] ''old''], \<lambda>n. Stopped) of
     (code, s', w') \<Rightarrow> code = None \<and> query_status example_scm EXTENSION_SERVICE_NAME w' = Inr Running
       \<and> hm_get (xs_files s') (windows_update_tag_file example_win_handler) = None"
proof -
  define w where "w = ([EXTENSION_SERVICE_NAME \<mapsto> own_process_info EXTENSION_SERVICE_NAME [] [] ''old''], \<lambda>n :: string. Stopped)"
  have "starts_at example_scm EXTENSION_SERVICE_NAME 15 w 0"
    by (simp add: start_service_once_def query_service_status_def connect_open_def example_scm_def w_def)
  then have "\<exists>k<SERVICE_START_RETRY_COUNT. starts_at example_scm EXTENSION_SERVICE_NAME 15 w k"
    by (intro exI [of _ 0]) (simp add: SERVICE_START_RETRY_COUNT_def)
  then show ?thesis
    using windows_enable_handler_spec [where m = example_scm and env = example_win_handler and folder = "''st''" and seq = "Some ''1''"
        and s = "example_win_ext\<lparr>xs_faults := []\<rparr>" and w = w]
    by (auto simp: w_def split: prod.splits simp del: before_start.simps)
qed

text \<open>
  The report of the drivers adds one entry to the sub-statuses and changes nothing else; it is a success exactly when
  the configurations of both drivers can be read.
\<close>

lemma report_ebpf_status_entry:
  "\<exists>e. report_ebpf_status m w st = st\<lparr>so_substatus := so_substatus st @ [e]\<rparr>
     \<and> ss_name e = EBPF_SUBSTATUS_NAME
     \<and> (ss_status e = WINDOWS_SUCCESS_STATUS \<longleftrightarrow> ss_code e = STATUS_CODE_OK)
     \<and> (ss_code e = STATUS_CODE_OK \<longleftrightarrow>
          (\<exists>p q. query_service_config m EBPF_CORE w = Inr p \<and> query_service_config m EBPF_EXT w = Inr q))"
  by (auto simp: report_ebpf_status_def check_service_installed_def WINDOWS_SUCCESS_STATUS_def WINDOWS_ERROR_STATUS_def
      STATUS_CODE_OK_def STATUS_CODE_NOT_OK_def split: sum.splits)

end
