(* ===== verification/Windows_Setup.thy ===== *)
theory Windows_Setup
  imports Agent_Setup Windows_Service Windows_Path
begin

text \<open>
  The setup tool on Windows: the Windows branches of \<^verbatim>\<open>proxy_agent_setup/src/main.rs\<close>, \<^verbatim>\<open>running.rs\<close> and \<^verbatim>\<open>setup.rs\<close>. The
  files are those of \<^verbatim>\<open>Agent_Setup\<close>, here by their Windows paths; the services are those of the service manager. The
  version an executable prints and what the eBPF setup script does to the machine are parameters.
\<close>

section \<open>Places\<close>

definition backslash :: string where "backslash = [CHR 0x5C]"

definition WINDOWS_SERVICE_NAME :: string where "WINDOWS_SERVICE_NAME = ''GuestProxyAgent''"
definition SERVICE_DISPLAY_NAME :: string where "SERVICE_DISPLAY_NAME = ''Microsoft Azure Guest Proxy Agent''"

record 's win_setup_env =
  we_exe_dir :: string
  we_version :: "string \<Rightarrow> string"
  we_ebpf_setup :: "'s \<Rightarrow> 's"

definition windows_agent_exe_path :: "string \<Rightarrow> string" where
  "windows_agent_exe_path package_dir = win_join package_dir ''GuestProxyAgent.exe''"

definition windows_folder_in_setup :: "'s win_setup_env \<Rightarrow> string" where
  "windows_folder_in_setup env = win_join (we_exe_dir env) ''ProxyAgent''"

definition windows_exe_in_setup :: "'s win_setup_env \<Rightarrow> string" where
  "windows_exe_in_setup env = windows_agent_exe_path (windows_folder_in_setup env)"

definition windows_backup_folder :: "'s win_setup_env \<Rightarrow> string" where
  "windows_backup_folder env = win_join (windows_folder_in_setup env) ''Backup''"

definition windows_backup_package_folder :: "'s win_setup_env \<Rightarrow> string" where
  "windows_backup_package_folder env = win_join (windows_backup_folder env) ''Package''"

definition ebpf_folder :: "'s win_setup_env \<Rightarrow> string" where
  "ebpf_folder env = win_join (we_exe_dir env) ''eBPF-For-Windows''"

definition ebpf_setup_script_file :: "'s win_setup_env \<Rightarrow> string" where
  "ebpf_setup_script_file env = win_join (ebpf_folder env) ''setup.ps1''"

definition windows_parent_folder :: string where
  "windows_parent_folder = ''C:'' @ backslash @ ''WindowsAzure'' @ backslash @ ''ProxyAgent''"

definition windows_running_folder :: "'s scm \<Rightarrow> 's \<Rightarrow> string" where
  "windows_running_folder m w =
     (case win_parent (query_service_executable_path m WINDOWS_SERVICE_NAME w) of
        Some p \<Rightarrow> p
      | None \<Rightarrow> windows_parent_folder @ backslash @ ''Package'')"

definition version_target_folder :: "'s win_setup_env \<Rightarrow> string \<Rightarrow> string" where
  "version_target_folder env exe = win_join windows_parent_folder (''Package_'' @ we_version env exe)"

section \<open>State and files\<close>

record 's win_setup =
  ws_files :: setup_state
  ws_scm :: 's
  ws_commands :: "string list list"

text \<open>\<^verbatim>\<open>get_files\<close>: the files directly in a folder, in order; a listing may fail.\<close>

definition files_in :: "string \<Rightarrow> setup_state \<Rightarrow> string list" where
  "files_in folder s =
     sort (filter (\<lambda>p. starts_with p (folder @ backslash) \<and> \<not> list_ex win_sep (drop (length folder + 1) p)) (map fst (sf_files s)))"

definition windows_get_files :: "string \<Rightarrow> setup_state \<Rightarrow> string list option \<times> setup_state" where
  "windows_get_files folder s =
     (case next_setup_fault s of (True, s) \<Rightarrow> (None, s) | (False, s) \<Rightarrow> (Some (files_in folder s), s))"

text \<open>\<^verbatim>\<open>copy_proxy_agent_files\<close>: errors are only logged.\<close>

definition copy_proxy_agent_files :: "string \<Rightarrow> string \<Rightarrow> setup_state \<Rightarrow> setup_state" where
  "copy_proxy_agent_files src_folder dst_folder s =
     (case windows_get_files src_folder s of
        (Some files, s) \<Rightarrow>
          copy_all (map (\<lambda>file. (file, win_join dst_folder (unwrap_or (win_file_name file) ''InvalidPath''))) files) s
      | (None, s) \<Rightarrow> s)"

definition windows_delete_folder :: "string \<Rightarrow> setup_state \<Rightarrow> setup_state" where
  "windows_delete_folder folder s =
     (case next_setup_fault s of
        (True, s) \<Rightarrow> s
      | (False, s) \<Rightarrow> s\<lparr>sf_files := filter (\<lambda>e. \<not> starts_with (fst e) (folder @ backslash)) (sf_files s)\<rparr>)"

definition folder_exists :: "string \<Rightarrow> setup_state \<Rightarrow> bool" where
  "folder_exists folder s \<longleftrightarrow> list_ex (\<lambda>e. starts_with (fst e) (folder @ backslash)) (sf_files s)"

section \<open>Actions\<close>

definition windows_copy_proxy_agent :: "'s win_setup_env \<Rightarrow> 's win_setup \<Rightarrow> string \<times> 's win_setup" where
  "windows_copy_proxy_agent env st =
     (let dst_folder = version_target_folder env (windows_exe_in_setup env)
      in (dst_folder, st\<lparr>ws_files := copy_proxy_agent_files (windows_folder_in_setup env) dst_folder (ws_files st)\<rparr>))"

definition windows_backup_proxy_agent :: "'s scm \<Rightarrow> 's win_setup_env \<Rightarrow> 's win_setup \<Rightarrow> 's win_setup" where
  "windows_backup_proxy_agent m env st =
     st\<lparr>ws_files := copy_proxy_agent_files (windows_running_folder m (ws_scm st)) (windows_backup_package_folder env) (ws_files st)\<rparr>"

definition windows_restore_proxy_agent :: "'s win_setup_env \<Rightarrow> 's win_setup \<Rightarrow> string \<times> 's win_setup" where
  "windows_restore_proxy_agent env st =
     (let src_folder = windows_backup_package_folder env;
          dst_folder = version_target_folder env (windows_agent_exe_path src_folder)
      in (dst_folder, st\<lparr>ws_files := copy_proxy_agent_files src_folder dst_folder (ws_files st)\<rparr>))"

definition setup_stop_service :: "'s scm \<Rightarrow> 's win_setup \<Rightarrow> 's win_setup" where
  "setup_stop_service m st = st\<lparr>ws_scm := snd (windows_stop_service m WINDOWS_SERVICE_NAME (ws_scm st))\<rparr>"

definition delete_running_folder :: "'s scm \<Rightarrow> string \<Rightarrow> 's win_setup \<Rightarrow> 's win_setup" where
  "delete_running_folder m target st =
     (let running = windows_running_folder m (ws_scm st)
      in if folder_exists running (ws_files st) \<and> running \<noteq> target
         then st\<lparr>ws_files := windows_delete_folder running (ws_files st)\<rparr> else st)"

definition run_ebpf_setup :: "'s win_setup_env \<Rightarrow> 's win_setup \<Rightarrow> 's win_setup" where
  "run_ebpf_setup env st =
     (let script = ebpf_setup_script_file env
      in if hm_get (sf_files (ws_files st)) script \<noteq> None
         then st\<lparr>ws_commands := ws_commands st @ [[''powershell.exe'', ''-ExecutionPolicy'', ''Bypass'', ''-File'', script]],
                 ws_scm := we_ebpf_setup env (ws_scm st)\<rparr>
         else st)"

definition windows_setup_service :: "'s scm \<Rightarrow> 's win_setup_env \<Rightarrow> string \<Rightarrow> 's win_setup \<Rightarrow> int option \<times> 's win_setup" where
  "windows_setup_service m env target st =
     (let st = run_ebpf_setup env (delete_running_folder m target st)
      in case windows_install_service m WINDOWS_SERVICE_NAME SERVICE_DISPLAY_NAME [''EbpfCore'', ''NetEbpfExt'']
                (windows_agent_exe_path target) (ws_scm st) of
           (Inl e, w) \<Rightarrow> (Some 1, st\<lparr>ws_scm := w\<rparr>)
         | (Inr _, w) \<Rightarrow> (None, st\<lparr>ws_scm := windows_start_service m WINDOWS_SERVICE_NAME 5 15 w\<rparr>))"

definition windows_uninstall_service :: "'s scm \<Rightarrow> 's win_setup \<Rightarrow> (int + string) \<times> 's win_setup" where
  "windows_uninstall_service m st =
     (let running = windows_running_folder m (ws_scm st)
      in case windows_stop_and_delete_service m WINDOWS_SERVICE_NAME (ws_scm st) of
           (Inr _, w) \<Rightarrow> (Inr running, st\<lparr>ws_scm := w\<rparr>)
         | (Inl e, w) \<Rightarrow> (Inl 1, st\<lparr>ws_scm := w\<rparr>))"

definition windows_check_backup_exists :: "'s win_setup_env \<Rightarrow> 's win_setup \<Rightarrow> bool" where
  "windows_check_backup_exists env st \<longleftrightarrow>
     hm_get (sf_files (ws_files st)) (windows_agent_exe_path (windows_backup_package_folder env)) \<noteq> None"

definition windows_delete_backup_folder :: "'s win_setup_env \<Rightarrow> 's win_setup \<Rightarrow> 's win_setup" where
  "windows_delete_backup_folder env st = st\<lparr>ws_files := windows_delete_folder (windows_backup_folder env) (ws_files st)\<rparr>"

definition windows_setup_action :: "'s scm \<Rightarrow> 's win_setup_env \<Rightarrow> args \<Rightarrow> 's win_setup \<Rightarrow> int option \<times> 's win_setup" where
  "windows_setup_action m env a st =
     (if action a = ''install''
      then (case windows_copy_proxy_agent env (setup_stop_service m st) of
              (target, st) \<Rightarrow> windows_setup_service m env target st)
      else if action a = ''uninstall''
      then (case windows_uninstall_service m st of
              (Inl code, st) \<Rightarrow> (Some code, st)
            | (Inr running, st) \<Rightarrow>
                (None, if uninstall_mode a = ''package''
                       then st\<lparr>ws_files := windows_delete_folder running (ws_files st)\<rparr> else st))
      else if action a = ''backup'' then (None, windows_backup_proxy_agent m env st)
      else if action a = ''restore''
      then (if \<not> windows_check_backup_exists env st then (None, st)
            else (case windows_restore_proxy_agent env (setup_stop_service m st) of
                    (target, st) \<Rightarrow>
                      (case windows_setup_service m env target st of
                         (Some code, st) \<Rightarrow> (Some code, st)
                       | (None, st) \<Rightarrow>
                           (None, if uninstall_mode a = ''package'' then windows_delete_backup_folder env st else st))))
      else if action a = ''purge'' then (None, windows_delete_backup_folder env st)
      else (None, st))"

definition windows_setup_main :: "'s scm \<Rightarrow> 's win_setup_env \<Rightarrow> string list \<Rightarrow> 's win_setup \<Rightarrow> int option \<times> 's win_setup" where
  "windows_setup_main m env as st =
     (case args_parse as of Inl code \<Rightarrow> (Some code, st) | Inr a \<Rightarrow> windows_setup_action m env a st)"

section \<open>Copying a folder\<close>

lemma first_sep: "x \<notin> set a \<Longrightarrow> x \<notin> set a' \<Longrightarrow> a @ x # b = a' @ x # b' \<Longrightarrow> a = a' \<and> b = b'"
proof (induction a arbitrary: a')
  case Nil
  then show ?case by (cases a') auto
next
  case (Cons y a)
  then show ?case by (cases a') auto
qed

lemma same_folder:
  assumes "CHR 0x5C \<notin> set n" "CHR 0x5C \<notin> set n'" and "d @ CHR 0x5C # n = d' @ CHR 0x5C # n'"
  shows "d = d' \<and> n = n'"
proof -
  have "rev (d @ CHR 0x5C # n) = rev (d' @ CHR 0x5C # n')"
    by (rule arg_cong [OF assms(3)])
  then have "rev n @ CHR 0x5C # rev d = rev n' @ CHR 0x5C # rev d'"
    by (simp del: rev_is_rev_conv)
  from first_sep [OF _ _ this] assms(1,2) show ?thesis
    by simp
qed

lemma win_plain_name_no_backslash: "win_plain_name n \<Longrightarrow> CHR 0x5C \<notin> set n"
  by (auto simp: win_plain_name_def win_sep_def)

text \<open>The files of a folder are the paths of that form, with the names of the files.\<close>

lemma files_in_iff:
  assumes "drive_dir d"
  shows "p \<in> set (files_in d s) \<longleftrightarrow>
    (\<exists>n. p = win_join d n \<and> (\<forall>c\<in>set n. \<not> win_sep c) \<and> hm_get (sf_files s) p \<noteq> None)"
  by (auto simp: files_in_def backslash_def win_join_dir [OF assms] prefix_def list_ex_iff map_of_eq_None_iff)

text \<open>Only plain names occur in the folder.\<close>

definition plain_files :: "string \<Rightarrow> setup_state \<Rightarrow> bool" where
  "plain_files d s \<longleftrightarrow> (\<forall>n. (\<forall>c\<in>set n. \<not> win_sep c) \<longrightarrow> hm_get (sf_files s) (win_join d n) \<noteq> None \<longrightarrow> win_plain_name n)"

lemma file_name_join: "drive_dir d \<Longrightarrow> win_plain_name n \<Longrightarrow> win_file_name (win_join d n) = Some n"
  by (erule drive_dirE) (use win_file_name_drive in \<open>auto simp: win_join_def\<close>)

lemma copy_folder_ok:
  assumes d: "drive_dir src" "drive_dir dst" "src \<noteq> dst" and s: "sf_faults s = []" "hm_inv (sf_files s)" "plain_files src s"
  shows "sf_faults (copy_proxy_agent_files src dst s) = []"
    and "win_plain_name n \<Longrightarrow> hm_get (sf_files s) (win_join src n) \<noteq> None \<Longrightarrow>
      hm_get (sf_files (copy_proxy_agent_files src dst s)) (win_join dst n) = hm_get (sf_files s) (win_join src n)"
    and "\<not> (\<exists>n. p = win_join dst n \<and> win_plain_name n) \<Longrightarrow>
      hm_get (sf_files (copy_proxy_agent_files src dst s)) p = hm_get (sf_files s) p"
proof -
  define name where "name p = unwrap_or (win_file_name p) ''InvalidPath''" for p
  define ps where "ps = map (\<lambda>p. (p, win_join dst (name p))) (files_in src s)"
  have run: "copy_proxy_agent_files src dst s = copy_all ps s"
    using s(1) by (simp add: copy_proxy_agent_files_def windows_get_files_def next_setup_fault_def ps_def name_def)
  have files: "\<exists>n. win_plain_name n \<and> p = win_join src n \<and> name p = n \<and> hm_get (sf_files s) p \<noteq> None" if "p \<in> set (files_in src s)" for p
  proof -
    from that obtain n where n: "p = win_join src n" "\<forall>c\<in>set n. \<not> win_sep c" "hm_get (sf_files s) p \<noteq> None"
      using files_in_iff [OF d(1)] by blast
    with s(3) have "win_plain_name n"
      by (auto simp: plain_files_def)
    with n file_name_join [OF d(1)] show ?thesis
      by (auto simp: name_def unwrap_or_def)
  qed
  have inj: "inj_on (\<lambda>p. win_join dst (name p)) (set (files_in src s))"
    by (rule inj_onI) (metis files d(2) win_join_dir same_folder win_plain_name_no_backslash)
  have "distinct (files_in src s)"
    using s(2) by (simp add: files_in_def hm_inv_def distinct_map)
  with inj have dist: "distinct (map snd ps)"
    by (simp add: ps_def distinct_map comp_def)
  have disj: "set (map fst ps) \<inter> set (map snd ps) = {}"
  proof -
    have "win_join src n \<noteq> win_join dst n'" if "win_plain_name n" "win_plain_name n'" for n n'
      using that d same_folder [of n n' src dst] by (auto simp: win_join_dir win_plain_name_no_backslash)
    then show ?thesis
      by (fastforce simp: ps_def dest: files)
  qed
  have present: "\<forall>a\<in>set (map fst ps). hm_get (sf_files s) a \<noteq> None"
    using files by (fastforce simp: ps_def)
  note copied = copy_all_ok [OF s(1) disj dist present]
  show "sf_faults (copy_proxy_agent_files src dst s) = []"
    using copied by (simp add: run)
  show "hm_get (sf_files (copy_proxy_agent_files src dst s)) (win_join dst n) = hm_get (sf_files s) (win_join src n)"
    if "win_plain_name n" "hm_get (sf_files s) (win_join src n) \<noteq> None"
  proof -
    have "win_join src n \<in> set (files_in src s)"
      using that files_in_iff [OF d(1)] by (auto simp: win_plain_name_def)
    then have "(win_join src n, win_join dst n) \<in> set ps"
      using file_name_join [OF d(1) that(1)] by (auto simp: ps_def name_def unwrap_or_def)
    moreover have "\<forall>(a, b)\<in>set ps. hm_get (sf_files (copy_all ps s)) b = hm_get (sf_files s) a"
      using copied by (auto simp: files_at_def)
    ultimately show ?thesis
      by (auto simp: run)
  qed
  show "hm_get (sf_files (copy_proxy_agent_files src dst s)) p = hm_get (sf_files s) p" if "\<not> (\<exists>n. p = win_join dst n \<and> win_plain_name n)"
  proof -
    have "p \<notin> set (map snd ps)"
      using that files by (fastforce simp: ps_def)
    with copied show ?thesis by (simp add: run)
  qed
qed

section \<open>Installing\<close>

lemma get_filter_key: "map_of (filter (\<lambda>e. P (fst e)) xs) k = (if P k then map_of xs k else None)"
  by (induction xs) auto

lemma delete_running_get:
  assumes "sf_faults (ws_files st) = []"
    and "windows_running_folder m (ws_scm st) \<noteq> target \<Longrightarrow> \<not> starts_with p (windows_running_folder m (ws_scm st) @ backslash)"
  shows "hm_get (sf_files (ws_files (delete_running_folder m target st))) p = hm_get (sf_files (ws_files st)) p"
  using assms
  by (simp add: delete_running_folder_def windows_delete_folder_def next_setup_fault_def Let_def
      get_filter_key [where P = "\<lambda>x. \<not> starts_with x (windows_running_folder m (ws_scm st) @ backslash)"])

lemma setup_service_frame:
  assumes "documented_scm m config" and "windows_setup_service m env target st = (None, st')"
  shows "config (ws_scm st') WINDOWS_SERVICE_NAME = Some (own_process_info WINDOWS_SERVICE_NAME SERVICE_DISPLAY_NAME
      [''EbpfCore'', ''NetEbpfExt''] (windows_agent_exe_path target))"
    and "ws_files st' = ws_files (delete_running_folder m target st)"
proof -
  let ?st = "run_ebpf_setup env (delete_running_folder m target st)"
  obtain r w where run: "windows_install_service m WINDOWS_SERVICE_NAME SERVICE_DISPLAY_NAME [''EbpfCore'', ''NetEbpfExt'']
      (windows_agent_exe_path target) (ws_scm ?st) = (r, w)"
    by (rule prod.exhaust)
  with assms(2) have r: "r = Inr ()" and st': "st' = ?st\<lparr>ws_scm := windows_start_service m WINDOWS_SERVICE_NAME 5 15 w\<rparr>"
    by (auto simp: windows_setup_service_def Let_def split: sum.splits)
  show "config (ws_scm st') WINDOWS_SERVICE_NAME = Some (own_process_info WINDOWS_SERVICE_NAME SERVICE_DISPLAY_NAME
      [''EbpfCore'', ''NetEbpfExt''] (windows_agent_exe_path target))"
    using windows_install_config [OF assms(1) run] r by (simp add: st' windows_start_config [OF assms(1)])
  show "ws_files st' = ws_files (delete_running_folder m target st)"
    by (simp add: st' run_ebpf_setup_def Let_def)
qed

lemma not_inside:
  assumes "\<not> starts_with (d @ backslash) (r @ backslash)" and "CHR 0x5C \<notin> set n"
  shows "\<not> starts_with (d @ CHR 0x5C # n) (r @ backslash)"
proof
  assume "starts_with (d @ CHR 0x5C # n) (r @ backslash)"
  then have "prefix (r @ backslash) ((d @ backslash) @ n)"
    by (simp add: backslash_def)
  then obtain x where "r @ backslash = (d @ backslash) @ x" "prefix x n"
    using assms(1) by (auto simp: prefix_append)
  moreover from this have "x \<noteq> [] \<Longrightarrow> last x = CHR 0x5C"
    by (metis backslash_def last_appendR last_snoc)
  ultimately show False
    using assms last_in_set [of x] by (cases "x = []") (auto dest: set_mono_prefix)
qed

lemma setup_dirs:
  assumes "drive_dir (we_exe_dir env)"
  shows "drive_dir (windows_folder_in_setup env)"
  using assms by (auto simp: windows_folder_in_setup_def win_join_dir drive_dir_def win_sep_def split: list.splits)

lemma target_dir:
  assumes "win_plain_name (''Package_'' @ we_version env exe)"
  shows "drive_dir (version_target_folder env exe)"
proof -
  have "drive_dir windows_parent_folder"
    by (simp add: drive_dir_def windows_parent_folder_def drive_letter_def backslash_def win_sep_def)
  then have eq: "version_target_folder env exe = windows_parent_folder @ CHR 0x5C # ''Package_'' @ we_version env exe"
    by (simp add: version_target_folder_def win_join_dir)
  have "\<not> win_sep (last (''Package_'' @ we_version env exe))"
    using assms last_in_set [of "''Package_'' @ we_version env exe"] by (auto simp: win_plain_name_def)
  then show ?thesis
    unfolding eq by (simp add: drive_dir_def windows_parent_folder_def drive_letter_def backslash_def split: if_splits)
qed

text \<open>C26: Installing the agent on Windows: when the setup tool reports success and no file operation has failed, the service
  is configured to start the executable in the folder of the new version, and every file of the package is in that
  folder with its content, although the folder of the version that was running has been deleted meanwhile; provided
  that the new folder is not inside the old one.\<close>

theorem windows_install_action_spec:
  assumes "documented_scm m config" and "windows_setup_action m env a st = (None, st')" and "action a = ''install''"
    and "src = windows_folder_in_setup env" and "target = version_target_folder env (windows_exe_in_setup env)"
    and "drive_dir (we_exe_dir env)" and "win_plain_name (''Package_'' @ we_version env (windows_exe_in_setup env))" and "src \<noteq> target"
    and "sf_faults (ws_files st) = []" and "hm_inv (sf_files (ws_files st))" and "plain_files src (ws_files st)"
    and "windows_running_folder m (ws_scm (setup_stop_service m st)) = target
      \<or> \<not> starts_with (target @ backslash) (windows_running_folder m (ws_scm (setup_stop_service m st)) @ backslash)"
  shows "config (ws_scm st') WINDOWS_SERVICE_NAME = Some (own_process_info WINDOWS_SERVICE_NAME SERVICE_DISPLAY_NAME
      [''EbpfCore'', ''NetEbpfExt''] (windows_agent_exe_path target))
    \<and> (\<forall>n. win_plain_name n \<and> hm_get (sf_files (ws_files st)) (win_join src n) \<noteq> None \<longrightarrow>
      hm_get (sf_files (ws_files st')) (win_join target n) = hm_get (sf_files (ws_files st)) (win_join src n))"
proof -
  define st1 where "st1 = setup_stop_service m st"
  define st2 where "st2 = st1\<lparr>ws_files := copy_proxy_agent_files src target (ws_files st1)\<rparr>"
  have run: "windows_setup_service m env target st2 = (None, st')"
    using assms(2-5) by (simp add: windows_setup_action_def windows_copy_proxy_agent_def st2_def st1_def Let_def)
  have dirs: "drive_dir src" "drive_dir target"
    using setup_dirs [OF assms(6)] target_dir [OF assms(7)] assms(4,5) by simp_all
  have files: "ws_files st1 = ws_files st"
    by (simp add: st1_def setup_stop_service_def)
  note copied = copy_folder_ok [OF dirs assms(8-11)]
  have "hm_get (sf_files (ws_files st')) (win_join target n) = hm_get (sf_files (ws_files st)) (win_join src n)"
    if n: "win_plain_name n" "hm_get (sf_files (ws_files st)) (win_join src n) \<noteq> None" for n
  proof -
    have "hm_get (sf_files (ws_files (delete_running_folder m target st2))) (win_join target n)
        = hm_get (sf_files (ws_files st2)) (win_join target n)"
    proof (rule delete_running_get)
      show "sf_faults (ws_files st2) = []"
        using copied(1) by (simp add: st2_def files)
      show "\<not> starts_with (win_join target n) (windows_running_folder m (ws_scm st2) @ backslash)"
        if "windows_running_folder m (ws_scm st2) \<noteq> target"
        using that assms(12) not_inside [OF _ win_plain_name_no_backslash [OF n(1)]]
        by (simp add: st2_def st1_def win_join_dir [OF dirs(2)])
    qed
    then show ?thesis
      using copied(2) [OF n] setup_service_frame(2) [OF assms(1) run] by (simp add: st2_def files)
  qed
  with setup_service_frame(1) [OF assms(1) run] show ?thesis
    by blast
qed

definition example_win_setup_env :: "example_machine win_setup_env" where
  "example_win_setup_env = \<lparr>we_exe_dir = ''C:'' @ backslash @ ''x'', we_version = (\<lambda>exe. ''2''), we_ebpf_setup = (\<lambda>w. w)\<rparr>"

definition example_win_setup :: "example_machine win_setup" where
  "example_win_setup = \<lparr>ws_files = \<lparr>sf_files = [(''C:'' @ backslash @ ''x'' @ backslash @ ''ProxyAgent'' @ backslash @ ''GuestProxyAgent.exe'', ''new'')],
     sf_faults = [], sf_systemctl = []\<rparr>, ws_scm = (Map.empty, \<lambda>n. Stopped), ws_commands = []\<rparr>"

theorem windows_install_action_spec_witness:
  "case windows_setup_action example_scm example_win_setup_env \<lparr>action = ''install'', uninstall_mode = ''package''\<rparr> example_win_setup of
     (code, st') \<Rightarrow> code = None
       \<and> map_option si_executable_path (fst (ws_scm st') WINDOWS_SERVICE_NAME)
         = Some (windows_agent_exe_path (version_target_folder example_win_setup_env (windows_exe_in_setup example_win_setup_env)))
       \<and> hm_get (sf_files (ws_files st')) (win_join (version_target_folder example_win_setup_env
           (windows_exe_in_setup example_win_setup_env)) ''GuestProxyAgent.exe'') = Some ''new''"
proof -
  let ?a = "\<lparr>action = ''install'', uninstall_mode = ''package''\<rparr>"
  obtain code st' where run: "windows_setup_action example_scm example_win_setup_env ?a example_win_setup = (code, st')"
    by (rule prod.exhaust)
  have code: "code = None"
    using run by (auto simp: windows_setup_action_def windows_copy_proxy_agent_def windows_setup_service_def Let_def
        windows_install_service_def scm_install_or_update_service_def scm_update_service_def create_service_def
        query_service_status_def connect_open_def as_io_def example_scm_def split: sum.splits prod.splits option.splits)
  have src: "windows_folder_in_setup example_win_setup_env = ''C:'' @ backslash @ ''x'' @ backslash @ ''ProxyAgent''"
    by (simp add: windows_folder_in_setup_def example_win_setup_env_def win_join_def backslash_def win_sep_def)
  have exe: "win_plain_name ''GuestProxyAgent.exe''"
    by code_simp
  have target: "version_target_folder example_win_setup_env (windows_exe_in_setup example_win_setup_env)
      = windows_parent_folder @ backslash @ ''Package_2''"
    by (simp add: version_target_folder_def example_win_setup_env_def win_join_def windows_parent_folder_def backslash_def win_sep_def)
  have running: "windows_running_folder example_scm (ws_scm (setup_stop_service example_scm example_win_setup))
      = windows_parent_folder @ backslash @ ''Package''"
    by (simp add: windows_running_folder_def query_service_executable_path_def query_service_config_def connect_open_def
        setup_stop_service_def windows_stop_service_def scm_stop_service_def query_service_status_def as_io_def
        example_win_setup_def example_scm_def win_parent_def drop_trailing_seps_def)
  have "action ?a = ''install''" "drive_dir (we_exe_dir example_win_setup_env)"
    by (simp_all add: example_win_setup_env_def drive_dir_def drive_letter_def backslash_def win_sep_def)
  moreover have "win_plain_name (''Package_'' @ we_version example_win_setup_env (windows_exe_in_setup example_win_setup_env))"
    by code_simp
  moreover have "windows_folder_in_setup example_win_setup_env
      \<noteq> version_target_folder example_win_setup_env (windows_exe_in_setup example_win_setup_env)"
    unfolding src target by (simp add: windows_parent_folder_def backslash_def)
  moreover have "sf_faults (ws_files example_win_setup) = []" "hm_inv (sf_files (ws_files example_win_setup))"
    by (simp_all add: example_win_setup_def hm_inv_def)
  moreover have "plain_files (windows_folder_in_setup example_win_setup_env) (ws_files example_win_setup)"
    using exe by (auto simp: plain_files_def src example_win_setup_def win_join_def backslash_def win_sep_def)
  moreover have "windows_running_folder example_scm (ws_scm (setup_stop_service example_scm example_win_setup))
        = version_target_folder example_win_setup_env (windows_exe_in_setup example_win_setup_env)
      \<or> \<not> starts_with (version_target_folder example_win_setup_env (windows_exe_in_setup example_win_setup_env) @ backslash)
          (windows_running_folder example_scm (ws_scm (setup_stop_service example_scm example_win_setup)) @ backslash)"
    unfolding running target by (simp add: backslash_def)
  ultimately have
    "fst (ws_scm st') WINDOWS_SERVICE_NAME = Some (own_process_info WINDOWS_SERVICE_NAME SERVICE_DISPLAY_NAME
      [''EbpfCore'', ''NetEbpfExt''] (windows_agent_exe_path
        (version_target_folder example_win_setup_env (windows_exe_in_setup example_win_setup_env))))"
    "hm_get (sf_files (ws_files example_win_setup)) (win_join (windows_folder_in_setup example_win_setup_env) ''GuestProxyAgent.exe'') \<noteq> None \<longrightarrow>
     hm_get (sf_files (ws_files st')) (win_join (version_target_folder example_win_setup_env
        (windows_exe_in_setup example_win_setup_env)) ''GuestProxyAgent.exe'')
      = hm_get (sf_files (ws_files example_win_setup)) (win_join (windows_folder_in_setup example_win_setup_env) ''GuestProxyAgent.exe'')"
    using windows_install_action_spec [OF example_scm_documented run [unfolded code] _ refl refl] exe by blast+
  moreover have "hm_get (sf_files (ws_files example_win_setup)) (win_join (windows_folder_in_setup example_win_setup_env)
      ''GuestProxyAgent.exe'') = Some ''new''"
    unfolding src by (simp add: example_win_setup_def win_join_def backslash_def win_sep_def)
  ultimately show ?thesis
    by (simp add: run code own_process_info_def)
qed

end
