(* ===== verification/Service_Host.thy ===== *)
theory Service_Host
  imports Rolling_Logger Event_Logger Extension_Handler Windows_Service
begin

text \<open>
  How the agent and the extension run as services: \<^verbatim>\<open>proxy_agent_extension/src/logger.rs\<close>, \<^verbatim>\<open>linux.rs\<close>, the start of
  the service process in \<^verbatim>\<open>main.rs\<close>, \<^verbatim>\<open>enable_agent\<close> of \<^verbatim>\<open>service_main.rs\<close>, and the Windows service hosts
  \<^verbatim>\<open>proxy_agent/src/service/windows.rs\<close> and \<^verbatim>\<open>service_main/windows_main.rs\<close>.
\<close>

section \<open>The service process of the extension\<close>

text \<open>The key of the logger, the loggers, the event logger and the threads that have been started.\<close>

datatype ext_thread = Monitor_Thread | Heartbeat_Thread | Event_Logger_Thread string nat nat string

record ext_process =
  ep_logger_key :: "string option"
  ep_logs :: logger_manager
  ep_events :: logger_state
  ep_threads :: "ext_thread list"

definition SERVICE_LOG_FILE :: string where "SERVICE_LOG_FILE = ''ProxyAgentExtensionService.log''"

definition ext_get_logger_key :: "ext_process \<Rightarrow> string" where
  "ext_get_logger_key s = (case ep_logger_key s of Some logger_key \<Rightarrow> logger_key | None \<Rightarrow> [])"

text \<open>\<^const>\<open>None\<close> is a panic.\<close>

definition ext_force_init_logger :: "string \<Rightarrow> string \<Rightarrow> bool \<Rightarrow> ext_process \<Rightarrow> ext_process option" where
  "ext_force_init_logger log_folder log_name force s =
     (case init_logger log_name log_folder log_name (20 * 1024 * 1024) 30 (ep_logs s) of
        None \<Rightarrow> None
      | Some logs \<Rightarrow>
          (let s = s\<lparr>ep_logs := logs\<rparr>
           in Some (if ep_logger_key s \<noteq> None \<and> \<not> force then s else s\<lparr>ep_logger_key := Some log_name\<rparr>)))"

definition ext_init_logger :: "string \<Rightarrow> string \<Rightarrow> ext_process \<Rightarrow> ext_process option" where
  "ext_init_logger log_folder log_name s = ext_force_init_logger log_folder log_name False s"

text \<open>The header of a line: the thread, the clock, and the time for a new file name.\<close>

record log_context =
  lc_thread :: string
  lc_now :: string
  lc_time :: string

definition ext_log :: "log_context \<Rightarrow> string \<Rightarrow> ext_process \<Rightarrow> ext_process option" where
  "ext_log c message s =
     map_option (\<lambda>logs. s\<lparr>ep_logs := logs\<rparr>)
       (manager_write VERB (lc_thread c) (lc_now c) (lc_time c) (ext_get_logger_key s) message (ep_logs s))"

definition start_event_logger :: "log_context \<Rightarrow> handler_environment \<Rightarrow> string \<Rightarrow> ext_process \<Rightarrow> ext_process option" where
  "start_event_logger c h logger_key s =
     map_option (\<lambda>s. s\<lparr>ep_threads := ep_threads s @ [Event_Logger_Thread (eventsFolder h) 60 50 logger_key]\<rparr>)
       (ext_log c ''starting event logger'' s)"

definition stop_event_logger :: "log_context \<Rightarrow> ext_process \<Rightarrow> ext_process option" where
  "stop_event_logger c s =
     map_option (\<lambda>s. s\<lparr>ep_events := logger_stop (ep_events s)\<rparr>) (ext_log c ''stopping event logger'' s)"

text \<open>\<^verbatim>\<open>enable_agent\<close>: one event, then the two threads. The event panics when its message is too long and is cut inside a
  character.\<close>

record enable_env =
  en_version :: string
  en_arch :: string
  en_os_version :: string
  en_event :: event_env

definition enabling_message :: "enable_env \<Rightarrow> string" where
  "enabling_message env = ''GuestProxyAgentExtension Enabling Agent, Version: '' @ en_version env @ '', OS Arch: ''
     @ en_arch env @ '', OS Version: '' @ en_os_version env"

definition enable_agent :: "enable_env \<Rightarrow> ext_process \<Rightarrow> ext_process option" where
  "enable_agent env s =
     (case write_event (en_event env) INFO_LEVEL (enabling_message env) ''enable_agent'' ''service_main'' (ep_events s) of
        (False, _) \<Rightarrow> None
      | (True, events) \<Rightarrow> Some (s\<lparr>ep_events := events, ep_threads := ep_threads s @ [Monitor_Thread, Heartbeat_Thread]\<rparr>))"

text \<open>
  \<^verbatim>\<open>main\<close> without arguments up to the start of the service: on Linux \<^verbatim>\<open>start_service_wait\<close> enables the agent and then
  sleeps for ever; on Windows the dispatcher runs the service host below. \<^const>\<open>Inl\<close> is the exit code when the handler
  environment cannot be read.
\<close>

definition service_process_start ::
  "log_context \<Rightarrow> string \<Rightarrow> ext_state \<Rightarrow> ext_process \<Rightarrow> (int + ext_process) option" where
  "service_process_start c exe_path files s =
     (case fst (get_handler_environment exe_path files) of
        Inl code \<Rightarrow> Some (Inl code)
      | Inr h \<Rightarrow>
          (case ext_init_logger (logFolder h) SERVICE_LOG_FILE s of
             None \<Rightarrow> None
           | Some s \<Rightarrow> map_option Inr (start_event_logger c h SERVICE_LOG_FILE s)))"

definition linux_service_start ::
  "log_context \<Rightarrow> enable_env \<Rightarrow> string \<Rightarrow> ext_state \<Rightarrow> ext_process \<Rightarrow> (int + ext_process) option" where
  "linux_service_start c env exe_path files s =
     (case service_process_start c exe_path files s of
        Some (Inr s) \<Rightarrow> map_option Inr (enable_agent env s)
      | r \<Rightarrow> r)"

section \<open>The Windows service host\<close>

text \<open>
  \<^verbatim>\<open>run_service\<close> of the agent and of the extension differ only in what they start and stop (\<open>start\<close>, \<open>stop\<close>; \<^const>\<open>None\<close> is
  a panic). It starts the work, registers the handler of control events, reports that the service is running and then
  stores the status handle; from the registration on, the service manager may call the handler at any point. The state
  holds how far \<^verbatim>\<open>run_service\<close> has come, \<^verbatim>\<open>SERVICE_STATUS_HANDLE\<close>, the states that were reported, the results of the
  control events, and whether the process has exited.
\<close>

datatype control_event = StopControl | InterrogateControl | OtherControl
datatype control_result = NoError | NotImplemented

datatype host_phase = Not_Started | Work_Started | Handler_Registered | Running_Reported | Host_Done | Register_Failed | Report_Failed

record 'a service_host =
  sh_phase :: host_phase
  sh_handle :: bool
  sh_reported :: "service_state list"
  sh_results :: "control_result list"
  sh_exited :: bool
  sh_work :: 'a

text \<open>The handler; \<open>ok\<close> says whether the report of the state succeeds, which the handler does not look at.\<close>

definition event_handler :: "('a \<Rightarrow> 'a option) \<Rightarrow> control_event \<Rightarrow> bool \<Rightarrow> 'a service_host \<Rightarrow> 'a service_host option" where
  "event_handler stop control_event ok h =
     (case control_event of
        StopControl \<Rightarrow>
          map_option (\<lambda>work.
            (let h = h\<lparr>sh_work := work\<rparr>
             in if sh_handle h
                then h\<lparr>sh_reported := sh_reported h @ (if ok then [Stopped] else []), sh_results := sh_results h @ [NoError]\<rparr>
                else h\<lparr>sh_exited := True\<rparr>)) (stop (sh_work h))
      | InterrogateControl \<Rightarrow> Some (h\<lparr>sh_results := sh_results h @ [NoError]\<rparr>)
      | OtherControl \<Rightarrow> Some (h\<lparr>sh_results := sh_results h @ [NotImplemented]\<rparr>))"

text \<open>The steps of \<^verbatim>\<open>run_service\<close> and the control events, as they may interleave.\<close>

datatype host_action = Begin | Register bool | Report_Running bool | Store_Handle | Control control_event bool

definition handler_installed :: "host_phase \<Rightarrow> bool" where
  "handler_installed p \<longleftrightarrow> p \<in> {Handler_Registered, Running_Reported, Host_Done, Report_Failed}"

fun run_service_step ::
  "('a \<Rightarrow> 'a option) \<Rightarrow> ('a \<Rightarrow> 'a option) \<Rightarrow> host_action \<Rightarrow> 'a service_host \<Rightarrow> 'a service_host option" where
  "run_service_step start stop Begin h =
     (if sh_phase h = Not_Started
      then map_option (\<lambda>work. h\<lparr>sh_work := work, sh_phase := Work_Started\<rparr>) (start (sh_work h)) else None)"
| "run_service_step start stop (Register ok) h =
     (if sh_phase h = Work_Started
      then Some (h\<lparr>sh_phase := (if ok then Handler_Registered else Register_Failed)\<rparr>) else None)"
| "run_service_step start stop (Report_Running ok) h =
     (if sh_phase h = Handler_Registered
      then Some (if ok then h\<lparr>sh_phase := Running_Reported, sh_reported := sh_reported h @ [Running]\<rparr>
                 else h\<lparr>sh_phase := Report_Failed\<rparr>) else None)"
| "run_service_step start stop Store_Handle h =
     (if sh_phase h = Running_Reported then Some (h\<lparr>sh_phase := Host_Done, sh_handle := True\<rparr>) else None)"
| "run_service_step start stop (Control e ok) h =
     (if handler_installed (sh_phase h) then event_handler stop e ok h else None)"

definition host_init :: "'a \<Rightarrow> 'a service_host" where
  "host_init work = \<lparr>sh_phase = Not_Started, sh_handle = False, sh_reported = [], sh_results = [], sh_exited = False, sh_work = work\<rparr>"

text \<open>The reachable states: no step follows the exit of the process.\<close>

inductive host_reach ::
  "('a \<Rightarrow> 'a option) \<Rightarrow> ('a \<Rightarrow> 'a option) \<Rightarrow> 'a \<Rightarrow> host_action list \<Rightarrow> 'a service_host \<Rightarrow> bool"
  for start stop work where
  host_begin: "host_reach start stop work [] (host_init work)"
| host_next: "host_reach start stop work as h \<Longrightarrow> \<not> sh_exited h \<Longrightarrow> run_service_step start stop a h = Some h' \<Longrightarrow>
    host_reach start stop work (as @ [a]) h'"

inductive_cases host_reach_snocE: "host_reach start stop work (as @ [a]) h"

section \<open>What the host guarantees\<close>

text \<open>The work after a start and some stops.\<close>

fun stopped_times :: "('a \<Rightarrow> 'a option) \<Rightarrow> nat \<Rightarrow> 'a \<Rightarrow> 'a option" where
  "stopped_times stop 0 w = Some w"
| "stopped_times stop (Suc n) w = Option.bind (stopped_times stop n w) stop"

definition stop_controls :: "host_action list \<Rightarrow> nat" where
  "stop_controls as = length (filter (\<lambda>a. case a of Control StopControl ok \<Rightarrow> True | _ \<Rightarrow> False) as)"

definition host_inv :: "('a \<Rightarrow> 'a option) \<Rightarrow> ('a \<Rightarrow> 'a option) \<Rightarrow> 'a \<Rightarrow> host_action list \<Rightarrow> 'a service_host \<Rightarrow> bool" where
  "host_inv start stop work as h \<longleftrightarrow>
     (sh_handle h \<longleftrightarrow> sh_phase h = Host_Done)
     \<and> (\<exists>n. sh_reported h = (if sh_phase h \<in> {Running_Reported, Host_Done} then [Running] else []) @ replicate n Stopped
          \<and> (n = 0 \<or> sh_phase h = Host_Done))
     \<and> (sh_exited h \<longrightarrow> sh_phase h \<in> {Handler_Registered, Running_Reported, Report_Failed} \<and> 0 < stop_controls as)
     \<and> (if sh_phase h = Not_Started then sh_work h = work \<and> stop_controls as = 0
        else Option.bind (start work) (stopped_times stop (stop_controls as)) = Some (sh_work h))"

lemma stop_controls_snoc [simp]:
  "stop_controls [] = 0"
  "stop_controls (as @ [Control StopControl ok]) = Suc (stop_controls as)"
  "stop_controls (as @ [Control InterrogateControl ok]) = stop_controls as"
  "stop_controls (as @ [Control OtherControl ok]) = stop_controls as"
  "stop_controls (as @ [Begin]) = stop_controls as"
  "stop_controls (as @ [Register ok]) = stop_controls as"
  "stop_controls (as @ [Report_Running ok]) = stop_controls as"
  "stop_controls (as @ [Store_Handle]) = stop_controls as"
  by (simp_all add: stop_controls_def)

lemma host_inv_init: "host_inv start stop work [] (host_init work)"
  by (simp add: host_inv_def host_init_def)

lemma host_inv_step:
  assumes "host_inv start stop work as h" and "\<not> sh_exited h" and "run_service_step start stop a h = Some h'"
  shows "host_inv start stop work (as @ [a]) h'"
proof -
  from assms(1) obtain n where inv: "sh_handle h \<longleftrightarrow> sh_phase h = Host_Done"
    and rep: "sh_reported h = (if sh_phase h \<in> {Running_Reported, Host_Done} then [Running] else []) @ replicate n Stopped"
      "n = 0 \<or> sh_phase h = Host_Done"
    and work: "if sh_phase h = Not_Started then sh_work h = work \<and> stop_controls as = 0
        else Option.bind (start work) (stopped_times stop (stop_controls as)) = Some (sh_work h)"
    unfolding host_inv_def by blast
  show ?thesis
  proof (cases a)
    case Begin
    with assms(2,3) inv rep work show ?thesis
      by (auto simp: host_inv_def split: if_splits intro!: exI [of _ n])
  next
    case (Register ok)
    with assms(2,3) inv rep work show ?thesis
      by (auto simp: host_inv_def split: if_splits)
  next
    case (Report_Running ok)
    with assms(2,3) inv rep work show ?thesis
      by (auto simp: host_inv_def split: if_splits)
  next
    case Store_Handle
    with assms(2,3) inv rep work show ?thesis
      by (auto simp: host_inv_def split: if_splits)
  next
    case (Control e ok)
    with assms(3) have handler: "handler_installed (sh_phase h)" and run: "event_handler stop e ok h = Some h'"
      by (auto split: if_splits)
    show ?thesis
    proof (cases e)
      case StopControl
      with run obtain w where w: "stop (sh_work h) = Some w"
        and h': "h' = (if sh_handle h then h\<lparr>sh_work := w, sh_reported := sh_reported h @ (if ok then [Stopped] else []),
            sh_results := sh_results h @ [NoError]\<rparr> else h\<lparr>sh_work := w, sh_exited := True\<rparr>)"
        by (auto simp: event_handler_def Let_def)
      have started: "sh_phase h \<noteq> Not_Started"
        using handler by (auto simp: handler_installed_def)
      with work w have work': "Option.bind (start work) (stopped_times stop (Suc (stop_controls as))) = Some w"
        by (auto simp: bind_eq_Some_conv)
      show ?thesis
      proof (cases "sh_handle h")
        case True
        with inv rep have "\<exists>n. sh_reported h' = [Running] @ replicate n Stopped"
          by (auto simp: h' replicate_append_same [symmetric] intro: exI [of _ n] exI [of _ "Suc n"])
        with True h' inv work' started assms(2) Control StopControl show ?thesis
          by (auto simp: host_inv_def)
      next
        case False
        with h' inv rep work' started handler assms(2) Control StopControl show ?thesis
          by (auto simp: host_inv_def handler_installed_def)
      qed
    next
      case InterrogateControl
      with run assms(1,2) Control show ?thesis
        by (auto simp: event_handler_def host_inv_def)
    next
      case OtherControl
      with run assms(1,2) Control show ?thesis
        by (auto simp: event_handler_def host_inv_def)
    qed
  qed
qed

lemma host_reach_inv: "host_reach start stop work as h \<Longrightarrow> host_inv start stop work as h"
  by (induction rule: host_reach.induct) (auto intro: host_inv_init host_inv_step)



section \<open>The extension as a Windows service\<close>

definition extension_host_reach :: "enable_env \<Rightarrow> log_context \<Rightarrow> ext_process \<Rightarrow> host_action list \<Rightarrow> ext_process service_host \<Rightarrow> bool" where
  "extension_host_reach env c s = host_reach (enable_agent env) (stop_event_logger c) s"

lemma ext_log_keeps: "ext_log c m s = Some s' \<Longrightarrow> ep_events s' = ep_events s \<and> ep_threads s' = ep_threads s"
  by (auto simp: ext_log_def)

lemma stopped_times_extension:
  "stopped_times (stop_event_logger c) n s = Some s' \<Longrightarrow>
   ep_threads s' = ep_threads s \<and> ep_events s' = (if n = 0 then ep_events s else logger_stop (ep_events s))"
proof (induction n arbitrary: s')
  case (Suc n)
  then obtain s1 where s1: "stopped_times (stop_event_logger c) n s = Some s1" and last: "stop_event_logger c s1 = Some s'"
    by (auto simp: bind_eq_Some_conv)
  from last obtain s2 where s2: "ext_log c ''stopping event logger'' s1 = Some s2"
    "s' = s2\<lparr>ep_events := logger_stop (ep_events s2)\<rparr>"
    by (auto simp: stop_event_logger_def)
  from Suc.IH [OF s1] ext_log_keeps [OF s2(1)] s2(2) show ?case
    by (auto simp: logger_stop_def)
qed simp

text \<open>The extension as a Windows service: in every state the host can reach after its start, the monitor and the
  heartbeat thread have been started exactly once, and the event logger has been told to shut down exactly when a stop
  request has come.\<close>

theorem extension_host_spec:
  assumes "extension_host_reach env c s as h" and "sh_phase h \<noteq> Not_Started" and "\<not> SHUT_DOWN (ep_events s)"
  shows "ep_threads (sh_work h) = ep_threads s @ [Monitor_Thread, Heartbeat_Thread]"
    and "SHUT_DOWN (ep_events (sh_work h)) \<longleftrightarrow> 0 < stop_controls as"
proof -
  from assms(1,2) host_reach_inv [of "enable_agent env" "stop_event_logger c" s as h]
  obtain s1 where start: "enable_agent env s = Some s1" and stops: "stopped_times (stop_event_logger c) (stop_controls as) s1 = Some (sh_work h)"
    by (auto simp: extension_host_reach_def host_inv_def bind_eq_Some_conv)
  have "ep_threads s1 = ep_threads s @ [Monitor_Thread, Heartbeat_Thread]" "\<not> SHUT_DOWN (ep_events s1)"
    using start assms(3)
    by (auto simp: enable_agent_def write_event_def queue_push_def log_line_def split: option.splits if_splits prod.splits bool.splits)
  with stopped_times_extension [OF stops] show "ep_threads (sh_work h) = ep_threads s @ [Monitor_Thread, Heartbeat_Thread]"
    and "SHUT_DOWN (ep_events (sh_work h)) \<longleftrightarrow> 0 < stop_controls as"
    by (auto simp: logger_stop_def)
qed

definition example_enable :: enable_env where
  "example_enable = \<lparr>en_version = ''1'', en_arch = ''x'', en_os_version = ''o'',
     en_event = \<lparr>ev_version = ''1'', ev_pid = 1, ev_tid = ''1'', ev_time = ''t''\<rparr>\<rparr>"

definition example_ext_process :: ext_process where
  "example_ext_process = \<lparr>ep_logger_key = None,
     ep_logs = \<lparr>LOGGERS = [], FIRST_LOGGER_KEY = None, lm_folders = (\<lambda>d. \<lparr>lf_files = [], lf_faults = []\<rparr>)\<rparr>,
     ep_events = logger_init, ep_threads = []\<rparr>"

theorem extension_host_spec_witness:
  "\<exists>h. extension_host_reach example_enable \<lparr>lc_thread = [], lc_now = [], lc_time = []\<rparr> example_ext_process [Begin] h
     \<and> ep_threads (sh_work h) = [Monitor_Thread, Heartbeat_Thread] \<and> \<not> SHUT_DOWN (ep_events (sh_work h))"
proof -
  have "event_message (enabling_message example_enable) \<noteq> None"
    by (simp add: event_message_def enabling_message_def example_enable_def MAX_MESSAGE_LENGTH_def)
  then have "enable_agent example_enable example_ext_process \<noteq> None"
    by (auto simp: enable_agent_def write_event_def split: option.splits)
  then obtain s1 where start: "enable_agent example_enable example_ext_process = Some s1"
    by blast
  let ?c = "\<lparr>lc_thread = [], lc_now = [], lc_time = []\<rparr>" and ?h = "(host_init example_ext_process)\<lparr>sh_work := s1, sh_phase := Work_Started\<rparr>"
  have "host_reach (enable_agent example_enable) (stop_event_logger ?c) example_ext_process ([] @ [Begin]) ?h"
    by (rule host_next [OF host_begin]) (simp_all add: host_init_def start)
  then have reach: "extension_host_reach example_enable ?c example_ext_process [Begin] ?h"
    by (simp add: extension_host_reach_def)
  have "\<not> SHUT_DOWN (ep_events example_ext_process)" "sh_phase ?h \<noteq> Not_Started"
    by (simp_all add: example_ext_process_def logger_init_def)
  from extension_host_spec [OF reach this(2,1)] reach show ?thesis
    by (intro exI [of _ ?h]) (simp add: example_ext_process_def stop_controls_def)
qed

section \<open>The logger of the extension\<close>

text \<open>
  Once the logger is initialised the key it writes to is registered, so that writing a line does not fail for want of a
  logger, whatever further loggers are initialised; before that every write panics, since no logger has the empty key.
\<close>

definition key_registered :: "ext_process \<Rightarrow> bool" where
  "key_registered s \<longleftrightarrow> hm_get (LOGGERS (ep_logs s)) (ext_get_logger_key s) \<noteq> None"

lemma init_logger_registers:
  assumes "init_logger key folder name size_limit n m = Some m'"
  shows "hm_get (LOGGERS m') key \<noteq> None" and "hm_get (LOGGERS m) k \<noteq> None \<Longrightarrow> hm_get (LOGGERS m') k \<noteq> None"
  using assms by (auto simp: init_logger_def split: if_splits option.splits prod.splits)

lemma ext_logger_ready:
  assumes "ext_force_init_logger folder name force s = Some s'" and "ep_logger_key s = None \<or> key_registered s"
  shows "key_registered s'" and "ep_logger_key s' \<noteq> None"
  using assms
  by (auto simp: ext_force_init_logger_def key_registered_def ext_get_logger_key_def Let_def
      dest: init_logger_registers split: option.splits if_splits)

lemma ext_log_unready: "hm_get (LOGGERS (ep_logs s)) [] = None \<Longrightarrow> ep_logger_key s = None \<Longrightarrow> ext_log c m s = None"
  by (simp add: ext_log_def ext_get_logger_key_def manager_write_def)

end
