(* ===== verification/Status_File.thy ===== *)
theory Status_File
  imports Extension_Service Json_File
begin

text \<open>
  The status file between the agent and the extension: the status thread of \<^verbatim>\<open>proxy_agent_status.rs\<close> writes it with
  \<^verbatim>\<open>json_write_to_file\<close>, the monitor of the extension reads it with \<^verbatim>\<open>json_read_from_file\<close>. The file is truncated and then
  written piece by piece, and read piece by piece by another process, with no lock and no renaming; the connections that
  the proxy threads record in the meantime change the maps. All of this is a system of steps that interleave freely.
\<close>

section \<open>The status thread and the reader\<close>

definition PROXY_AGENT_AGGREGATE_STATUS_FILE :: string where
  "PROXY_AGENT_AGGREGATE_STATUS_FILE = ''/var/log/azure-proxy-agent/status.json''"

definition status_file_path :: "string \<Rightarrow> string" where
  "status_file_path dir_path = path_join dir_path ''status.json''"

text \<open>\<^verbatim>\<open>write_aggregate_status_to_file\<close> logs an error of the write and returns success.\<close>

definition write_aggregate_status_to_file ::
    "(aggregate_status \<Rightarrow> string) \<Rightarrow> unit io_result \<Rightarrow> (nat \<times> error_kind) option \<Rightarrow> aggregate_status \<Rightarrow> string option \<Rightarrow> unit io_result \<times> string option" where
  "write_aggregate_status_to_file encode create failure status content =
     (Inr (), snd (json_write_to_file encode create failure status content))"

definition status_interval :: "nat \<Rightarrow> nat" where
  "status_interval interval = (if interval = 0 then 60 * 1 else interval)"

text \<open>
  Where the status thread is in its loop: sleeping, with the summaries of the forwarded connections copied, with the file
  open and this text left to write, or done with the file. The last component of the second phase is the list of
  connections the copied summaries stand for.
\<close>

datatype status_phase =
    Sleeping
  | Copied string agent_status "connection_summary list" "proxy_summary list"
  | Writing string
  | File_Done

text \<open>
  The reader has the text it has read so far. Besides the state of the program the record keeps the history:
  which connections were recorded since the maps were cleared, which statuses were begun to be written and what they stand
  for, and every finished read with the number of statuses begun when it was opened and when it ended.
\<close>

record status_world =
  sw_files :: "string \<Rightarrow> string option"
  sw_maps :: status_state
  sw_phase :: status_phase
  sw_reader :: "(string \<times> nat) option"
  sw_log :: "bool \<Rightarrow> proxy_summary list"
  sw_written :: "(aggregate_status \<times> proxy_summary list \<times> proxy_summary list) list"
  sw_reads :: "(string \<times> nat \<times> nat) list"

definition status_world_new :: "(string \<Rightarrow> string option) \<Rightarrow> status_world" where
  "status_world_new files = \<lparr>sw_files = files, sw_maps = status_state_new, sw_phase = Sleeping, sw_reader = None,
     sw_log = (\<lambda>_. []), sw_written = [], sw_reads = []\<rparr>"

datatype status_event =
    Connection_Recorded proxy_summary bool
  | Round_Begins string agent_status
  | File_Created bool
  | Bytes_Written nat
  | Write_Ended
  | Round_Ends nat
  | Read_Opened
  | Bytes_Read nat
  | Read_Ended
  | Read_Failed

fun status_step :: "(aggregate_status \<Rightarrow> string) \<Rightarrow> string \<Rightarrow> string \<Rightarrow> status_event \<Rightarrow> status_world \<Rightarrow> status_world" where
  "status_step encode wpath rpath (Connection_Recorded s failed) w =
     w\<lparr>sw_maps := add_connection_summary s failed (sw_maps w), sw_log := (sw_log w)(failed := sw_log w failed @ [s])\<rparr>"
| "status_step encode wpath rpath (Round_Begins now agent) w =
     (if sw_phase w = Sleeping
      then w\<lparr>sw_phase := Copied now agent (get_all_connection_summary False (sw_maps w)) (sw_log w False)\<rparr> else w)"
| "status_step encode wpath rpath (File_Created ok) w =
     (case sw_phase w of
        Copied now agent summary forwarded \<Rightarrow>
          (let status = \<lparr>timestamp = now, proxyAgentStatus = agent, proxyConnectionSummary = summary,
                 failedAuthenticateSummary = get_all_connection_summary True (sw_maps w)\<rparr>
           in if ok then w\<lparr>sw_files := (sw_files w)(wpath \<mapsto> []), sw_phase := Writing (encode status),
                sw_written := sw_written w @ [(status, forwarded, sw_log w True)]\<rparr>
              else w\<lparr>sw_phase := File_Done\<rparr>)
      | _ \<Rightarrow> w)"
| "status_step encode wpath rpath (Bytes_Written n) w =
     (case (sw_phase w, sw_files w wpath) of
        (Writing rest, Some content) \<Rightarrow>
          w\<lparr>sw_files := (sw_files w)(wpath \<mapsto> content @ take n rest), sw_phase := Writing (drop n rest)\<rparr>
      | _ \<Rightarrow> w)"
| "status_step encode wpath rpath Write_Ended w =
     (case sw_phase w of Writing rest \<Rightarrow> w\<lparr>sw_phase := File_Done\<rparr> | _ \<Rightarrow> w)"
| "status_step encode wpath rpath (Round_Ends elapsed) w =
     (if sw_phase w = File_Done
      then (if map_clear_duration \<le> elapsed
            then w\<lparr>sw_phase := Sleeping, sw_maps := (sw_maps w)\<lparr>SUMMARY_MAP := [], FAILED_AUTHENTICATE_SUMMARY_MAP := []\<rparr>,
                   sw_log := (\<lambda>_. [])\<rparr>
            else w\<lparr>sw_phase := Sleeping\<rparr>)
      else w)"
| "status_step encode wpath rpath Read_Opened w =
     (if sw_reader w = None \<and> sw_files w rpath \<noteq> None then w\<lparr>sw_reader := Some ([], length (sw_written w))\<rparr> else w)"
| "status_step encode wpath rpath (Bytes_Read n) w =
     (case (sw_reader w, sw_files w rpath) of
        (Some (got, opened), Some content) \<Rightarrow> w\<lparr>sw_reader := Some (got @ take n (drop (length got) content), opened)\<rparr>
      | _ \<Rightarrow> w)"
| "status_step encode wpath rpath Read_Ended w =
     (case (sw_reader w, sw_files w rpath) of
        (Some (got, opened), Some content) \<Rightarrow>
          if length content \<le> length got
          then w\<lparr>sw_reader := None, sw_reads := sw_reads w @ [(got, opened, length (sw_written w))]\<rparr> else w
      | _ \<Rightarrow> w)"
| "status_step encode wpath rpath Read_Failed w = w\<lparr>sw_reader := None\<rparr>"

section \<open>Invariants\<close>

text \<open>The maps count the connections recorded since they were cleared.\<close>

definition maps_inv :: "status_world \<Rightarrow> bool" where
  "maps_inv w \<longleftrightarrow> status_inv (sw_maps w)
     \<and> hm_get (SUMMARY_MAP (sw_maps w)) = summary_spec (sw_log w False)
     \<and> hm_get (FAILED_AUTHENTICATE_SUMMARY_MAP (sw_maps w)) = summary_spec (sw_log w True)"

text \<open>The copied summaries and those of every status are exact for the connections they stand for.\<close>

definition copies_inv :: "status_world \<Rightarrow> bool" where
  "copies_inv w \<longleftrightarrow>
     (\<forall>now agent cs ss. sw_phase w = Copied now agent cs ss \<longrightarrow> summaries_exact cs ss)
     \<and> (\<forall>(s, forwarded, failed)\<in>set (sw_written w).
          summaries_exact (proxyConnectionSummary s) forwarded \<and> summaries_exact (failedAuthenticateSummary s) failed)"

text \<open>The file holds a beginning of the last status, which the text that is left to write completes.\<close>

definition file_inv :: "(aggregate_status \<Rightarrow> string) \<Rightarrow> string \<Rightarrow> status_world \<Rightarrow> bool" where
  "file_inv encode path w \<longleftrightarrow>
     (\<forall>rest. sw_phase w = Writing rest \<longrightarrow> sw_written w \<noteq> [])
     \<and> (sw_written w \<noteq> [] \<longrightarrow>
          (\<exists>content. sw_files w path = Some content \<and> prefix content (encode (fst (last (sw_written w))))
             \<and> (\<forall>rest. sw_phase w = Writing rest \<longrightarrow> content @ rest = encode (fst (last (sw_written w))))))"

text \<open>A reader has a beginning of the file as long as no other status has been begun since it opened the file.\<close>

definition reads_inv :: "(aggregate_status \<Rightarrow> string) \<Rightarrow> string \<Rightarrow> status_world \<Rightarrow> bool" where
  "reads_inv encode path w \<longleftrightarrow>
     (\<forall>got opened. sw_reader w = Some (got, opened) \<longrightarrow>
        opened \<le> length (sw_written w)
        \<and> (opened = length (sw_written w) \<longrightarrow> (\<exists>content. sw_files w path = Some content \<and> prefix got content)))
     \<and> (\<forall>(text, opened, ended)\<in>set (sw_reads w).
          opened \<le> ended \<and> ended \<le> length (sw_written w)
          \<and> (opened = ended \<and> 0 < ended \<longrightarrow> prefix text (encode (fst (sw_written w ! (ended - 1))))))"

definition status_world_inv :: "(aggregate_status \<Rightarrow> string) \<Rightarrow> string \<Rightarrow> status_world \<Rightarrow> bool" where
  "status_world_inv encode path w \<longleftrightarrow> maps_inv w \<and> copies_inv w \<and> file_inv encode path w \<and> reads_inv encode path w"

lemma summary_spec_Nil: "summary_spec [] = Map.empty"
  by (simp add: summary_spec_def fun_eq_iff)

lemma maps_inv_exact:
  assumes "maps_inv w"
  shows "summaries_exact (get_all_connection_summary b (sw_maps w)) (sw_log w b)"
  using assms by (cases b) (simp_all add: maps_inv_def status_inv_def get_all_connection_summary_def summaries_exact_map)

lemma maps_inv_step: "maps_inv w \<Longrightarrow> maps_inv (status_step encode wpath rpath e w)"
  by (cases e)
     (auto simp: maps_inv_def status_inv_def add_connection_summary_def hm_get_add_to_summary_map summary_spec_snoc
        summary_spec_Nil fun_eq_iff Let_def split: status_phase.split option.split if_splits)

lemma copies_inv_step: "maps_inv w \<Longrightarrow> copies_inv w \<Longrightarrow> copies_inv (status_step encode wpath rpath e w)"
  by (cases e) (auto simp: copies_inv_def maps_inv_exact Let_def split: status_phase.split option.split)

lemma file_inv_step: "file_inv encode path w \<Longrightarrow> file_inv encode path (status_step encode path path e w)"
proof (cases e)
  case (Bytes_Written n)
  assume inv: "file_inv encode path w"
  show ?thesis
  proof (cases "sw_phase w")
    case (Writing rest)
    with inv obtain content where content: "sw_files w path = Some content" "content @ rest = encode (fst (last (sw_written w)))"
      by (auto simp: file_inv_def)
    then have "(content @ take n rest) @ drop n rest = encode (fst (last (sw_written w)))"
      by simp
    then have "prefix (content @ take n rest) (encode (fst (last (sw_written w))))"
      by (metis prefixI)
    with inv content Writing Bytes_Written show ?thesis
      by (simp add: file_inv_def)
  qed (use inv Bytes_Written in \<open>simp_all\<close>)
qed (auto simp: file_inv_def Let_def split: status_phase.split option.split)

lemma prefix_read: "prefix got content \<Longrightarrow> prefix (got @ take n (drop (length got) content)) content"
  by (auto simp: prefix_def) (metis append_take_drop_id)

lemma reads_inv_step:
  assumes "file_inv encode path w" and "reads_inv encode path w"
  shows "reads_inv encode path (status_step encode path path e w)"
proof (cases e)
  case (File_Created ok)
  with assms(2) show ?thesis
    by (auto simp: reads_inv_def nth_append Let_def split: status_phase.split)
next
  case (Bytes_Written n)
  with assms(2) show ?thesis
    by (auto simp: reads_inv_def split: status_phase.split option.split)
next
  case (Bytes_Read n)
  with assms(2) show ?thesis
    by (auto simp: reads_inv_def prefix_read split: option.split)
next
  case Read_Ended
  with assms show ?thesis
    by (auto simp: reads_inv_def file_inv_def last_conv_nth split: option.split intro: prefix_order.trans)
qed (use assms(2) in \<open>auto simp: reads_inv_def split: status_phase.split option.split\<close>)

interpretation status_file: step_system "status_step encode path path" "status_world_inv encode path" for encode path
  by unfold_locales (auto simp: status_world_inv_def maps_inv_step copies_inv_step file_inv_step reads_inv_step)

lemma status_world_inv_new: "status_world_inv encode path (status_world_new files)"
  by (simp add: status_world_inv_def status_world_new_def maps_inv_def copies_inv_def file_inv_def reads_inv_def
      status_state_new_def status_inv_def summary_spec_Nil fun_eq_iff)

section \<open>Properties\<close>

text \<open>The extension reads the file under a fixed name; it is the agent's file for the log folder of the delivered configuration.\<close>

lemma status_file_shared: "status_file_path ''/var/log/azure-proxy-agent'' = PROXY_AGENT_AGGREGATE_STATUS_FILE"
  by (simp add: status_file_path_def path_join_def PROXY_AGENT_AGGREGATE_STATUS_FILE_def)

text \<open>What the extension observes of a read text.\<close>

definition aggregate_observed :: "(string \<Rightarrow> aggregate_status io_result) \<Rightarrow> (error_kind \<Rightarrow> string) \<Rightarrow> string \<Rightarrow> string + aggregate_status" where
  "aggregate_observed decode show_error content =
     (case json_read_from_file decode (Inr content) of Inr s \<Rightarrow> Inr s | Inl e \<Rightarrow> Inl (show_error e))"

lemma aggregate_observed_prefix:
  assumes "json_law encode decode s" and "prefix content (encode s)"
  shows "aggregate_observed decode show_error content = Inr s' \<longleftrightarrow> content = encode s \<and> s' = s"
proof (cases "content = encode s")
  case True
  with assms(1) show ?thesis
    by (auto simp: aggregate_observed_def json_read_from_file_def json_law_def)
next
  case False
  with assms have "\<not> is_ok (decode content)"
    by (auto simp: json_law_def strict_prefix_def)
  with False show ?thesis
    by (auto simp: aggregate_observed_def json_read_from_file_def is_ok_iff split: sum.splits)
qed

text \<open>C33: The status of the agent as the extension sees it, however the recording of connections, the status thread and the
  reading of the extension interleave: a read during which the agent did not begin another status gives an error or exactly
  the status the agent began last, and it gives the status exactly when all of its text was read; the summaries of this
  status count the connections recorded since the maps were cleared; and the extension takes the agent for healthy
  exactly when the text was complete and the version in it is the version the extension carries.\<close>

theorem status_read_spec:
  assumes "w = fold (status_step encode (status_file_path ''/var/log/azure-proxy-agent'') PROXY_AGENT_AGGREGATE_STATUS_FILE) es
      (status_world_new files)"
    and "(content, opened, opened) \<in> set (sw_reads w)" and "0 < opened"
    and "sw_written w ! (opened - 1) = (s, forwarded, failed)" and "json_law encode decode s"
    and "mo_aggregate obs = aggregate_observed decode show_error content"
  shows "(\<forall>s'. mo_aggregate obs = Inr s' \<longleftrightarrow> content = encode s \<and> s' = s)
    \<and> summaries_exact (proxyConnectionSummary s) forwarded \<and> summaries_exact (failedAuthenticateSummary s) failed
    \<and> (healthy env obs \<longleftrightarrow> content = encode s \<and> as_version (proxyAgentStatus s) = me_file_version env)"
proof -
  have inv: "status_world_inv encode PROXY_AGENT_AGGREGATE_STATUS_FILE w"
    unfolding assms(1) status_file_shared by (rule status_file.run_inv [OF status_world_inv_new])
  then have "reads_inv encode PROXY_AGENT_AGGREGATE_STATUS_FILE w" "copies_inv w"
    by (simp_all add: status_world_inv_def)
  then have "prefix content (encode s)" "opened \<le> length (sw_written w)"
    using assms(2-4) by (fastforce simp: reads_inv_def)+
  then have read: "aggregate_observed decode show_error content = Inr s' \<longleftrightarrow> content = encode s \<and> s' = s" for s'
    by (intro aggregate_observed_prefix [OF assms(5)])
  have "(s, forwarded, failed) \<in> set (sw_written w)"
    using \<open>opened \<le> length (sw_written w)\<close> assms(3,4) nth_mem [of "opened - 1" "sw_written w"] by simp
  with \<open>copies_inv w\<close> have "summaries_exact (proxyConnectionSummary s) forwarded \<and> summaries_exact (failedAuthenticateSummary s) failed"
    by (auto simp: copies_inv_def)
  moreover have "healthy env obs \<longleftrightarrow> (\<exists>s'. mo_aggregate obs = Inr s' \<and> as_version (proxyAgentStatus s') = me_file_version env)"
    by (auto simp: healthy_def split: sum.splits)
  ultimately show ?thesis
    using read assms(6) by auto
qed

definition example_detail :: detail_status where
  "example_detail = \<lparr>ds_status = RUNNING, ds_message = [], ds_states = None\<rparr>"

definition example_agent_status :: "string \<Rightarrow> agent_status" where
  "example_agent_status v = proxy_agent_status_new v example_detail example_detail example_detail example_detail example_detail 0"

definition example_aggregate :: "string \<Rightarrow> aggregate_status" where
  "example_aggregate v = guest_proxy_agent_aggregate_status_new ''now'' (example_agent_status v) status_state_new"

text \<open>A JSON library for these examples: the version in braces.\<close>

definition example_encode :: "aggregate_status \<Rightarrow> string" where
  "example_encode s = ''{'' @ as_version (proxyAgentStatus s) @ ''}''"

definition example_decode :: "string \<Rightarrow> aggregate_status io_result" where
  "example_decode t = (if t \<noteq> [] \<and> last t = CHR ''}'' then Inr (example_aggregate (butlast (tl t))) else Inl InvalidData)"

definition example_status_events :: "status_event list" where
  "example_status_events = [Round_Begins ''now'' (example_agent_status ''1.2''), File_Created True, Bytes_Written 2, Read_Opened,
     Bytes_Read 9, Bytes_Written 9, Bytes_Read 9, Read_Ended]"

lemma example_json_law: "json_law example_encode example_decode (example_aggregate ''1.2'')"
proof -
  have p: "p \<in> set [[], ''{'', ''{1'', ''{1.'', ''{1.2'']" if "strict_prefix p ''{1.2}''" for p
    using that by (auto simp: strict_prefix_def prefix_Cons)
  have "example_encode (example_aggregate ''1.2'') = ''{1.2}''"
    by (simp add: example_encode_def example_aggregate_def example_agent_status_def guest_proxy_agent_aggregate_status_new_def
        proxy_agent_status_new_def)
  then show ?thesis
    by (auto simp: json_law_def example_decode_def is_ok_def dest!: p)
qed

lemmas example_status_defs = example_status_events_def status_world_new_def example_encode_def example_agent_status_def
  proxy_agent_status_new_def status_state_new_def get_all_connection_summary_def PROXY_AGENT_AGGREGATE_STATUS_FILE_def
  example_aggregate_def guest_proxy_agent_aggregate_status_new_def

theorem status_read_spec_witness:
  "case fold (status_step example_encode (status_file_path ''/var/log/azure-proxy-agent'') PROXY_AGENT_AGGREGATE_STATUS_FILE)
      example_status_events (status_world_new Map.empty) of
     w \<Rightarrow> map fst (sw_reads w) = [''{1.2}'']
       \<and> healthy \<lparr>me_exe_dir = [], me_status_folder = [], me_file_version = ''1.2''\<rparr>
           \<lparr>mo_now = [], mo_now_ms = [], mo_service_version = [], mo_install = Inr (Some 0),
             mo_aggregate = aggregate_observed example_decode (\<lambda>e. []) (fst (hd (sw_reads w))),
             mo_json_status = (\<lambda>a. Inl []), mo_json_connections = (\<lambda>c. Inl [])\<rparr>"
proof -
  let ?env = "\<lparr>me_exe_dir = [], me_status_folder = [], me_file_version = ''1.2''\<rparr>"
  let ?obs = "\<lparr>mo_now = [], mo_now_ms = [], mo_service_version = [], mo_install = Inr (Some 0),
      mo_aggregate = aggregate_observed example_decode (\<lambda>e. []) ''{1.2}'',
      mo_json_status = (\<lambda>a. Inl []), mo_json_connections = (\<lambda>c. Inl [])\<rparr>"
  define w where "w = fold (status_step example_encode (status_file_path ''/var/log/azure-proxy-agent'')
      PROXY_AGENT_AGGREGATE_STATUS_FILE) example_status_events (status_world_new Map.empty)"
  have reads: "sw_reads w = [(''{1.2}'', 1, 1)]" and written: "sw_written w ! (1 - 1) = (example_aggregate ''1.2'', [], [])"
    unfolding w_def status_file_shared by (simp_all add: example_status_defs)
  have "healthy ?env ?obs"
    using status_read_spec [OF w_def, of "''{1.2}''" 1 "example_aggregate ''1.2''" "[]" "[]" example_decode ?obs "\<lambda>e. []" ?env]
      reads written example_json_law by (simp add: example_status_defs)
  with reads show ?thesis
    unfolding w_def [symmetric] by simp
qed

text \<open>Without a lock this is the best possible: when the agent begins another status during the read, the extension can see
  a status that the agent never wrote.\<close>

theorem torn_status_read:
  "\<exists>es content s. (content, 1, 2) \<in> set (sw_reads (fold (status_step example_encode path path) es (status_world_new Map.empty)))
    \<and> aggregate_observed example_decode show_error content = Inr s
    \<and> s \<notin> fst ` set (sw_written (fold (status_step example_encode path path) es (status_world_new Map.empty)))"
proof (intro exI conjI)
  let ?es = "[Round_Begins ''now'' (example_agent_status ''1.2''), File_Created True, Bytes_Written 5, Write_Ended, Round_Ends 0,
    Read_Opened, Bytes_Read 2, Round_Begins ''now'' (example_agent_status ''3.4''), File_Created True, Bytes_Written 5,
    Bytes_Read 9, Read_Ended]"
  show "(''{1.4}'', 1, 2) \<in> set (sw_reads (fold (status_step example_encode path path) ?es (status_world_new Map.empty)))"
    by (simp add: example_status_defs map_clear_duration_def)
  show "aggregate_observed example_decode show_error ''{1.4}'' = Inr (example_aggregate ''1.4'')"
    by (simp add: aggregate_observed_def json_read_from_file_def example_decode_def)
  show "example_aggregate ''1.4'' \<notin> fst ` set (sw_written (fold (status_step example_encode path path) ?es (status_world_new Map.empty)))"
    by (simp add: example_status_defs map_clear_duration_def)
qed

text \<open>A round of the status thread that nothing disturbs leaves the file as the sequential write does, and a read after it
  gives the status; the maps are cleared as in the sequential round.\<close>

theorem status_round_refined:
  assumes "sw_phase w = Sleeping" and "create = (if ok then Inr () else Inl Other)"
    and "w' = fold (status_step encode path path) [Round_Begins now agent, File_Created ok, Bytes_Written n, Write_Ended, Round_Ends elapsed] w"
  shows "sw_files w' path = snd (write_aggregate_status_to_file encode create (Some (n, e))
           (fst (status_round now agent elapsed (sw_maps w))) (sw_files w path))
    \<and> sw_maps w' = snd (status_round now agent elapsed (sw_maps w)) \<and> sw_phase w' = Sleeping"
proof (cases ok)
  case True
  then show ?thesis
    unfolding assms(3) using assms(1,2)
    by (simp add: write_aggregate_status_to_file_def json_write_to_file_def status_round_def
        guest_proxy_agent_aggregate_status_new_def Let_def)
next
  case False
  then show ?thesis
    unfolding assms(3) using assms(1,2)
    by (simp add: write_aggregate_status_to_file_def json_write_to_file_def status_round_def Let_def)
qed

end
