(* ===== verification/Telemetry_Pipeline.thy ===== *)
theory Telemetry_Pipeline
  imports Event_Reader
begin

text \<open>
  The telemetry of the agent from end to end: callers put events into the queue of \<^verbatim>\<open>event_logger.rs\<close>, its thread moves them
  to files, and the thread of \<^verbatim>\<open>event_reader.rs\<close> sends the files to the host and removes them. The two threads share the
  directory and nothing else. A file that is still being written is one the reader cannot decode; it stays for the next
  round, so writing a file is one step here. A file is named after the clock in nanoseconds; names do not repeat.
\<close>

section \<open>The system\<close>

text \<open>A file holds the events of a batch, or the beginning of a text whose writing failed.\<close>

type_synonym event_dir = "(string, event list option) hmap"

record pipeline =
  pl_logger :: logger_state
  pl_dir :: event_dir
  pl_reader :: reader_state
  pl_reading :: bool

definition pipeline_new :: "event_dir \<Rightarrow> pipeline" where
  "pipeline_new dir = \<lparr>pl_logger = logger_init, pl_dir = dir, pl_reader = reader_state_new, pl_reading = True\<rparr>"

definition dir_read :: "event_dir \<Rightarrow> string \<Rightarrow> event list io_result" where
  "dir_read dir fl =
     (case hm_get dir fl of Some (Some events) \<Rightarrow> Inr events | Some None \<Rightarrow> Inl InvalidData | None \<Rightarrow> Inl NotFound)"

text \<open>A failed write leaves the file, when it was created, with a text that is not complete.\<close>

definition store_batch :: "bool \<Rightarrow> fate \<times> event list \<Rightarrow> event_dir \<Rightarrow> event_dir" where
  "store_batch created b dir =
     (case fst b of
        OnDisk fl \<Rightarrow> hm_insert fl (Some (snd b)) dir
      | DroppedWriteFailed fl \<Rightarrow> if created then hm_insert fl None dir else dir
      | DroppedFilesFull \<Rightarrow> dir)"

fun fate_file :: "fate \<Rightarrow> string option" where
  "fate_file (OnDisk fl) = Some fl"
| "fate_file (DroppedWriteFailed fl) = Some fl"
| "fate_file DroppedFilesFull = None"

text \<open>What the logger thread observes is the directory: its size, when it can be listed, and an unused name.\<close>

definition observes_dir :: "pipeline \<Rightarrow> logger_act \<Rightarrow> bool" where
  "observes_dir p a =
     (case a of
        Thread obs \<Rightarrow>
          (case lo_files obs of Inr n \<Rightarrow> n = length (pl_dir p) | Inl _ \<Rightarrow> True)
          \<and> lo_name obs \<notin> fst ` set (pl_dir p) \<and> Some (lo_name obs) \<notin> (fate_file \<circ> fst) ` set (lg_batches (pl_logger p))
      | _ \<Rightarrow> True)"

text \<open>
  A step of the logger or of one of its callers, or a round of the reader: with the listing it gets, and for which files
  the removal succeeds. A panic ends the reader.
\<close>

datatype pipe_act = Logger_Acts logger_act bool | Reader_Round "string list io_result" "string \<Rightarrow> bool"

fun pipe_step :: "'u reader_env \<Rightarrow> nat \<Rightarrow> pipe_act \<Rightarrow> pipeline \<Rightarrow> pipeline" where
  "pipe_step env max_count (Logger_Acts a created) p =
     (if observes_dir p a
      then (let logger = logger_act_step max_count a (pl_logger p)
            in p\<lparr>pl_logger := logger,
                 pl_dir := fold (store_batch created) (drop (length (lg_batches (pl_logger p))) (lg_batches logger)) (pl_dir p)\<rparr>)
      else p)"
| "pipe_step env max_count (Reader_Round listing removable) p =
     (if pl_reading p \<and> (case listing of Inr files \<Rightarrow> set files = fst ` set (pl_dir p) \<and> distinct files | Inl _ \<Rightarrow> True)
      then (case reader_round (env\<lparr>re_read := dir_read (pl_dir p)\<rparr>) listing (pl_reader p) of
              None \<Rightarrow> p\<lparr>pl_reading := False\<rparr>
            | Some (report, reader) \<Rightarrow>
                (let gone = filter removable (drop (length (rs_removed (pl_reader p))) (rs_removed reader))
                 in p\<lparr>pl_reader := reader, pl_dir := filter (\<lambda>(fl, _). fl \<notin> set gone) (pl_dir p)\<rparr>))
      else p)"

section \<open>What a batch becomes\<close>

text \<open>The documents of a file, each tried until it was accepted or five times, one after the other.\<close>

definition delivered :: "sys_info \<Rightarrow> reader_state \<Rightarrow> string \<Rightarrow> event list \<Rightarrow> bool" where
  "delivered sys r fl events \<longleftrightarrow> fl \<in> set (rs_removed r)
     \<and> (\<exists>m ls. list_all2 (attempt_log 5) (map to_xml (filter (\<lambda>d. d \<noteq> []) (event_batches sys (Some m) events))) ls
          \<and> sublist (concat ls) (rs_sent r))"

definition batches_inv :: "'u reader_env \<Rightarrow> pipeline \<Rightarrow> bool" where
  "batches_inv env p \<longleftrightarrow>
     (\<forall>fl events. (OnDisk fl, events) \<in> set (lg_batches (pl_logger p)) \<longrightarrow>
        hm_get (pl_dir p) fl = Some (Some events) \<or> delivered (re_sys env) (pl_reader p) fl events)"

text \<open>Where the content of the directory and of the documents comes from.\<close>

definition source_of :: "event_dir \<Rightarrow> pipeline \<Rightarrow> event list set" where
  "source_of dir0 p = {events. \<exists>fl. (OnDisk fl, events) \<in> set (lg_batches (pl_logger p)) \<or> (fl, Some events) \<in> set dir0}"

definition sources_inv :: "'u reader_env \<Rightarrow> event_dir \<Rightarrow> pipeline \<Rightarrow> bool" where
  "sources_inv env dir0 p \<longleftrightarrow> hm_inv (pl_dir p)
     \<and> (\<forall>fl events. hm_get (pl_dir p) fl = Some (Some events) \<longrightarrow> events \<in> source_of dir0 p)
     \<and> (\<forall>(xml, r)\<in>set (rs_sent (pl_reader p)). \<exists>events\<in>source_of dir0 p. \<exists>m. \<exists>d\<in>set (event_batches (re_sys env) (Some m) events).
          d \<noteq> [] \<and> xml = to_xml d)"

definition pipe_inv :: "'u reader_env \<Rightarrow> event_dir \<Rightarrow> pipeline \<Rightarrow> bool" where
  "pipe_inv env dir0 p \<longleftrightarrow> logger_inv (pl_logger p) \<and> batches_inv env p \<and> sources_inv env dir0 p"

section \<open>Steps of the logger\<close>

lemma logger_new_batch:
  "\<exists>new. lg_batches (logger_act_step max_count a s) = lg_batches s @ new \<and> length new \<le> 1
     \<and> (\<forall>b\<in>set new. \<exists>obs. a = Thread obs \<and> (\<forall>fl. fate_file (fst b) = Some fl \<longrightarrow> fl = lo_name obs))"
proof (cases a)
  case (Thread obs)
  then show ?thesis
    by (auto simp: logger_act_step_def logger_step_def logger_start_def logger_head_def logger_wake_def logger_pop_def
        logger_flush_def log_line_def set_status_def Let_def
        split: logger_pc.splits sum.splits nat.splits list.splits if_splits)
qed (auto simp: logger_act_step_def write_event_def write_state_event_def queue_push_def log_line_def logger_stop_def
    split: option.splits prod.splits)

lemma logger_act_pipe [consumes 2, case_names same batch]:
  assumes "observes_dir p a" and "p' = pipe_step env max_count (Logger_Acts a created) p"
  obtains (same) "lg_batches (pl_logger p') = lg_batches (pl_logger p)" "pl_dir p' = pl_dir p" "pl_reader p' = pl_reader p"
    | (batch) b where "lg_batches (pl_logger p') = lg_batches (pl_logger p) @ [b]" "pl_dir p' = store_batch created b (pl_dir p)"
        "pl_reader p' = pl_reader p" "\<And>fl. fate_file (fst b) = Some fl \<Longrightarrow> fl \<notin> fst ` set (pl_dir p)
           \<and> Some fl \<notin> (fate_file \<circ> fst) ` set (lg_batches (pl_logger p))"
proof -
  obtain new where new: "lg_batches (logger_act_step max_count a (pl_logger p)) = lg_batches (pl_logger p) @ new" "length new \<le> 1"
    "\<forall>b\<in>set new. \<exists>obs. a = Thread obs \<and> (\<forall>fl. fate_file (fst b) = Some fl \<longrightarrow> fl = lo_name obs)"
    using logger_new_batch by blast
  have p': "lg_batches (pl_logger p') = lg_batches (pl_logger p) @ new" "pl_dir p' = fold (store_batch created) new (pl_dir p)"
    "pl_reader p' = pl_reader p"
    using assms new(1) by (simp_all add: Let_def)
  show thesis
  proof (cases new)
    case Nil
    with p' same show ?thesis by simp
  next
    case (Cons b bs)
    with new(2) have b: "new = [b]" by simp
    with new(3) obtain obs where obs: "a = Thread obs" "fate_file (fst b) = Some fl \<Longrightarrow> fl = lo_name obs" for fl
      by auto
    have "fl \<notin> fst ` set (pl_dir p) \<and> Some fl \<notin> (fate_file \<circ> fst) ` set (lg_batches (pl_logger p))"
      if "fate_file (fst b) = Some fl" for fl
      using assms(1) unfolding observes_dir_def obs(1) obs(2) [OF that] by simp
    with p' b show ?thesis
      by (intro batch [of b]) simp_all
  qed
qed

lemma fate_file_fresh:
  assumes "(OnDisk fl, events) \<in> set bs" and "Some fl' \<notin> (fate_file \<circ> fst) ` set bs"
  shows "fl \<noteq> fl'"
  using assms by force

lemma logger_batches_inv:
  assumes "batches_inv env p"
  shows "batches_inv env (pipe_step env max_count (Logger_Acts a created) p)"
proof (cases "observes_dir p a")
  case True
  define p' where "p' = pipe_step env max_count (Logger_Acts a created) p"
  from True this have "batches_inv env p'"
  proof (cases rule: logger_act_pipe)
    case same
    with assms show ?thesis by (simp add: batches_inv_def)
  next
    case (batch b)
    have "hm_get (store_batch created b (pl_dir p)) fl = hm_get (pl_dir p) fl"
      if "(OnDisk fl, events) \<in> set (lg_batches (pl_logger p))" for fl events
      using fate_file_fresh [OF that] batch(4) by (auto simp: store_batch_def split: fate.splits)
    moreover have "hm_get (store_batch created b (pl_dir p)) fl = Some (Some events)" if "b = (OnDisk fl, events)" for fl events
      using that by (simp add: store_batch_def)
    ultimately show ?thesis
      using assms unfolding batches_inv_def batch(1-3) by auto
  qed
  then show ?thesis by (simp only: p'_def)
qed (use assms in simp)

lemma source_of_mono:
  "set (lg_batches (pl_logger p)) \<subseteq> set (lg_batches (pl_logger p')) \<Longrightarrow> source_of dir0 p \<subseteq> source_of dir0 p'"
  by (auto simp: source_of_def)

lemma logger_sources_inv:
  assumes "sources_inv env dir0 p"
  shows "sources_inv env dir0 (pipe_step env max_count (Logger_Acts a created) p)"
proof (cases "observes_dir p a")
  case True
  define p' where "p' = pipe_step env max_count (Logger_Acts a created) p"
  from True this have "sources_inv env dir0 p'"
  proof (cases rule: logger_act_pipe)
    case same
    with assms show ?thesis by (simp add: sources_inv_def source_of_def)
  next
    case (batch b)
    have sub: "source_of dir0 p \<subseteq> source_of dir0 p'"
      by (rule source_of_mono) (simp only: batch(1), auto)
    have "hm_inv (store_batch created b (pl_dir p))"
      using assms by (auto simp: sources_inv_def store_batch_def split: fate.splits)
    moreover have "events \<in> source_of dir0 p'" if "hm_get (store_batch created b (pl_dir p)) fl = Some (Some events)" for fl events
    proof (cases "b = (OnDisk fl, events)")
      case True
      then show ?thesis unfolding source_of_def batch(1) by auto
    next
      case False
      with that have "hm_get (pl_dir p) fl = Some (Some events)"
        by (cases b) (auto simp: store_batch_def split: fate.splits if_splits)
      with assms sub show ?thesis by (auto simp: sources_inv_def)
    qed
    ultimately show ?thesis
      using assms sub unfolding sources_inv_def batch(2,3) by (auto; fastforce)
  qed
  then show ?thesis by (simp only: p'_def)
qed (use assms in simp)

section \<open>Rounds of the reader\<close>

text \<open>A round that sends anything has the metadata and goes through the listed files.\<close>

lemma reader_round_effect:
  assumes "reader_round env listing s = Some (report, s')"
  obtains (idle) "rs_sent s' = rs_sent s" "rs_removed s' = rs_removed s"
    | (sent) files m ls where "listing = Inr files" "rs_removed s' = rs_removed s @ filter (is_ok \<circ> re_read env) files"
        "list_all2 (attempt_log 5) (map to_xml (documents env (Some m) files)) ls" "rs_sent s' = rs_sent s @ concat ls"
proof -
  from assms obtain r s1 where u: "update_vm_meta_data env s = Some (r, s1)"
    by (auto simp: reader_round_def split: option.splits)
  note f = update_vm_meta_data_frame [OF u]
  show thesis
  proof (cases "VM_META_DATA s1")
    case None
    with assms u f idle show ?thesis
      by (auto simp: reader_round_def split: sum.splits)
  next
    case (Some m)
    show ?thesis
    proof (cases listing)
      case (Inl e)
      with assms u f Some idle show ?thesis
        by (auto simp: reader_round_def split: sum.splits)
    next
      case (Inr files)
      with assms u Some obtain n where "process_events_and_clean env files s1 = Some (n, s')"
        by (auto simp: reader_round_def split: sum.splits option.splits)
      from process_log [OF this] Some f Inr sent show ?thesis
        by auto
    qed
  qed
qed

lemma documents_append: "documents env m (as @ bs) = documents env m as @ documents env m bs"
  by (simp add: documents_def)

lemma documents_one:
  "re_read env fl = Inr events \<Longrightarrow> documents env m [fl] = filter (\<lambda>d. d \<noteq> []) (event_batches (re_sys env) m events)"
  by (simp add: documents_def file_events_def)

lemma round_delivers:
  assumes "list_all2 (attempt_log 5) (map to_xml (documents env (Some m) files)) ls" and "fl \<in> set files"
    and "re_read env fl = Inr events" and "fl \<in> set (rs_removed s')" and "rs_sent s' = sent @ concat ls"
  shows "delivered (re_sys env) s' fl events"
proof -
  obtain as bs where files: "files = as @ [fl] @ bs"
    using split_list [OF assms(2)] by auto
  obtain l1 l2 l3 where "ls = l1 @ l2 @ l3"
    "list_all2 (attempt_log 5) (map to_xml (documents env (Some m) [fl])) l2"
    using assms(1) unfolding files documents_append map_append
    by (auto simp: list_all2_append1)
  then show ?thesis
    using assms(4,5) sublist_appendI [of "concat l2" "sent @ concat l1" "concat l3"]
    unfolding delivered_def documents_one [OF assms(3)] by (intro conjI exI [of _ m] exI [of _ l2]) simp_all
qed

lemma delivered_mono:
  assumes "delivered sys s fl events" and "rs_removed s' = rs_removed s @ r" and "rs_sent s' = rs_sent s @ l"
  shows "delivered sys s' fl events"
proof -
  have "sublist x (rs_sent s')" if "sublist x (rs_sent s)" for x
    using that unfolding assms(3) sublist_def by (metis append.assoc)
  with assms(1,2) show ?thesis
    unfolding delivered_def by (metis Un_iff set_append)
qed

lemma map_of_filter_keys: "hm_get (filter (\<lambda>(k, _). k \<notin> S) m) k = (if k \<in> S then None else hm_get m k)"
  by (induction m) auto

lemma hm_inv_filter: "hm_inv m \<Longrightarrow> hm_inv (filter P m)"
  by (simp add: hm_inv_def distinct_map_filter)

lemma dir_read_ok: "dir_read dir fl = Inr events \<longleftrightarrow> hm_get dir fl = Some (Some events)"
  by (auto simp: dir_read_def split: option.splits)

lemma document_source:
  assumes "list_all2 (attempt_log 5) (map to_xml (documents env m files)) ls" and "(xml, r) \<in> set (concat ls)"
  shows "\<exists>fl\<in>set files. \<exists>events. re_read env fl = Inr events
    \<and> (\<exists>d\<in>set (event_batches (re_sys env) m events). d \<noteq> [] \<and> xml = to_xml d)"
proof -
  obtain l where l: "l \<in> set ls" "(xml, r) \<in> set l"
    using assms(2) by auto
  have "\<exists>d\<in>set ds. attempt_log 5 (to_xml d) l" if "list_all2 (attempt_log 5) (map to_xml ds) ls" for ds
    using that l(1) by (induction ds arbitrary: ls) (auto simp: list_all2_Cons1, blast)
  then obtain d where d: "d \<in> set (documents env m files)" "attempt_log 5 (to_xml d) l"
    using assms(1) by blast
  then have "xml = to_xml d"
    using l(2) by (auto simp: attempt_log_def)
  moreover obtain fl where "fl \<in> set files" "d \<noteq> []" "d \<in> set (event_batches (re_sys env) m (file_events env fl))"
    using d(1) by (auto simp: documents_def)
  ultimately show ?thesis
    by (cases "re_read env fl") (auto simp: file_events_def)
qed

lemma reader_step_effect [consumes 2, case_names same sent]:
  assumes "p' = pipe_step env max_count (Reader_Round listing removable) p" and "hm_inv (pl_dir p)"
  obtains (same) "pl_logger p' = pl_logger p" "pl_dir p' = pl_dir p" "rs_sent (pl_reader p') = rs_sent (pl_reader p)"
        "rs_removed (pl_reader p') = rs_removed (pl_reader p)"
    | (sent) files m ls gone where "pl_logger p' = pl_logger p" "set files = fst ` set (pl_dir p)"
        "list_all2 (attempt_log 5) (map to_xml (documents (env\<lparr>re_read := dir_read (pl_dir p)\<rparr>) (Some m) files)) ls"
        "rs_sent (pl_reader p') = rs_sent (pl_reader p) @ concat ls"
        "rs_removed (pl_reader p') = rs_removed (pl_reader p) @ filter (is_ok \<circ> dir_read (pl_dir p)) files"
        "pl_dir p' = filter (\<lambda>(fl, _). fl \<notin> set gone) (pl_dir p)"
proof (cases "pl_reading p \<and> (case listing of Inr files \<Rightarrow> set files = fst ` set (pl_dir p) \<and> distinct files | Inl _ \<Rightarrow> True)")
  case True
  let ?env = "env\<lparr>re_read := dir_read (pl_dir p)\<rparr>"
  show thesis
  proof (cases "reader_round ?env listing (pl_reader p)")
    case None
    with True assms(1) same show ?thesis by simp
  next
    case (Some x)
    then obtain report reader where r: "reader_round ?env listing (pl_reader p) = Some (report, reader)"
      by (cases x) auto
    then show ?thesis
    proof (cases rule: reader_round_effect)
      case idle
      with True assms(1) r same show ?thesis by simp
    next
      case (sent files m ls)
      define gone where "gone = filter removable (drop (length (rs_removed (pl_reader p))) (rs_removed reader))"
      have "p' = p\<lparr>pl_reader := reader, pl_dir := filter (\<lambda>(fl, _). fl \<notin> set gone) (pl_dir p)\<rparr>"
        using True assms(1) r unfolding gone_def by (simp add: Let_def)
      with True sent show ?thesis
        by (intro that(2) [of files m ls gone]) simp_all
    qed
  qed
next
  case False
  then have "p' = p"
    unfolding assms(1) pipe_step.simps by (rule if_not_P)
  with same show thesis by simp
qed

lemma reader_batches_inv:
  assumes "batches_inv env p" and "hm_inv (pl_dir p)"
  shows "batches_inv env (pipe_step env max_count (Reader_Round listing removable) p)"
proof -
  define p' where "p' = pipe_step env max_count (Reader_Round listing removable) p"
  from this assms(2) have "batches_inv env p'"
  proof (cases rule: reader_step_effect)
    case same
    with assms(1) show ?thesis by (simp add: batches_inv_def delivered_def)
  next
    case (sent files m ls gone)
    have "delivered (re_sys env) (pl_reader p') fl events" if "hm_get (pl_dir p) fl = Some (Some events)" for fl events
    proof -
      have "fl \<in> set files" "dir_read (pl_dir p) fl = Inr events"
        using that sent(2) by (auto simp: dir_read_ok dest: map_of_SomeD intro: rev_image_eqI)
      then show ?thesis
        using round_delivers [OF sent(3), of fl events "pl_reader p'" "rs_sent (pl_reader p)"] sent(4,5)
        by (simp add: is_ok_iff)
    qed
    with assms(1) show ?thesis
      unfolding batches_inv_def sent(1) using delivered_mono [OF _ sent(5,4)] by blast
  qed
  then show ?thesis by (simp only: p'_def)
qed

lemma reader_sources_inv:
  assumes "sources_inv env dir0 p"
  shows "sources_inv env dir0 (pipe_step env max_count (Reader_Round listing removable) p)"
proof -
  define p' where "p' = pipe_step env max_count (Reader_Round listing removable) p"
  have inv: "hm_inv (pl_dir p)"
    using assms by (simp add: sources_inv_def)
  from p'_def this have "sources_inv env dir0 p'"
  proof (cases rule: reader_step_effect)
    case same
    with assms show ?thesis by (simp add: sources_inv_def source_of_def)
  next
    case (sent files m ls gone)
    have src: "source_of dir0 p' = source_of dir0 p"
      by (simp add: source_of_def sent(1))
    have "\<forall>(xml, r)\<in>set (concat ls).
        \<exists>events\<in>source_of dir0 p. \<exists>m. \<exists>d\<in>set (event_batches (re_sys env) (Some m) events). d \<noteq> [] \<and> xml = to_xml d"
      using document_source [OF sent(3)] assms by (fastforce simp: sources_inv_def dir_read_ok)
    with assms inv show ?thesis
      unfolding sources_inv_def src sent(4,6) set_append ball_Un by (auto simp: map_of_filter_keys hm_inv_filter split: if_splits)
  qed
  then show ?thesis by (simp only: p'_def)
qed

interpretation pipe: step_system "pipe_step env max_count" "pipe_inv env dir0" for env max_count dir0
proof
  fix p a
  assume inv: "pipe_inv env dir0 p"
  show "pipe_inv env dir0 (pipe_step env max_count a p)"
  proof (cases a)
    case (Logger_Acts b created)
    have "logger_inv (pl_logger (pipe_step env max_count (Logger_Acts b created) p))"
      using inv logger.step_inv by (simp add: pipe_inv_def Let_def)
    with inv Logger_Acts show ?thesis
      by (simp only: pipe_inv_def logger_batches_inv logger_sources_inv)
  next
    case (Reader_Round listing removable)
    have "pl_logger (pipe_step env max_count (Reader_Round listing removable) p) = pl_logger p"
      by (simp add: Let_def split: option.split sum.split)
    moreover have "hm_inv (pl_dir p)"
      using inv by (simp add: pipe_inv_def sources_inv_def)
    ultimately show ?thesis
      using inv unfolding Reader_Round by (simp only: pipe_inv_def reader_batches_inv reader_sources_inv)
  qed
qed

lemma pipe_inv_new: "hm_inv dir0 \<Longrightarrow> pipe_inv env dir0 (pipeline_new dir0)"
  using logger_inv_init
  by (auto simp: pipe_inv_def pipeline_new_def batches_inv_def sources_inv_def source_of_def logger_init_def
      reader_state_new_def dest: map_of_SomeD)

section \<open>Properties\<close>


definition example_logger_obs :: logger_obs where
  "example_logger_obs = \<lparr>lo_created = Inr (), lo_files = Inr 0, lo_name = ''1.json'', lo_written = Inr ()\<rparr>"

definition example_pipe_acts :: "pipe_act list" where
  "example_pipe_acts = Logger_Acts (Write \<lparr>ev_version = ''1.0'', ev_pid = 7, ev_tid = ''8'', ev_time = ''t''\<rparr> INFO_LEVEL ''m'' ''f'' ''o'') True
     # replicate 6 (Logger_Acts (Thread example_logger_obs) True)"


end
