(* ===== verification/Mock_Server.thy ===== *)
theory Mock_Server
  imports Key_Keeper
begin

text \<open>
  \<^verbatim>\<open>proxy_agent/src/test_mock/server_mock.rs\<close>: the host the tests of the agent talk to, and the key exchange of the agent
  with it, from the bytes the agent writes to the values it gets back. The texts of the goal state, the shared
  configuration and the instance metadata are data and stay arguments; the JSON texts of a status and a key are those
  of \<^verbatim>\<open>serde_json\<close>, an argument as well. \<^const>\<open>None\<close> is a panic of the server, or a read that never ends.
\<close>

section \<open>The server\<close>

record mock_host =
  mh_ip :: string
  mh_port :: u16
  mh_guid :: string
  mh_goal_state :: string
  mh_shared_config :: string
  mh_instance :: string
  mh_status_json :: "key_status \<Rightarrow> string"
  mh_key_json :: "key \<Rightarrow> string"
  CURRENT_STATE :: string

definition MOCK_EMPTY_GUID :: string where "MOCK_EMPTY_GUID = ''00000000-0000-0000-0000-000000000000''"

definition set_secure_channel_state :: "bool \<Rightarrow> mock_host \<Rightarrow> mock_host" where
  "set_secure_channel_state enabled m = m\<lparr>CURRENT_STATE := if enabled then MUST_SIG_WIRESERVER else DISABLE_STATE\<rparr>"

text \<open>The status and the key of the literals, with the fields the code sets.\<close>

definition mock_status :: "mock_host \<Rightarrow> key_status" where
  "mock_status m = \<lparr>ks_authorizationScheme = ''Azure-HMAC-SHA256'', ks_keyDeliveryMethod = ''http'', ks_keyIncarnationId = None,
     ks_keyGuid = Some [], ks_requiredClaimsHeaderPairs = Some [''isRoot''],
     ks_secureChannelState = Some (if CURRENT_STATE m = DISABLE_STATE then DISABLE_STATE else MUST_SIG_WIRESERVER),
     ks_secureChannelEnabled = None, ks_version = ''1.0'', ks_authorizationRules = None\<rparr>"

definition mock_key :: "mock_host \<Rightarrow> key" where
  "mock_key m = \<lparr>key_authorizationScheme = ''Azure-HMAC-SHA256'', key_incarnationId = None,
     key_guid = (if CURRENT_STATE m = DISABLE_STATE then MOCK_EMPTY_GUID else mh_guid m),
     key_issued = ''2021-05-05T 12:00:00Z'',
     key_key = ''4A404E635266556A586E3272357538782F413F4428472B4B6250645367566B59''\<rparr>"

definition mock_path :: "'u url_lib \<Rightarrow> request \<Rightarrow> string" where
  "mock_path U request =
     (case get_url U request of Some url \<Rightarrow> chars_skip 1 (url_path U url) | None \<Rightarrow> chars_skip 1 (req_url request))"

text \<open>The body of the answer to a \<^verbatim>\<open>GET\<close>.\<close>

definition mock_get :: "mock_host \<Rightarrow> string \<Rightarrow> string" where
  "mock_get m path =
     (let segments = split_on CHR ''/'' path
      in if segments ! 0 = ''secure-channel''
         then (if 1 < length segments \<and> segments ! 1 = ''status'' then mh_status_json m (mock_status m) else [])
         else if segments ! 0 = ''machine?comp=goalstate''
         then replace_str ''##port##'' (show_nat (unat (mh_port m))) (replace_str ''##ip##'' (mh_ip m) (mh_goal_state m))
         else if starts_with path ''machine/'' \<and> contains_str path ''type=sharedConfig'' then mh_shared_config m
         else if starts_with path ''metadata/instance'' then mh_instance m
         else [])"

text \<open>
  \<^verbatim>\<open>handle_request\<close>: the first component of the result is \<^const>\<open>False\<close> for the request that stops the server. The answer to
  telemetry is preceded by a \<^verbatim>\<open>100 Continue\<close> and the body of the request. Results of writes are ignored.
\<close>

definition mock_telemetry :: "request \<Rightarrow> tcp_stream \<Rightarrow> tcp_stream option" where
  "mock_telemetry request stream =
     (let stream1 = snd (write_all (response_to_raw_string (from_status CONTINUE)) stream)
      in case get_content_length (req_headers request) of
           Inl _ \<Rightarrow> None
         | Inr content_length \<Rightarrow>
             (case receive_body stream1 content_length of Some (Inr _, stream2) \<Rightarrow> Some stream2 | _ \<Rightarrow> None))"

definition mock_post :: "mock_host \<Rightarrow> string \<Rightarrow> request \<Rightarrow> tcp_stream \<Rightarrow> (string \<times> tcp_stream) option" where
  "mock_post m path request stream =
     (let segments = split_on CHR ''/'' path
      in if segments ! 0 = ''secure-channel''
         then Some (if 1 < length segments \<and> segments ! 1 = ''key'' then mh_key_json m (mock_key m) else [], stream)
         else if segments ! 0 = ''machine'' \<and> 1 < length segments \<and> segments ! 1 = ''?comp=telemetrydata''
         then map_option (Pair []) (mock_telemetry request stream)
         else Some ([], stream))"

definition mock_handle_request :: "'u url_lib \<Rightarrow> mock_host \<Rightarrow> tcp_stream \<Rightarrow> (bool \<times> tcp_stream) option" where
  "mock_handle_request U m stream =
     (case receive_request_data stream of
        None \<Rightarrow> None
      | Some (Inl _, _) \<Rightarrow> None
      | Some (Inr request, stream1) \<Rightarrow>
          if req_url request = ''stop'' then Some (False, stream1)
          else
            (let path = mock_path U request
             in case (if req_method request = ''GET'' then Some (mock_get m path, stream1)
                      else if req_method request = ''POST'' then mock_post m path request stream1
                      else Some ([], stream1)) of
                  None \<Rightarrow> None
                | Some (bd, stream2) \<Rightarrow>
                    Some (True, snd (write_all (response_to_raw_string ((from_status OK)\<lparr>resp_body := bd\<rparr>)) stream2))))"

text \<open>
  \<^verbatim>\<open>start\<close> after the listener is bound: one connection after the other, until one stops the server. Accepting a
  connection must not fail.
\<close>

primrec mock_start :: "'u url_lib \<Rightarrow> mock_host \<Rightarrow> tcp_stream io_result list \<Rightarrow> tcp_stream list \<Rightarrow> tcp_stream list option" where
  "mock_start U m [] ended = Some ended"
| "mock_start U m (c # cs) ended =
     (case c of
        Inl _ \<Rightarrow> None
      | Inr stream \<Rightarrow>
          (case mock_handle_request U m stream of
             None \<Rightarrow> None
           | Some (False, stream') \<Rightarrow> Some (ended @ [stream'])
           | Some (True, stream') \<Rightarrow> mock_start U m cs (ended @ [stream'])))"

text \<open>\<^verbatim>\<open>stop\<close>: what it sends.\<close>

definition mock_stop :: "tcp_stream io_result \<Rightarrow> tcp_stream io_result" where
  "mock_stop connection =
     (case connection of
        Inr client \<Rightarrow> Inr (snd (write_all (request_to_raw_bytes (request_new ''stop'' ''GET'')) client))
      | Inl e \<Rightarrow> Inl e)"

section \<open>Requests on the wire\<close>

text \<open>The values of headers are trimmed when they are written.\<close>

definition wire_headers :: "headers \<Rightarrow> headers" where
  "wire_headers h = map (\<lambda>e. (fst e, fst (snd e), trim (snd (snd e)))) h"

definition wire_ok :: "request \<Rightarrow> bool" where
  "wire_ok q \<longleftrightarrow> is_token (req_method q) \<and> is_token (req_url q) \<and> is_token (req_version q)
     \<and> headers_safe (wire_headers (req_headers q)) \<and> \<not> has_expect_continue (wire_headers (req_headers q))
     \<and> \<not> expect_continue_request q
     \<and> get_content_length (wire_headers (req_headers q)) = Inr (length (req_body q)) \<and> utf8_valid (req_body q)"

lemma wire_headers_raw:
  assumes "headers_safe (wire_headers h)"
  shows "headers_to_raw_string (wire_headers h) = headers_to_raw_string h"
proof -
  have "trim (trim (snd (snd e))) = trim (snd (snd e))" if "e \<in> set h" for e
    using assms that by (intro trim_id) (auto simp: headers_safe_def wire_headers_def header_safe_def)
  then show ?thesis
    by (auto simp: headers_to_raw_string_def wire_headers_def comp_def intro!: arg_cong [where f = concat])
qed

lemma request_on_wire:
  assumes "wire_ok q" and "until_err (rx s) = request_to_raw_string q" and "Chunk [] \<notin> set (rx s)"
  shows "\<exists>h s'. receive_request_data s = Some (Inr (q\<lparr>req_headers := h\<rparr>), s') \<and> same_out s s'"
proof -
  let ?q = "q\<lparr>req_headers := wire_headers (req_headers q)\<rparr>"
  have "request_to_raw_string q = request_to_raw_bytes ?q"
    using assms(1) wire_headers_raw
    by (simp add: wire_ok_def request_to_raw_string_def request_to_raw_bytes_def request_head_def from_utf8_def)
  moreover have "\<not> expect_continue_request ?q" "get_content_length (req_headers ?q) = Inr (length (req_body ?q))"
    "headers_safe (req_headers ?q)" "is_token (req_method ?q)" "is_token (req_url ?q)" "is_token (req_version ?q)"
    using assms(1) by (simp_all add: wire_ok_def expect_continue_request_def)
  ultimately obtain h s' where "receive_request_data s = Some (Inr (?q\<lparr>req_headers := h\<rparr>), s')"
    using request_received [of ?q s] assms(2,3) by metis
  then show ?thesis
    using receive_request_same_out [of s] by fastforce
qed

section \<open>One exchange\<close>

text \<open>
  The server gets the request in any pieces on a connection whose writes succeed, and the client gets the answer
  in its first read, which is all it reads.
\<close>

definition served :: "'u url_lib \<Rightarrow> mock_host \<Rightarrow> request \<Rightarrow> tcp_stream \<Rightarrow> bool" where
  "served U m q client \<longleftrightarrow>
     (\<exists>conn srv rest. until_err (rx conn) = request_to_raw_string q \<and> Chunk [] \<notin> set (rx conn) \<and> wr conn = [] \<and> tx conn = []
        \<and> mock_handle_request U m conn = Some (True, srv) \<and> rx client = Chunk (tx srv) # rest)"

text \<open>The body of the answer to a request that is not telemetry.\<close>

definition mock_answers :: "'u url_lib \<Rightarrow> mock_host \<Rightarrow> request \<Rightarrow> string \<Rightarrow> bool" where
  "mock_answers U m q bd \<longleftrightarrow> req_url q \<noteq> ''stop''
     \<and> (req_method q = ''GET'' \<and> mock_get m (mock_path U q) = bd
        \<or> req_method q = ''POST'' \<and> (\<forall>r s. mock_post m (mock_path U q) r s = Some (bd, s)))"

abbreviation ok_response :: "string \<Rightarrow> response" where
  "ok_response bd \<equiv> (from_status OK)\<lparr>resp_body := bd\<rparr>"

lemma served_answer:
  assumes "served U m q client" and "wire_ok q" and "mock_answers U m q bd"
  shows "\<exists>rest. rx client = Chunk (response_to_raw_string (ok_response bd)) # rest"
proof -
  from assms(1) obtain conn srv rest where conn: "until_err (rx conn) = request_to_raw_string q" "Chunk [] \<notin> set (rx conn)"
    "wr conn = []" "tx conn = []" and run: "mock_handle_request U m conn = Some (True, srv)" and rx: "rx client = Chunk (tx srv) # rest"
    unfolding served_def by blast
  obtain h s where s: "receive_request_data conn = Some (Inr (q\<lparr>req_headers := h\<rparr>), s)" "same_out conn s"
    using request_on_wire [OF assms(2) conn(1,2)] by blast
  have "mock_path U (q\<lparr>req_headers := h\<rparr>) = mock_path U q"
    by (simp add: mock_path_def get_url_def split: option.split)
  with s run assms(3) have "srv = snd (write_all (response_to_raw_string (ok_response bd)) s)"
    by (auto simp: mock_handle_request_def mock_answers_def)
  with s(2) conn(3,4) have "tx srv = response_to_raw_string (ok_response bd)"
    by (simp add: same_out_def write_all_def)
  with rx show ?thesis by simp
qed

lemma ok_response_read:
  assumes "utf8_valid bd"
  shows "\<exists>h. from_raw_data (response_to_raw_string (ok_response bd)) = (ok_response bd)\<lparr>resp_headers := h\<rparr> \<and> get_content_length h = Inr 0"
proof -
  have "is_token ''HTTP/1.1''" "no_outer_ws OK" "is_ascii OK" "CHR 0x0A \<notin> set OK" "CHR 0x0D \<notin> set OK" "headers_safe headers_new"
    by code_simp+
  then obtain h where "from_raw_data (response_to_raw_string (ok_response bd)) = (ok_response bd)\<lparr>resp_headers := h\<rparr>"
    "hm_get h = hm_get headers_new"
    using response_read_back [of "ok_response bd"] assms by (auto simp: from_status_def response_new_def)
  then show ?thesis
    by (auto simp: get_content_length_def headers_new_def)
qed

lemma client_gets_answer:
  assumes "connect (get_host U hr) (get_port U hr) = Inr client"
    and "rx client = Chunk (response_to_raw_string (ok_response bd)) # rest" and "utf8_valid bd"
  shows "\<exists>h. fst (get_response_in_string U connect hr) = Inr ((ok_response bd)\<lparr>resp_headers := h\<rparr>)"
proof -
  let ?raw = "response_to_raw_string (ok_response bd)"
  let ?c = "snd (write_all (request_to_raw_string (hr_request hr)) client)"
  have raw: "?raw = ''HTTP/1.1 200 OK'' @ CRLF @ CRLF @ bd"
    using assms(3) by (simp add: response_to_raw_string_def response_head_def from_status_def response_new_def headers_new_def
        headers_to_raw_string_def OK_def from_utf8_def)
  have "utf8_valid ?raw"
    unfolding raw by (simp add: CRLF_def assms(3))
  moreover have "rx ?c = Chunk ?raw # rest"
    using assms(2) by (simp add: write_all_def split: list.split wr_event.split)
  ultimately obtain c where "receive_data_in_string ?c = (Inr ?raw, c)"
    by (simp add: receive_data_in_string_def fill_buf_def buf_reader_new_def from_utf8_def)
  with ok_response_read [OF assms(3)] assms(1) show ?thesis
    by (auto simp: get_response_in_string_def Let_def)
qed

lemma exchange:
  assumes "served U m (hr_request hr) client" and "wire_ok (hr_request hr)" and "mock_answers U m (hr_request hr) bd" and "utf8_valid bd"
  shows "\<exists>h. fst (get_response_in_string U (\<lambda>host port. Inr client) hr) = Inr ((ok_response bd)\<lparr>resp_headers := h\<rparr>)"
  using served_answer [OF assms(1-3)] client_gets_answer [where connect = "\<lambda>host port. Inr client", OF refl _ assms(4)] by blast

section \<open>The requests of the key exchange\<close>

text \<open>What the requests carry besides constants: the date and the host name, one line of ASCII each.\<close>

definition header_value :: "string \<Rightarrow> bool" where
  "header_value v \<longleftrightarrow> is_ascii v \<and> CHR 0x0A \<notin> set v \<and> no_outer_ws v"

lemma header_constants:
  "to_lowercase ''Host'' = ''host''" "to_lowercase DATE_HEADER = DATE_HEADER" "to_lowercase METADATA_HEADER = ''metadata''"
  "to_lowercase ''Content-Type'' = ''content-type''" "to_lowercase CONTENT_LENGTH_HEADER_NAME = ''content-length''"
  "to_lowercase EXPECT_HEADER_NAME = ''expect''"
  by code_simp+

lemma date_header_distinct:
  "DATE_HEADER \<noteq> ''metadata''" "DATE_HEADER \<noteq> ''host''" "DATE_HEADER \<noteq> ''content-type''" "DATE_HEADER \<noteq> ''content-length''"
  "DATE_HEADER \<noteq> ''expect''"
  by code_simp+

lemmas header_table_defs = with_host_def http_request_new_def add_request_header_def request_new_def request_create_def
  add_header_def headers_new_def header_constants date_header_distinct date_header_distinct [symmetric] Let_def

lemma status_headers:
  "hr_request (status_request env base_url) = \<lparr>req_method = ''GET'', req_url = STATUS_URL, req_version = ''HTTP/1.1'',
     req_headers = [(''metadata'', METADATA_HEADER, ''True ''), (DATE_HEADER, DATE_HEADER, he_now env),
       (''host'', ''Host'', get_host (he_urls env) (status_request env base_url))], req_body = []\<rparr>"
  by (simp add: status_request_def get_host_def header_table_defs)

lemma acquire_headers:
  "hr_request (acquire_request env base_url) = \<lparr>req_method = ''POST'', req_url = KEY_URL, req_version = ''HTTP/1.1'',
     req_headers = [(''metadata'', METADATA_HEADER, ''True ''), (DATE_HEADER, DATE_HEADER, he_now env),
       (''content-type'', ''Content-Type'', ''application/json''),
       (''content-length'', CONTENT_LENGTH_HEADER_NAME, show_nat (length acquire_body)),
       (''host'', ''Host'', get_host (he_urls env) (acquire_request env base_url))], req_body = acquire_body\<rparr>"
  by (simp add: acquire_request_def get_host_def header_table_defs)

lemma header_value_safe:
  assumes "header_value v"
  shows "header_safe ''Host'' v" "header_safe DATE_HEADER v" "trim v = v" "is_ascii v"
proof -
  have "is_ascii ''Host'' \<and> CHR '':'' \<notin> set ''Host'' \<and> CHR 0x0A \<notin> set ''Host'' \<and> no_outer_ws ''Host''"
    "is_ascii DATE_HEADER \<and> CHR '':'' \<notin> set DATE_HEADER \<and> CHR 0x0A \<notin> set DATE_HEADER \<and> no_outer_ws DATE_HEADER"
    by code_simp+
  with assms show "header_safe ''Host'' v" "header_safe DATE_HEADER v" "trim v = v" "is_ascii v"
    by (simp_all add: header_value_def header_safe_def trim_id)
qed

lemma header_literals:
  "trim ''True '' = ''True''" "header_safe METADATA_HEADER ''True''" "is_ascii ''True''"
  "trim ''application/json'' = ''application/json''" "header_safe ''Content-Type'' ''application/json''" "is_ascii ''application/json''"
  "trim ''44'' = ''44''" "header_safe CONTENT_LENGTH_HEADER_NAME ''44''" "is_ascii ''44''" "utf8_valid acquire_body"
  "is_token ''GET''" "is_token ''POST''" "is_token STATUS_URL" "is_token KEY_URL" "is_token ''HTTP/1.1''"
  by code_simp+

lemma content_length_literal:
  "parse_uint 64 ''44'' = Some 44" "length acquire_body = 44" "show_nat 44 = ''44''"
proof -
  show "show_nat 44 = ''44''"
    by code_simp
qed (simp_all add: parse_uint_def digit_val_def acquire_body_def)

lemmas wire_defs = content_length_literal wire_ok_def wire_headers_def headers_safe_def headers_wf_def has_expect_continue_def expect_continue_request_def
  get_content_length_def header_constants date_header_distinct date_header_distinct [symmetric] header_literals

lemma status_request_wire_ok:
  assumes "header_value (he_now env)" and "header_value (get_host (he_urls env) (status_request env base_url))"
  shows "wire_ok (hr_request (status_request env base_url))"
  using header_value_safe [OF assms(1)] header_value_safe [OF assms(2)] by (simp add: status_headers wire_defs)

lemma acquire_request_wire_ok:
  assumes "header_value (he_now env)" and "header_value (get_host (he_urls env) (acquire_request env base_url))"
  shows "wire_ok (hr_request (acquire_request env base_url))"
  using header_value_safe [OF assms(1)] header_value_safe [OF assms(2)] by (simp add: acquire_headers wire_defs)

section \<open>Properties\<close>

lemma mock_status_valid: "is_ok (validate (mock_status m))"
proof -
  have "to_lowercase DISABLE_STATE = DISABLE_STATE" "to_lowercase MUST_SIG_WIRESERVER = MUST_SIG_WIRESERVER"
    by code_simp+
  then show ?thesis
    by (simp add: validate_def validate_parts_def check_scheme_def check_delivery_def check_present_def check_state_def check_enabled_def
        mock_status_def is_ok_def Let_def)
qed

text \<open>A relative URL is no URL for the parser: the path is the URL without its first character.\<close>

lemma mock_paths:
  "url_parse U STATUS_URL = None \<Longrightarrow> req_url q = STATUS_URL \<Longrightarrow> mock_path U q = ''secure-channel/status''"
  "url_parse U KEY_URL = None \<Longrightarrow> req_url q = KEY_URL \<Longrightarrow> mock_path U q = ''secure-channel/key''"
proof -
  have "chars_skip 1 STATUS_URL = ''secure-channel/status''" "chars_skip 1 KEY_URL = ''secure-channel/key''"
    by code_simp+
  then show "url_parse U STATUS_URL = None \<Longrightarrow> req_url q = STATUS_URL \<Longrightarrow> mock_path U q = ''secure-channel/status''"
    "url_parse U KEY_URL = None \<Longrightarrow> req_url q = KEY_URL \<Longrightarrow> mock_path U q = ''secure-channel/key''"
    by (simp_all add: mock_path_def get_url_def)
qed

lemma mock_answers_status:
  assumes "url_parse U STATUS_URL = None" and "req_method q = ''GET''" and "req_url q = STATUS_URL"
  shows "mock_answers U m q (mh_status_json m (mock_status m))"
  using assms mock_paths(1) [OF assms(1,3)] by (simp add: mock_answers_def mock_get_def STATUS_URL_def)

lemma mock_answers_key:
  assumes "url_parse U KEY_URL = None" and "req_method q = ''POST''" and "req_url q = KEY_URL"
  shows "mock_answers U m q (mh_key_json m (mock_key m))"
  using assms mock_paths(2) [OF assms(1,3)] by (simp add: mock_answers_def mock_post_def KEY_URL_def)


text \<open>The server answers every such request.\<close>

lemma server_serves:
  assumes "wire_ok q" and "mock_answers U m q bd"
  shows "served U m q \<lparr>rx = [Chunk (response_to_raw_string (ok_response bd))], wr = [], tx = []\<rparr>"
proof -
  let ?conn = "\<lparr>rx = [Chunk (request_to_raw_string q)], wr = [], tx = []\<rparr>"
  have nonempty: "request_to_raw_string q \<noteq> []"
    by (simp add: request_to_raw_string_def request_head_def)
  then obtain h s where s: "receive_request_data ?conn = Some (Inr (q\<lparr>req_headers := h\<rparr>), s)" "same_out ?conn s"
    using request_on_wire [OF assms(1), of ?conn] by auto
  have "mock_path U (q\<lparr>req_headers := h\<rparr>) = mock_path U q"
    by (simp add: mock_path_def get_url_def split: option.split)
  with s assms(2) have "mock_handle_request U m ?conn = Some (True, snd (write_all (response_to_raw_string (ok_response bd)) s))"
    by (auto simp: mock_handle_request_def mock_answers_def)
  moreover have "tx (snd (write_all (response_to_raw_string (ok_response bd)) s)) = response_to_raw_string (ok_response bd)"
    using s(2) by (simp add: same_out_def write_all_def)
  ultimately show ?thesis
    unfolding served_def using nonempty by (intro exI [of _ ?conn] exI conjI) auto
qed

definition example_mock :: mock_host where
  "example_mock = \<lparr>mh_ip = ''127.0.0.1'', mh_port = 8081, mh_guid = ''g1'', mh_goal_state = [], mh_shared_config = [], mh_instance = [],
     mh_status_json = (\<lambda>s. ''s''), mh_key_json = (\<lambda>k. ''k''), CURRENT_STATE = DISABLE_STATE\<rparr>"

definition example_exchange_env :: "(string \<times> (string \<times> string) list) host_env" where
  "example_exchange_env = \<lparr>he_urls = example_urls, he_crypto = example_crypto, he_connect = (\<lambda>h p. Inl ConnectionRefused),
     he_now = ''now'', he_json_status = (\<lambda>t. Inr (mock_status (set_secure_channel_state True example_mock))),
     he_json_key = (\<lambda>t. Inr (mock_key (set_secure_channel_state True example_mock)))\<rparr>"


end
