(* ===== verification/System_Info.thy ===== *)
theory System_Info
  imports Misc_Helpers Windows_Service
begin

text \<open>
  What the agent knows of the machine: \<^verbatim>\<open>proxy_agent/src/common/helpers.rs\<close>, \<^verbatim>\<open>common/windows.rs\<close> and the keyword name of
  \<^verbatim>\<open>telemetry_event.rs\<close>, with the remaining helpers of \<^verbatim>\<open>misc_helpers.rs\<close>. The values are kept in cells that are computed at
  their first use; a cell that has not been used is \<^const>\<open>None\<close>. What \<^verbatim>\<open>sysinfo\<close>, \<^verbatim>\<open>os_info\<close> and the Windows calls answer
  is an argument.
\<close>

section \<open>Sizes\<close>

definition linux_sys_info :: "u64 \<Rightarrow> nat \<Rightarrow> u64 \<times> nat" where
  "linux_sys_info total_memory cpus = (total_memory div 1024 div 1024, cpus)"

definition windows_processor_count :: "u32 \<Rightarrow> nat" where
  "windows_processor_count dwNumberOfProcessors = unat dwNumberOfProcessors"

text \<open>
  The result of \<^verbatim>\<open>GlobalMemoryStatusEx\<close> is not looked at: when the call leaves the structure unset, the code reads memory
  that was never written, \<^const>\<open>None\<close>. The argument is the length the structure is said to have.
\<close>

definition windows_memory_in_mb :: "(u32 \<Rightarrow> u64 option) \<Rightarrow> u32 \<Rightarrow> u64 option" where
  "windows_memory_in_mb memory_status len = map_option (\<lambda>total. total div 1024 div 1024) (memory_status len)"

definition windows_sys_info :: "(u32 \<Rightarrow> u64 option) \<Rightarrow> u32 \<Rightarrow> u32 \<Rightarrow> (u64 \<times> nat) option" where
  "windows_sys_info memory_status len processors =
     map_option (\<lambda>ram. (ram, windows_processor_count processors)) (windows_memory_in_mb memory_status len)"

section \<open>Cells\<close>

definition lazy_force :: "'a \<Rightarrow> 'a option \<Rightarrow> 'a" where
  "lazy_force v cell = (case cell of Some w \<Rightarrow> w | None \<Rightarrow> v)"

record sys_cells =
  CURRENT_SYS_INFO :: "(u64 \<times> nat) option"
  CURRENT_OS_INFO :: "(string \<times> string) option"
  CURRENT_KEYWORD_NAME :: "string option"
  START :: "simple_span option"

definition sys_cells_new :: sys_cells where
  "sys_cells_new = \<lparr>CURRENT_SYS_INFO = None, CURRENT_OS_INFO = None, CURRENT_KEYWORD_NAME = None, START = None\<rparr>"

text \<open>What a call would find: memory and processors, architecture and system, the clock, the JSON text of a value.\<close>

record machine =
  mi_sys :: "u64 \<times> nat"
  mi_os :: "string \<times> string"
  mi_now :: nat
  mi_json :: "string \<Rightarrow> string io_result"

definition force_sys :: "machine \<Rightarrow> sys_cells \<Rightarrow> (u64 \<times> nat) \<times> sys_cells" where
  "force_sys mi c = (let v = lazy_force (mi_sys mi) (CURRENT_SYS_INFO c) in (v, c\<lparr>CURRENT_SYS_INFO := Some v\<rparr>))"

definition force_os :: "machine \<Rightarrow> sys_cells \<Rightarrow> (string \<times> string) \<times> sys_cells" where
  "force_os mi c = (let v = lazy_force (mi_os mi) (CURRENT_OS_INFO c) in (v, c\<lparr>CURRENT_OS_INFO := Some v\<rparr>))"

definition get_ram_in_mb :: "machine \<Rightarrow> sys_cells \<Rightarrow> u64 \<times> sys_cells" where
  "get_ram_in_mb mi c = apfst fst (force_sys mi c)"

definition get_cpu_count :: "machine \<Rightarrow> sys_cells \<Rightarrow> nat \<times> sys_cells" where
  "get_cpu_count mi c = apfst snd (force_sys mi c)"

definition get_cpu_arch :: "machine \<Rightarrow> sys_cells \<Rightarrow> string \<times> sys_cells" where
  "get_cpu_arch mi c = apfst fst (force_os mi c)"

definition helpers_get_long_os_version :: "machine \<Rightarrow> sys_cells \<Rightarrow> string \<times> sys_cells" where
  "helpers_get_long_os_version mi c = apfst snd (force_os mi c)"

text \<open>\<^verbatim>\<open>KeywordName::to_json\<close>: an error of the serializer gives the empty text.\<close>

definition keyword_name_to_json :: "(string \<Rightarrow> string io_result) \<Rightarrow> string \<Rightarrow> string" where
  "keyword_name_to_json json arch = (case json arch of Inr text \<Rightarrow> text | Inl _ \<Rightarrow> [])"

definition get_keyword_name :: "machine \<Rightarrow> sys_cells \<Rightarrow> string \<times> sys_cells" where
  "get_keyword_name mi c =
     (case CURRENT_KEYWORD_NAME c of
        Some name \<Rightarrow> (name, c)
      | None \<Rightarrow>
          (let (arch, c1) = get_cpu_arch mi c; name = keyword_name_to_json (mi_json mi) arch
           in (name, c1\<lparr>CURRENT_KEYWORD_NAME := Some name\<rparr>)))"

definition elapsed_since_start :: "machine \<Rightarrow> sys_cells \<Rightarrow> nat \<times> sys_cells" where
  "elapsed_since_start mi c =
     (let sp = lazy_force \<lparr>span_start = mi_now mi\<rparr> (START c)
      in (get_elapsed_time_in_millisec (mi_now mi) sp, c\<lparr>START := Some sp\<rparr>))"

section \<open>Other helpers\<close>

definition get_thread_identity :: "nat \<Rightarrow> string" where
  "get_thread_identity thread_id = (let s = show_nat thread_id in replicate (8 - length s) CHR ''0'' @ s)"

text \<open>The text of the \<^verbatim>\<open>time\<close> crate for the format is an argument; at most 23 characters of it are kept.\<close>

definition get_date_time_string_with_miliseconds :: "string \<Rightarrow> string" where
  "get_date_time_string_with_miliseconds formatted = chars_take 23 formatted"

definition path_to_string :: "string option \<Rightarrow> string" where
  "path_to_string utf8_path = (case utf8_path of Some s \<Rightarrow> s | None \<Rightarrow> ''InvalidPath'')"

section \<open>Properties\<close>

datatype sys_call = Ram machine | Cpus machine | Arch machine | Os machine | Keyword machine | Elapsed machine

fun sys_step :: "sys_call \<Rightarrow> sys_cells \<Rightarrow> sys_cells" where
  "sys_step (Ram mi) c = snd (get_ram_in_mb mi c)"
| "sys_step (Cpus mi) c = snd (get_cpu_count mi c)"
| "sys_step (Arch mi) c = snd (get_cpu_arch mi c)"
| "sys_step (Os mi) c = snd (helpers_get_long_os_version mi c)"
| "sys_step (Keyword mi) c = snd (get_keyword_name mi c)"
| "sys_step (Elapsed mi) c = snd (elapsed_since_start mi c)"

text \<open>The cells that have a value keep it.\<close>

definition cells_from :: "sys_cells \<Rightarrow> sys_cells \<Rightarrow> bool" where
  "cells_from c c' \<longleftrightarrow> (CURRENT_SYS_INFO c \<noteq> None \<longrightarrow> CURRENT_SYS_INFO c' = CURRENT_SYS_INFO c)
     \<and> (CURRENT_OS_INFO c \<noteq> None \<longrightarrow> CURRENT_OS_INFO c' = CURRENT_OS_INFO c)
     \<and> (CURRENT_KEYWORD_NAME c \<noteq> None \<longrightarrow> CURRENT_KEYWORD_NAME c' = CURRENT_KEYWORD_NAME c)
     \<and> (START c \<noteq> None \<longrightarrow> START c' = START c)"

lemmas cell_defs = get_ram_in_mb_def get_cpu_count_def get_cpu_arch_def helpers_get_long_os_version_def get_keyword_name_def
  elapsed_since_start_def force_sys_def force_os_def lazy_force_def Let_def

interpretation cells: step_system sys_step "cells_from c0" for c0
proof
  fix s e
  assume "cells_from c0 s"
  then show "cells_from c0 (sys_step e s)"
    by (cases e) (auto simp: cell_defs cells_from_def split: option.splits)
qed

text \<open>What the agent reports of the machine does not change while it runs: every getter gives the value of its first use,
  whatever the machine would answer later, and the elapsed time counts from the first call.\<close>

theorem sys_info_stable:
  "fst (get_ram_in_mb mi' (fold sys_step calls (snd (get_ram_in_mb mi c)))) = fst (get_ram_in_mb mi c)
   \<and> fst (get_cpu_count mi' (fold sys_step calls (snd (get_ram_in_mb mi c)))) = fst (get_cpu_count mi c)
   \<and> fst (get_keyword_name mi' (fold sys_step calls (snd (get_keyword_name mi c)))) = fst (get_keyword_name mi c)
   \<and> fst (elapsed_since_start mi' (fold sys_step calls (snd (elapsed_since_start mi sys_cells_new)))) = mi_now mi' - mi_now mi"
proof -
  have keep: "cells_from c' (fold sys_step calls c')" for c'
    by (rule cells.run_inv) (simp add: cells_from_def)
  show ?thesis
    using keep [of "snd (get_ram_in_mb mi c)"] keep [of "snd (get_keyword_name mi c)"]
      keep [of "snd (elapsed_since_start mi sys_cells_new)"]
    by (auto simp: cell_defs cells_from_def sys_cells_new_def get_elapsed_time_in_millisec_def split: option.splits)
qed

text \<open>The size in megabytes is the rounded down size.\<close>

theorem memory_in_mb_bounds:
  "unat (fst (linux_sys_info bytes cpus)) * 1048576 \<le> unat bytes
   \<and> unat bytes < (unat (fst (linux_sys_info bytes cpus)) + 1) * 1048576"
proof -
  have "unat (fst (linux_sys_info bytes cpus)) = unat bytes div 1048576"
    by (simp add: linux_sys_info_def unat_div_distrib div_mult2_eq [symmetric])
  then show ?thesis
    using div_mult_mod_eq [of "unat bytes" 1048576] mod_less_divisor [of 1048576 "unat bytes"] by simp
qed

end
