(* ===== verification/Spec2Isabelle.thy ===== *)
theory Spec2Isabelle
  imports Key_Keeper Proxy_Listener Proxy_Pool Agent_Main Event_Reader Rolling_Logger Extension_Service Agent_Setup Windows_Redirector
    Windows_Identity Windows_Acl Windows_Extension Windows_Setup Service_Host Status_File Telemetry_Pipeline Mock_Server System_Info
begin

text \<open>
  \<^bold>\<open>The Azure Guest Proxy Agent, modelled and verified.\<close>

  The agent is a process inside a virtual machine. An eBPF program (or iptables rules) redirects the
  connections of local processes to the host endpoints (WireServer, the host plugin, the instance metadata
  service) to a listener of the agent. The listener finds out which process opened a connection, decides
  whether it may reach the endpoint, adds signed claims about the process to the request and forwards it. The
  key for the signature and the access rules come from the host and are polled by a key keeper. Telemetry
  threads send events to the host. An extension installs the agent, watches it and replaces it through a setup
  tool. Both builds are modelled: the theories named \<open>Windows_\<dots>\<close> and \<open>Service_Host\<close> hold the files that are compiled on
  Windows only, the others the shared files and those of Linux.

  \<^bold>\<open>How the code is represented.\<close>
  A \<^verbatim>\<open>String\<close> is the list of its bytes, a machine integer a word of its width, \<^verbatim>\<open>std::io::Result\<close> a sum with the
  error kind on the left, a \<^verbatim>\<open>HashMap\<close> an association list with distinct keys, a static variable a field of a
  state record. Operations take the state and return it updated. What the code obtains from outside (the clock,
  a file operation, a host's answer, the results of third-party crates such as \<^verbatim>\<open>aya\<close>, \<^verbatim>\<open>regex\<close>, \<^verbatim>\<open>url\<close>, \<^verbatim>\<open>hmac\<close>,
  \<^verbatim>\<open>serde_json\<close>, \<^verbatim>\<open>sysinfo\<close>) is an argument: a function, an observation of a round, or a list of faults of which
  each file operation consumes one. A value \<open>None\<close> of a result that is otherwise total is a panic; the two read
  loops that may never end (\<open>receive_body_loop\<close>, \<open>stream_body_loop\<close>) are partial functions with the value
  \<open>None\<close> for not returning. An endless loop is one function per round, run by \<open>fold\<close> over the observations of
  its rounds (poll thread, monitor of the extension, accept loop, provisioning signals), and threads that share
  data are a relation or a step function over an explicit sequence of steps (worker pool, event logger).

  \<^bold>\<open>Library.\<close>
  \<^item> \<open>Prelude\<close>: results, words, hash maps, the collections \<open>agent_defs\<close> and \<open>agent_frame\<close>, and the locales
    \<open>hash_map\<close>, \<open>step_system\<close> (an invariant kept by every step holds along every run) and \<open>u32_codec\<close>.
  \<^item> \<open>Rust_Str\<close>, \<open>Rust_Path\<close>: the parts of \<^verbatim>\<open>str\<close> and \<^verbatim>\<open>Path\<close> the sources use, with UTF-8 validity, character
    boundaries, number parsing and printing.
  \<^item> \<open>Constants\<close>, \<open>Config\<close>: \<^verbatim>\<open>common/constants.rs\<close>, \<^verbatim>\<open>common/config.rs\<close>.
  \<^item> \<open>Misc_Helpers\<close>: \<^verbatim>\<open>misc_helpers.rs\<close>, \<^verbatim>\<open>linux.rs\<close>, \<^verbatim>\<open>acl.rs\<close>, \<^verbatim>\<open>span.rs\<close> and the loggers of the agent.
  \<^item> \<open>System_Info\<close> (\<^verbatim>\<open>common/helpers.rs\<close>, \<^verbatim>\<open>common/windows.rs\<close>): what the agent knows of the machine, in cells computed once.

  \<^bold>\<open>HTTP\<close> (\<^verbatim>\<open>proxy_agent/src/common/http\<close>).
  \<^item> \<open>Http_Headers\<close> (\<^verbatim>\<open>headers.rs\<close>), \<open>Http_Message\<close> (\<^verbatim>\<open>request.rs\<close>, \<^verbatim>\<open>response.rs\<close>, \<^verbatim>\<open>http_request.rs\<close>): the
    header table, parsing and printing, the signing input and the requests the agent sends itself. Shown: the
    round trips, what the signing input depends on, that the agent signs what it sends.
  \<^item> \<open>Http_Stream\<close> (\<^verbatim>\<open>http.rs\<close>): a TCP stream is a list of read results and a list of write results. Shown: a
    request is received as sent however it is cut into reads, and what a client gets of a forwarded response.

  \<^bold>\<open>Access control\<close> (\<^verbatim>\<open>proxy_agent/src/proxy\<close>).
  \<^item> \<open>Claims\<close> (\<^verbatim>\<open>proxy.rs\<close>): who opened a connection, with the cache of users.
  \<^item> \<open>Key_Status\<close> (\<^verbatim>\<open>key_keeper/key.rs\<close>): the key status, its validation, the access control items.
  \<^item> \<open>Authorization\<close> (\<^verbatim>\<open>authorization_rules.rs\<close>, \<^verbatim>\<open>proxy_authentication.rs\<close>): the rules and the authenticators, with
    the locale \<open>authenticate_trait\<close> for what every authenticator keeps. Shown: the rules decide exactly as the
    role based reading of the item, and the verdict and the record of every authenticator on every branch.
  \<^item> \<open>Agent_Status\<close> (\<^verbatim>\<open>proxy_agent_status.rs\<close>, \<^verbatim>\<open>proxy_summary.rs\<close>): the summaries count the connections.

  \<^bold>\<open>Redirection and keys.\<close>
  \<^item> \<open>Ebpf_Obj\<close> (\<^verbatim>\<open>redirector/linux/ebpf_obj.rs\<close>): the map layouts as interpretations of \<open>u32_codec\<close>.
  \<^item> \<open>Redirector_Backend\<close> (\<^verbatim>\<open>redirector.rs\<close>): the retry loop both builds share and the locale \<open>redirector_backend\<close> of what
    it relies on (start, close, the audit lookup), interpreted for Linux in \<open>Redirector\<close> and for Windows in
    \<open>Windows_Redirector\<close>.
  \<^item> \<open>Redirector\<close> (\<^verbatim>\<open>redirector.rs\<close>, \<^verbatim>\<open>redirector/linux.rs\<close>, \<^verbatim>\<open>iptable_redirect.rs\<close>): loading, the policy and skip maps,
    the fallback, the audit lookup.
  \<^item> \<open>Provision\<close> (\<^verbatim>\<open>provision.rs\<close>): the readiness signals and the status files under every interleaving.
  \<^item> \<open>Key_Keeper\<close> (\<^verbatim>\<open>key_keeper.rs\<close>): one round of the poll thread. Shown: the channel state is always known, the
    key changes only to a key that is on disk or was saved and attested, only saved keys are attested, and a
    round in which all calls succeed ends with the new key in use.
  \<^item> \<open>Mock_Server\<close> (\<^verbatim>\<open>test_mock/server_mock.rs\<close>): the host of the agent's tests. Shown: the key exchange of the agent with it,
    from the bytes written to the values returned.

  \<^bold>\<open>The listener.\<close>
  \<^item> \<open>Proxy_Listener\<close> (\<^verbatim>\<open>proxy_listener.rs\<close>): the whole handler of a connection and the accept loop. Shown: a host is
    contacted only for an authenticated request and gets it with the agent's claims, date and signature; a refused
    request gets exactly one answer and one record; the tables stay well formed; the connection ids.
  \<^item> \<open>Proxy_Pool\<close> (\<^verbatim>\<open>proxy_pool.rs\<close>): the worker pool as an inductive step relation. Shown: jobs start in order and at
    most once, and dropping the pool ends with all of them run.
  \<^item> \<open>Agent_Main\<close> (\<^verbatim>\<open>main.rs\<close>, \<^verbatim>\<open>service.rs\<close>, \<^verbatim>\<open>monitor.rs\<close>): the agent as a process. Shown: what stopping does to every
    module, and that the status command ends with the exit code the provisioning stands for.

  \<^bold>\<open>Telemetry.\<close>
  \<^item> \<open>Telemetry_Event\<close> (\<^verbatim>\<open>telemetry.rs\<close>, \<^verbatim>\<open>telemetry_event.rs\<close>), \<open>Host_Clients\<close> (\<^verbatim>\<open>host_clients/\<close>): events as XML and the
    clients of the host. \<open>Event_Logger\<close> (\<^verbatim>\<open>event_logger.rs\<close>): the bounded queue of 1000 events and the thread that
    writes it to files; after the stop signal it returns within 1007 steps. \<open>Event_Reader\<close> (\<^verbatim>\<open>event_reader.rs\<close>): the
    thread that sends them in documents of less than 64 KB, each tried at most five times.
  \<^item> \<open>Telemetry_Pipeline\<close>: the queue, the event directory and the reader as one \<open>step_system\<close>. Shown: what becomes of every
    accepted event, and that nothing else is sent.
  \<^item> \<open>Rolling_Logger\<close> (\<^verbatim>\<open>rolling_logger.rs\<close>, \<^verbatim>\<open>logger_manager.rs\<close>): the log files and their limit.

  \<^bold>\<open>Extension and setup tool.\<close>
  \<^item> \<open>Agent_Version\<close> (\<^verbatim>\<open>version.rs\<close>), \<open>Extension_Common\<close> (\<^verbatim>\<open>common.rs\<close>), \<open>Extension_Handler\<close> (\<^verbatim>\<open>handler_main.rs\<close>),
    \<open>Extension_Service\<close> (\<^verbatim>\<open>service_main.rs\<close>): commands, sequence numbers, the monitor. Shown: the reported state refines
    a specification over the history of outcomes, restore or purge happens once, the update tag protects the
    agent, enabling tries six times.
  \<^item> \<open>Json_File\<close> (the JSON helpers of \<^verbatim>\<open>misc_helpers.rs\<close>), \<open>Status_File\<close>: the status file that the status thread of the agent
    rewrites in place and the extension reads, with every single write and read a step, as a \<open>step_system\<close>. Shown: what
    the extension can see of the agent's status, and that only a read no new status disturbs is reliable.
  \<^item> \<open>Agent_Setup\<close> (\<^verbatim>\<open>proxy_agent_setup/src\<close>, \<^verbatim>\<open>service/linux_service.rs\<close>): backup, install, restore, uninstall on a file
    system with faults. Shown: restoring undoes an installation.

  \<^bold>\<open>The Windows build.\<close>
  \<^item> \<open>Windows_Path\<close>: the parts of \<^verbatim>\<open>Path\<close> with the separators and prefixes of Windows.
  \<^item> \<open>Windows_Bpf\<close> (\<^verbatim>\<open>redirector/windows/bpf_api.rs\<close>, \<^verbatim>\<open>bpf_obj.rs\<close>, \<^verbatim>\<open>bpf_prog.rs\<close>): the functions of the eBPF library, a
    record of functions with the documented behaviour of its maps as the hypothesis \<open>documented_dll\<close>, and the
    operations on the loaded object. \<open>Windows_Redirector\<close> (\<^verbatim>\<open>redirector/windows.rs\<close>, \<^verbatim>\<open>common/windows.rs\<close>,
    \<^verbatim>\<open>common/http/windows.rs\<close>): start, close, lookup and the connection with the redirect record. Shown: what the maps hold after a start, and that the entry found for a
    port is the stored one.
  \<^item> \<open>Windows_Identity\<close> (\<^verbatim>\<open>proxy/windows.rs\<close>, branches of \<^verbatim>\<open>proxy.rs\<close> and \<^verbatim>\<open>proxy_authentication.rs\<close>): accounts, groups and command lines of
    processes, with the cache of users as a \<open>step_system\<close>. Shown: the claims made of an audit entry.
  \<^item> \<open>Windows_Acl\<close> (\<^verbatim>\<open>acl/windows_acl.rs\<close>): over the documented list operations of the ACL library a directory ends
    with full access of the system and the administrators, and of the other rules only those that could not be removed.
  \<^item> \<open>Windows_Service\<close> (\<^verbatim>\<open>service/windows_service.rs\<close>, \<^verbatim>\<open>proxy_agent_shared/src/windows.rs\<close>): installing, starting, stopping and deleting a
    service over a service manager with the laws \<open>documented_scm\<close>; file versions and the registry.
  \<^item> \<open>Windows_Extension\<close> (\<^verbatim>\<open>handler_main.rs\<close>, \<^verbatim>\<open>service_main.rs\<close>, \<^verbatim>\<open>windows/service_ext.rs\<close>), \<open>Windows_Setup\<close>
    (\<^verbatim>\<open>proxy_agent_setup/src\<close>), \<open>Service_Host\<close> (\<^verbatim>\<open>proxy_agent/src/service/windows.rs\<close>, the extension's
    \<^verbatim>\<open>main.rs\<close>, \<^verbatim>\<open>logger.rs\<close> and \<^verbatim>\<open>service_main/windows_main.rs\<close>): the handlers, the setup tool and the hosts of the two services. Shown: where
    the files and the service are after an installation, and that under every interleaving of control events the work
    is stopped once for every stop request and the service never reports running after stopped.

  \<^bold>\<open>Across components\<close> (below): the rules of the status the host sent decide which bytes reach the wire server.

  \<^bold>\<open>Not modelled.\<close>
  The system calls below the Windows functions above (LSA, service control, NTFS access lists, the eBPF runtime),
  which are parameters with their documented behaviour as hypotheses; the eBPF programs themselves, written in C; JSON and XML decoding and the date
  formats, which are library code; the lists of modules; the end-to-end tests and the packaging scripts. Log lines are kept only where
  they are the content of a component (rolling logger, event logger) and dropped elsewhere. The case tables of
  Unicode beyond ASCII are left out. Memory that threads share without a lock is read and written at the
  granularity of one round or one call.
\<close>

section \<open>The listener and the key keeper together\<close>

text \<open>What the handler of a connection sees of the key keeper's state.\<close>

definition proxy_view :: "kk_state \<Rightarrow> 'u proxy_env \<Rightarrow> 'u proxy_env" where
  "proxy_view kk env = env\<lparr>px_rules := kk_rules kk, px_key := get_current_key kk, px_key_guid := get_current_key_guid kk\<rparr>"

lemma proxy_view_simps [simp]:
  "px_auth (proxy_view kk env) = px_auth env" "px_rules (proxy_view kk env) = kk_rules kk"
  "px_key (proxy_view kk env) = get_current_key kk" "px_key_guid (proxy_view kk env) = get_current_key_guid kk"
  "conn_claims (proxy_view kk env) cip e st = conn_claims env cip e st"
  "px_aya (proxy_view kk env) = px_aya env" "px_redirector (proxy_view kk env) = px_redirector env"
  "px_peer_addr (proxy_view kk env) = px_peer_addr env" "px_crypto (proxy_view kk env) = px_crypto env"
  by (simp_all add: proxy_view_def conn_claims_def)

text \<open>The destination of an audit entry.\<close>

definition to_wireserver :: "audit_entry \<Rightarrow> bool" where
  "to_wireserver e \<longleftrightarrow> ip_to_string (ae_destination_ipv4 e) = WIRE_SERVER_IP \<and> ntohs (ae_destination_port e) = WIRE_SERVER_PORT"

lemma wireserver_authenticated:
  assumes "conn_authenticated env u e c st" and "to_wireserver e"
  shows "runAsElevated c \<and> (is_platform_process (px_auth env) c \<or> wireServerSupport (ae_config (px_auth env)) \<noteq> 2
    \<or> (case WIRESERVER_RULES (px_rules env) of None \<Rightarrow> True
       | Some rules \<Rightarrow> to_lowercase (ar_mode rules) = ''audit'' \<or> is_allowed (ae_urls (px_auth env)) rules u c))"
  using assms
  by (auto simp: conn_authenticated_def to_wireserver_def get_authenticate_def authenticate_defs split: if_splits option.splits)

lemma ar_mode_from_item [simp]: "ar_mode (from_authorization_item it) = to_lowercase (item_mode it)"
  by (simp add: from_authorization_item_def)

text \<open>C2: End to end, from the status the host sent to the bytes the host receives: after a round of the key
  keeper that brought new access rules for the wire server, a connection of a process that is not a
  platform process reaches the wire server only if the process is elevated and, with authentication
  support on and the rules not in audit mode, only if the access control item of the status, read as
  role based access control, allows this URL for the claims of the process.\<close>

theorem wireserver_access_enforced:
  assumes "\<not> kk_stopped kk" and "\<not> po_shutdown ob" and "po_status ob = Inr status"
    and "get_wireserver_rule_id status \<noteq> WIRESERVER_RULE_ID kk" and "get_wireserver_rules status = Some it"
    and "handle_connection (proxy_view (poll_step d i ob kk) env) st = Some st'"
    and "hs_server st = None" and "hs_server st' = Some server'"
    and "wireServerSupport (ae_config (px_auth env)) = 2" and "to_lowercase (item_mode it) \<noteq> ''audit''"
  shows "\<exists>q s cip port entry. receive_request_data (client_stream st) = Some (Inr q, s)
    \<and> px_peer_addr env = Inr (cip, port) \<and> lookup_audit (px_aya env) port (px_redirector env) = Inr entry
    \<and> (to_wireserver entry \<longrightarrow> runAsElevated (conn_claims env cip entry st)
        \<and> (is_platform_process (px_auth env) (conn_claims env cip entry st)
           \<or> item_allows (ae_urls (px_auth env)) it (req_url q) (conn_claims env cip entry st)))"
proof -
  let ?kk = "poll_step d i ob kk"
  have rules: "WIRESERVER_RULES (kk_rules ?kk) = Some (from_authorization_item it)"
    using poll_step_rules [OF assms(1-3), of d i] assms(4,5) by simp
  from host_contact [OF assms(6-8)] obtain q s cip port entry where
    "receive_request_data (client_stream st) = Some (Inr q, s)" "px_peer_addr env = Inr (cip, port)"
    "lookup_audit (px_aya env) port (px_redirector env) = Inr entry"
    and auth: "conn_authenticated (proxy_view ?kk env) (req_url q) entry (conn_claims env cip entry st) st"
    by auto
  moreover have "to_wireserver entry \<longrightarrow> runAsElevated (conn_claims env cip entry st)
      \<and> (is_platform_process (px_auth env) (conn_claims env cip entry st)
         \<or> item_allows (ae_urls (px_auth env)) it (req_url q) (conn_claims env cip entry st))"
    using wireserver_authenticated [OF auth] rules assms(9,10) by (auto simp: is_allowed_item)
  ultimately show ?thesis by blast
qed

definition example_item :: authorization_item where
  "example_item = \<lparr>item_defaultAccess = ''Allow'', item_mode = ''Enforce'', item_id = ''r1'', item_rules = None\<rparr>"

definition example_rules_obs :: poll_obs where
  "example_rules_obs = example_obs\<lparr>po_status :=
     Inr (example_status\<lparr>ks_authorizationRules := Some \<lparr>kar_imds = None, kar_wireserver = Some example_item\<rparr>\<rparr>)\<rparr>"

theorem wireserver_access_enforced_witness:
  "let c = conn_claims (example_proxy_env 1 0x10813FA8 0x5000) ''10.0.0.4''
       (audit_entry_of_array (example_entry 1 0x10813FA8 0x5000)) example_conn
   in runAsElevated c
      \<and> (is_platform_process example_env c \<or> item_allows example_urls example_item ''http://127.0.0.1'' c)"
proof -
  let ?status = "example_status\<lparr>ks_authorizationRules := Some \<lparr>kar_imds = None, kar_wireserver = Some example_item\<rparr>\<rparr>"
  let ?start = "kk_state_new []"
  let ?kk = "poll_step ''/keys'' 15 example_rules_obs ?start"
  let ?env = "example_proxy_env 1 0x10813FA8 0x5000"
  let ?e = "audit_entry_of_array (example_entry 1 0x10813FA8 0x5000)"
  let ?c = "conn_claims ?env ''10.0.0.4'' ?e example_conn"
  have round: "\<not> kk_stopped ?start" "\<not> po_shutdown example_rules_obs" "po_status example_rules_obs = Inr ?status"
    "get_wireserver_rule_id ?status \<noteq> WIRESERVER_RULE_ID ?start" "get_wireserver_rules ?status = Some example_item"
    by (simp_all add: kk_state_new_def example_rules_obs_def example_obs_def get_wireserver_rule_id_def
        get_wireserver_rules_def example_item_def authorization_item_clone_def)
  have rules: "WIRESERVER_RULES (kk_rules ?kk) = Some (from_authorization_item example_item)"
    using poll_step_rules [OF round(1-3), of "''/keys''" 15] round(4,5) by simp
  have dst: "ip_to_string 0x10813FA8 = WIRE_SERVER_IP" "ntohs 0x5000 = WIRE_SERVER_PORT"
    by (simp_all add: ip_to_string_def WIRE_SERVER_IP_def ntohs_def swap16_def WIRE_SERVER_PORT_def example_digits)
  have elevated: "runAsElevated ?c"
    by (simp add: conn_claims_def from_audit_entry_def case_prod_beta audit_entry_of_array_def
        sock_addr_audit_entry_from_array_def example_entry_def Let_def)
  have lower: "to_lowercase ''http://127.0.0.1'' = ''http://127.0.0.1''" "to_lowercase ''Allow'' = ''allow''"
    "to_lowercase ''Enforce'' = ''enforce''"
    by code_simp+
  then have allowed: "is_allowed example_urls (from_authorization_item example_item) ''http://127.0.0.1'' ?c"
    by (simp add: is_allowed_def from_authorization_item_def example_item_def example_urls_def)
  have sup: "wireServerSupport (ae_config (px_auth ?env)) = 2" and urls: "ae_urls (px_auth ?env) = example_urls"
    by (simp_all add: example_proxy_env_def example_env_def example_config_def)
  have entry: "ae_destination_ipv4 ?e = 0x10813FA8" "ae_destination_port ?e = 0x5000"
    by (simp_all add: audit_entry_of_array_def sock_addr_audit_entry_from_array_def example_entry_def)
  have auth: "conn_authenticated (proxy_view ?kk ?env) ''http://127.0.0.1'' ?e ?c example_conn"
    using elevated allowed rules urls
    by (simp add: conn_authenticated_def entry dst get_authenticate_def authenticate_defs)
  have claims: "?c = conn_claims (proxy_view ?kk ?env) ''10.0.0.4'' ?e example_conn"
    by simp
  obtain st' server' where run: "handle_connection (proxy_view ?kk ?env) example_conn = Some st'" "hs_server st' = Some server'"
    using example_contact [OF auth claims proxy_view_def] by blast
  have "hs_server example_conn = None" and mode: "to_lowercase (item_mode example_item) \<noteq> ''audit''"
    by (simp_all add: example_conn_def example_item_def lower)
  from wireserver_access_enforced [OF round run(1) this(1) run(2) sup mode] obtain q s cip port entry where
    h: "receive_request_data (client_stream example_conn) = Some (Inr q, s)" "px_peer_addr ?env = Inr (cip, port)"
      "lookup_audit (px_aya ?env) port (px_redirector ?env) = Inr entry"
    and res: "to_wireserver entry \<longrightarrow> runAsElevated (conn_claims ?env cip entry example_conn)
        \<and> (is_platform_process (px_auth ?env) (conn_claims ?env cip entry example_conn)
           \<or> item_allows (ae_urls (px_auth ?env)) example_item (req_url q) (conn_claims ?env cip entry example_conn))"
    by blast
  from h have eq: "req_url q = ''http://127.0.0.1''" "cip = ''10.0.0.4''" "entry = ?e"
    by (auto simp: example_received example_proxy_env_def example_lookup)
  have "to_wireserver entry"
    by (simp add: to_wireserver_def eq entry dst)
  moreover have "px_auth ?env = example_env" "ae_urls example_env = example_urls"
    by (simp_all add: example_proxy_env_def example_env_def)
  ultimately show ?thesis
    using res unfolding eq Let_def by simp
qed

end
